(* ===== verification/Moha_Prelude.thy ===== *)
theory Moha_Prelude
  imports Main "HOL-Library.Word" "HOL-Library.Sublist"
    "HOL-Library.Char_ord" "HOL-Library.List_Lexorder"
begin

text \<open>
  The shared part of the development: the two named collections the component theories feed
  (\<open>moha_simps\<close>, rewrite rules for the execution monad and the records; \<open>hoare\<close>, the
  introduction rules of the triples), the error values of the agent, Go's fixed-width integers and
  channels, and the execution monad in which every operation with an effect is written.

  An operation of type \<open>('w, 'a) io\<close> runs in a world \<open>'w\<close> and ends in one of four ways:
  it returns a value, it leaves the process through \<open>os.Exit\<close>, it panics, or it is still waiting
  for an answer of its environment.
\<close>

named_theorems moha_simps \<open>rewrite rules for the execution monad and the records of the model\<close>
named_theorems hoare \<open>introduction rules for triples\<close>

section \<open>Machine integers, errors, channels\<close>

type_synonym u64 = "64 word"

text \<open>Two's complement wrap-around of Go's \<open>int64\<close> (also \<open>time.Duration\<close>, in nanoseconds).\<close>

definition wrap64 :: "int \<Rightarrow> int" where
  "wrap64 x = (x + 2 ^ 63) mod 2 ^ 64 - 2 ^ 63"

text \<open>Go's integer division rounds towards zero.\<close>

definition go_div :: "int \<Rightarrow> int \<Rightarrow> int" where
  "go_div a b = sgn a * sgn b * (\<bar>a\<bar> div \<bar>b\<bar>)"

definition time_Second :: int where
  "time_Second = 10 ^ 9"

definition time_Millisecond :: int where
  "time_Millisecond = 10 ^ 6"

text \<open>The values of Go's \<open>error\<close> interface that the code tells apart.\<close>

datatype error =
    ENotFound string
  | ENotValid string
  | EMsg string
  | ECanceled
  | ERpc
  | EBadConn
  | ESql string

fun error_msg :: "error \<Rightarrow> string" where
  "error_msg (ENotFound m) = m"
| "error_msg (ENotValid m) = m"
| "error_msg (EMsg m) = m"
| "error_msg ECanceled = ''context canceled''"
| "error_msg ERpc = ''rpc error''"
| "error_msg EBadConn = ''driver: bad connection''"
| "error_msg (ESql m) = m"

fun is_NotFound :: "error \<Rightarrow> bool" where
  "is_NotFound (ENotFound _) = True"
| "is_NotFound _ = False"

fun is_NotValid :: "error \<Rightarrow> bool" where
  "is_NotValid (ENotValid _) = True"
| "is_NotValid _ = False"

text \<open>Go channels used for signalling only: closing a nil or a closed channel panics.\<close>

datatype chan = NilChan | OpenChan | ClosedChan

section \<open>The execution monad\<close>

datatype ('w, 'a) outcome =
    Ret 'a 'w
  | Exit int 'w
  | Panic 'w
  | Wait 'w

type_synonym ('w, 'a) io = "'w \<Rightarrow> ('w, 'a) outcome"

definition ret :: "'a \<Rightarrow> ('w, 'a) io" where
  "ret a = (\<lambda>w. Ret a w)"

definition andthen :: "('w, 'a) io \<Rightarrow> ('a \<Rightarrow> ('w, 'b) io) \<Rightarrow> ('w, 'b) io" where
  "andthen m f = (\<lambda>w. case m w of
       Ret a w' \<Rightarrow> f a w'
     | Exit c w' \<Rightarrow> Exit c w'
     | Panic w' \<Rightarrow> Panic w'
     | Wait w' \<Rightarrow> Wait w')"

definition reads :: "('w \<Rightarrow> 'a) \<Rightarrow> ('w, 'a) io" where
  "reads f = (\<lambda>w. Ret (f w) w)"

definition updates :: "('w \<Rightarrow> 'w) \<Rightarrow> ('w, unit) io" where
  "updates f = (\<lambda>w. Ret () (f w))"

definition os_Exit :: "int \<Rightarrow> ('w, 'a) io" where
  "os_Exit c = (\<lambda>w. Exit c w)"

definition go_panic :: "('w, 'a) io" where
  "go_panic = (\<lambda>w. Panic w)"

text \<open>The world an operation ends in, however it ends.\<close>

text \<open>A deferred call: it runs when the function returns or panics, not when the process exits.\<close>

definition deferred :: "('w, 'b) io \<Rightarrow> ('w, 'a) io \<Rightarrow> ('w, 'a) io" where
  "deferred d m = (\<lambda>w. case m w of
       Ret a w' \<Rightarrow> andthen d (\<lambda>_. ret a) w'
     | Panic w' \<Rightarrow> andthen d (\<lambda>_. go_panic) w'
     | Exit c w' \<Rightarrow> Exit c w'
     | Wait w' \<Rightarrow> Wait w')"

fun final_world :: "('w, 'a) outcome \<Rightarrow> 'w" where
  "final_world (Ret a w) = w"
| "final_world (Exit c w) = w"
| "final_world (Panic w) = w"
| "final_world (Wait w) = w"

fun ret_value :: "('w, 'a) outcome \<Rightarrow> 'a option" where
  "ret_value (Ret a w) = Some a"
| "ret_value _ = None"

subsection \<open>Rewriting\<close>

lemma ret_value_Some: "ret_value r = Some a \<Longrightarrow> r = Ret a (final_world r)"
  by (cases r) auto

lemma andthen_Ret [moha_simps]: "m w = Ret a w' \<Longrightarrow> andthen m f w = f a w'"
  by (simp add: andthen_def)

lemma andthen_assoc: "andthen (andthen m f) g = andthen m (\<lambda>a. andthen (f a) g)"
  by (rule ext) (simp add: andthen_def split: outcome.split)

lemma ret_andthen [simp]: "andthen (ret a) f = f a"
  by (simp add: andthen_def ret_def)

lemma andthen_ret [simp]: "andthen m ret = m"
  by (rule ext) (simp add: andthen_def ret_def split: outcome.split)

lemma reads_andthen [simp]: "andthen (reads g) f w = f (g w) w"
  by (simp add: andthen_def reads_def)

lemma updates_andthen [simp]: "andthen (updates g) f w = f () (g w)"
  by (simp add: andthen_def updates_def)

lemma os_Exit_andthen [simp]: "andthen (os_Exit c) f = os_Exit c"
  by (simp add: andthen_def os_Exit_def)

lemma ret_apply [simp]: "ret a w = Ret a w"
  by (simp add: ret_def)

lemma reads_apply [simp]: "reads f w = Ret (f w) w"
  by (simp add: reads_def)

lemma updates_apply [simp]: "updates f w = Ret () (f w)"
  by (simp add: updates_def)

lemma os_Exit_apply [simp]: "os_Exit c w = Exit c w"
  by (simp add: os_Exit_def)

lemma go_panic_apply [simp]: "go_panic w = Panic w"
  by (simp add: go_panic_def)

lemma andthen_RetE:
  assumes "andthen m f w = Ret b w''"
  obtains a w' where "m w = Ret a w'" and "f a w' = Ret b w''"
  using assms by (auto simp: andthen_def split: outcome.splits)

lemma wrap64_id: "- (2 ^ 63) \<le> x \<Longrightarrow> x < 2 ^ 63 \<Longrightarrow> wrap64 x = x"
  by (simp add: wrap64_def)

lemma wrap64_less: "wrap64 x < 2 ^ 63"
  by (simp add: wrap64_def)

section \<open>Triples\<close>

text \<open>
  \<open>triple P m Q E\<close>: started where \<open>P\<close> holds, \<open>m\<close> either returns in a world where
  \<open>Q\<close> holds of the value and the world, or stops (exit, panic, waiting) in a world where \<open>E\<close>
  holds. \<open>keeps I m\<close> is the special case of an invariant that holds however \<open>m\<close> ends.
\<close>

definition triple ::
  "('w \<Rightarrow> bool) \<Rightarrow> ('w, 'a) io \<Rightarrow> ('a \<Rightarrow> 'w \<Rightarrow> bool) \<Rightarrow> ('w \<Rightarrow> bool) \<Rightarrow> bool" where
  "triple P m Q E \<longleftrightarrow> (\<forall>w. P w \<longrightarrow> (case m w of
       Ret a w' \<Rightarrow> Q a w' | Exit c w' \<Rightarrow> E w' | Panic w' \<Rightarrow> E w' | Wait w' \<Rightarrow> E w'))"

definition keeps :: "('w \<Rightarrow> bool) \<Rightarrow> ('w, 'a) io \<Rightarrow> bool" where
  "keeps I m \<longleftrightarrow> (\<forall>w. I w \<longrightarrow> I (final_world (m w)))"

lemma tripleI:
  assumes "\<And>w a w'. P w \<Longrightarrow> m w = Ret a w' \<Longrightarrow> Q a w'"
    and "\<And>w c w'. P w \<Longrightarrow> m w = Exit c w' \<Longrightarrow> E w'"
    and "\<And>w w'. P w \<Longrightarrow> m w = Panic w' \<Longrightarrow> E w'"
    and "\<And>w w'. P w \<Longrightarrow> m w = Wait w' \<Longrightarrow> E w'"
  shows "triple P m Q E"
  using assms by (auto simp: triple_def split: outcome.split)

lemma triple_RetD: "triple P m Q E \<Longrightarrow> P w \<Longrightarrow> m w = Ret a w' \<Longrightarrow> Q a w'"
  by (fastforce simp: triple_def)

lemma triple_andthen:
  assumes "triple P m R E" and "\<And>a. triple (R a) (f a) Q E"
  shows "triple P (andthen m f) Q E"
  using assms by (fastforce simp: triple_def andthen_def split: outcome.splits)

lemma triple_ret: "(\<And>w. P w \<Longrightarrow> Q a w) \<Longrightarrow> triple P (ret a) Q E"
  by (simp add: triple_def)

lemma triple_weaken:
  assumes "triple P' m Q' E'" and "\<And>w. P w \<Longrightarrow> P' w"
    and "\<And>a w. Q' a w \<Longrightarrow> Q a w" and "\<And>w. E' w \<Longrightarrow> E w"
  shows "triple P m Q E"
  using assms by (fastforce simp: triple_def split: outcome.splits)

lemma triple_alt:
  "triple P m Q E \<longleftrightarrow> (\<forall>w. P w \<longrightarrow> (case m w of
       Ret a w' \<Rightarrow> Q a w' | _ \<Rightarrow> E (final_world (m w))))"
  unfolding triple_def by (intro all_cong1 imp_cong refl) (simp split: outcome.split)

lemma keeps_triple: "keeps I m \<longleftrightarrow> triple I m (\<lambda>_. I) I"
  unfolding keeps_def triple_alt
  by (intro all_cong1 imp_cong refl) (simp split: outcome.split)

lemma keepsI [intro?]: "(\<And>w. I w \<Longrightarrow> I (final_world (m w))) \<Longrightarrow> keeps I m"
  by (simp add: keeps_def)

lemma keepsD: "keeps I m \<Longrightarrow> I w \<Longrightarrow> I (final_world (m w))"
  by (simp add: keeps_def)

lemma keeps_RetD: "keeps I m \<Longrightarrow> I w \<Longrightarrow> m w = Ret a w' \<Longrightarrow> I w'"
  by (fastforce simp: keeps_def)

lemma keeps_ret [hoare]: "keeps I (ret a)"
  by (simp add: keeps_def)

lemma keeps_reads [hoare]: "keeps I (reads f)"
  by (simp add: keeps_def)

lemma keeps_os_Exit [hoare]: "keeps I (os_Exit c)"
  by (simp add: keeps_def)

lemma keeps_go_panic [hoare]: "keeps I go_panic"
  by (simp add: keeps_def)

lemma keeps_updates [hoare]: "(\<And>w. I w \<Longrightarrow> I (f w)) \<Longrightarrow> keeps I (updates f)"
  by (simp add: keeps_def)

lemma keeps_andthen [hoare]:
  assumes "keeps I m" and "\<And>a. keeps I (f a)"
  shows "keeps I (andthen m f)"
proof
  fix w assume w: "I w"
  show "I (final_world (andthen m f w))"
    using keepsD [OF assms(1) w] keepsD [OF assms(2)]
    by (cases "m w") (simp_all add: andthen_def)
qed

lemma keeps_if [hoare]: "(b \<Longrightarrow> keeps I m) \<Longrightarrow> (\<not> b \<Longrightarrow> keeps I n) \<Longrightarrow> keeps I (if b then m else n)"
  by simp

lemma keeps_case_sum [hoare]:
  "(\<And>e. keeps I (f e)) \<Longrightarrow> (\<And>a. keeps I (g a)) \<Longrightarrow> keeps I (case x of Inl e \<Rightarrow> f e | Inr a \<Rightarrow> g a)"
  by (cases x) auto

lemma keeps_case_option [hoare]:
  "keeps I m \<Longrightarrow> (\<And>a. keeps I (g a)) \<Longrightarrow> keeps I (case x of None \<Rightarrow> m | Some a \<Rightarrow> g a)"
  by (cases x) auto

lemma keeps_case_prod [hoare]: "(\<And>a b. keeps I (f a b)) \<Longrightarrow> keeps I (case x of (a, b) \<Rightarrow> f a b)"
  by (cases x) auto

lemma keeps_deferred [hoare]:
  assumes "keeps I m" and "keeps I d"
  shows "keeps I (deferred d m)"
proof
  fix w assume w: "I w"
  have d: "keeps I (andthen d (\<lambda>_. ret a))" "keeps I (andthen d (\<lambda>_. go_panic))" for a by (intro hoare assms)+
  show "I (final_world (deferred d m w))"
    using keepsD [OF assms(1) w] keepsD [OF d(1)] keepsD [OF d(2)]
    by (cases "m w") (simp_all add: deferred_def)
qed

lemma deferred_RetE:
  assumes "deferred d m w = Ret a w'"
  obtains w1 b where "m w = Ret a w1" "d w1 = Ret b w'"
  using assms by (cases "m w") (auto simp: deferred_def elim!: andthen_RetE)

end
