(* ===== verification/Go_Strings.thy ===== *)
theory Go_Strings
  imports Moha_Prelude
begin

text \<open>
  What the agent uses of Go's \<open>strings\<close>, \<open>strconv\<close>, \<open>fmt\<close> and \<open>path\<close> packages, as
  executable functions on \<^typ>\<open>string\<close>: splitting and joining on a one-byte separator, the trim
  functions, decimal printing and parsing at 64 bits, and \<open>path.Join\<close> with \<open>path.Clean\<close>.
  The lemmas are the round trips and the injectivity facts the key layout in etcd rests on.
\<close>

section \<open>Package strings\<close>

fun split_go :: "char \<Rightarrow> string \<Rightarrow> string list" where
  "split_go c [] = [[]]"
| "split_go c (x # xs) =
     (if x = c then [] # split_go c xs
      else (x # hd (split_go c xs)) # tl (split_go c xs))"

fun join_go :: "char \<Rightarrow> string list \<Rightarrow> string" where
  "join_go c [] = []"
| "join_go c [x] = x"
| "join_go c (x # y # ys) = x @ c # join_go c (y # ys)"

definition has_suffix :: "string \<Rightarrow> string \<Rightarrow> bool" where
  "has_suffix s suf = suffix suf s"

definition trim_prefix :: "string \<Rightarrow> string \<Rightarrow> string" where
  "trim_prefix s p = (if prefix p s then drop (length p) s else s)"

text \<open>\<open>strings.TrimLeft\<close> takes a set of characters, not a prefix.\<close>

definition trim_left :: "string \<Rightarrow> string \<Rightarrow> string" where
  "trim_left s cutset = dropWhile (\<lambda>c. c \<in> set cutset) s"

text \<open>\<open>strings.TrimSpace\<close>, for text whose white space is ASCII.\<close>

definition is_space :: "char \<Rightarrow> bool" where
  "is_space c \<longleftrightarrow> c \<in> set [CHR '' '', CHR 0x09, CHR 0x0A, CHR 0x0B, CHR 0x0C, CHR 0x0D]"

definition trim_space :: "string \<Rightarrow> string" where
  "trim_space s = rev (dropWhile is_space (rev (dropWhile is_space s)))"

definition to_lower :: "string \<Rightarrow> string" where
  "to_lower s = map (\<lambda>c. if 65 \<le> (of_char c :: nat) \<and> (of_char c :: nat) \<le> 90 then char_of ((of_char c :: nat) + 32) else c) s"

lemma trim_space_ends: "s \<noteq> [] \<Longrightarrow> \<not> is_space (hd s) \<Longrightarrow> \<not> is_space (last s) \<Longrightarrow> trim_space s = s"
proof -
  have d: "dropWhile is_space t = t" if "t \<noteq> []" "\<not> is_space (hd t)" for t using that by (cases t) auto
  assume "s \<noteq> []" "\<not> is_space (hd s)" "\<not> is_space (last s)"
  then show ?thesis using d [of s] d [of "rev s"] by (simp add: trim_space_def hd_rev)
qed

definition contains_go :: "string \<Rightarrow> string \<Rightarrow> bool" where
  "contains_go s sub = sublist sub s"

section \<open>Packages strconv and fmt\<close>

definition digit_char :: "nat \<Rightarrow> char" where
  "digit_char d = char_of (48 + d)"

definition is_digit :: "char \<Rightarrow> bool" where
  "is_digit c \<longleftrightarrow> 48 \<le> (of_char c :: nat) \<and> (of_char c :: nat) \<le> 57"

definition digit_val :: "char \<Rightarrow> nat" where
  "digit_val c = of_char c - 48"

fun show_nat :: "nat \<Rightarrow> string" where
  "show_nat n = (if n < 10 then [digit_char n] else show_nat (n div 10) @ [digit_char (n mod 10)])"

declare show_nat.simps [simp del]

definition show_int :: "int \<Rightarrow> string" where
  "show_int i = (if i < 0 then CHR ''-'' # show_nat (nat (- i)) else show_nat (nat i))"

definition show_u64 :: "u64 \<Rightarrow> string" where
  "show_u64 w = show_nat (unat w)"

definition digits_val :: "string \<Rightarrow> nat" where
  "digits_val s = foldl (\<lambda>n c. 10 * n + digit_val c) 0 s"

definition all_digits :: "string \<Rightarrow> bool" where
  "all_digits s \<longleftrightarrow> s \<noteq> [] \<and> list_all is_digit s"

text \<open>\<open>strconv.ParseUint(s, 10, 64)\<close>: no sign, decimal digits only, at most \<open>2^64 - 1\<close>.\<close>

definition parse_uint64 :: "string \<Rightarrow> u64 option" where
  "parse_uint64 s =
     (if all_digits s \<and> digits_val s < 2 ^ 64 then Some (of_nat (digits_val s)) else None)"

text \<open>For evaluation the bounds are compared as integers, not as unary naturals.\<close>

lemma parse_uint64_code [code]:
  "parse_uint64 s = (if all_digits s \<and> int (digits_val s) < 2 ^ 64 then Some (of_nat (digits_val s)) else None)"
  by (simp add: parse_uint64_def)

text \<open>\<open>strconv.Atoi\<close> on a 64-bit platform: an optional sign, digits, the range of \<open>int64\<close>.\<close>

definition atoi :: "string \<Rightarrow> int option" where
  "atoi s =
     (case s of [] \<Rightarrow> None
      | c # cs \<Rightarrow>
        (let neg = (c = CHR ''-''); ds = (if c = CHR ''-'' \<or> c = CHR ''+'' then cs else s)
         in if \<not> all_digits ds then None
            else if neg then (if digits_val ds \<le> 2 ^ 63 then Some (- int (digits_val ds)) else None)
            else (if digits_val ds < 2 ^ 63 then Some (int (digits_val ds)) else None)))"

lemma atoi_code [code]:
  "atoi s =
     (case s of [] \<Rightarrow> None
      | c # cs \<Rightarrow>
        (let neg = (c = CHR ''-''); ds = (if c = CHR ''-'' \<or> c = CHR ''+'' then cs else s); n = int (digits_val ds)
         in if \<not> all_digits ds then None
            else if neg then (if n \<le> 2 ^ 63 then Some (- n) else None)
            else (if n < 2 ^ 63 then Some n else None)))"
  by (simp add: atoi_def Let_def split: list.split)

section \<open>Package path\<close>

text \<open>
  \<open>path.Clean\<close>: drop empty and dot elements, let a dot-dot element cancel the element before it,
  drop dot-dot at the root, keep leading dot-dot elements of a relative path.
\<close>

fun clean_step :: "bool \<Rightarrow> string list \<Rightarrow> string \<Rightarrow> string list" where
  "clean_step rooted st c =
     (if c = [] \<or> c = ''.'' then st
      else if c = ''..'' then
        (if st \<noteq> [] \<and> hd st \<noteq> ''..'' then tl st
         else if rooted then st else ''..'' # st)
      else c # st)"

definition path_clean :: "string \<Rightarrow> string" where
  "path_clean s =
     (if s = [] then ''.''
      else let rooted = (hd s = CHR ''/'');
               st = foldl (clean_step rooted) [] (split_go (CHR ''/'') s);
               body = join_go (CHR ''/'') (rev st)
           in if rooted then CHR ''/'' # body else if body = [] then ''.'' else body)"

fun path_join :: "string list \<Rightarrow> string" where
  "path_join [] = []"
| "path_join (e # es) = (if e = [] then path_join es else path_clean (join_go (CHR ''/'') (e # es)))"

text \<open>An ordinary path element, and a cleaned path made of ordinary elements only.\<close>

definition good_comp :: "string \<Rightarrow> bool" where
  "good_comp c \<longleftrightarrow> c \<noteq> [] \<and> c \<noteq> ''.'' \<and> c \<noteq> ''..'' \<and> CHR ''/'' \<notin> set c"

definition good_rel :: "string \<Rightarrow> bool" where
  "good_rel s \<longleftrightarrow> list_all good_comp (split_go (CHR ''/'') s)"

definition good_root :: "string \<Rightarrow> bool" where
  "good_root r \<longleftrightarrow> good_rel r \<or> (\<exists>s. r = CHR ''/'' # s \<and> good_rel s)"

section \<open>Splitting and joining\<close>

lemma split_go_neq_Nil [simp]: "split_go c s \<noteq> []"
  by (cases s) simp_all

lemma split_go_code [code]:
  "split_go c [] = [[]]"
  "split_go c (x # xs) =
     (case split_go c xs of [] \<Rightarrow> [] | h # t \<Rightarrow> if x = c then [] # h # t else (x # h) # t)"
  using split_go_neq_Nil [of c xs] by (auto split: list.split simp del: split_go_neq_Nil)

lemma join_go_Cons: "xs \<noteq> [] \<Longrightarrow> join_go c (x # xs) = x @ c # join_go c xs"
  by (cases xs) simp_all

lemma join_go_Cons_hd: "join_go c ((x # h) # t) = x # join_go c (h # t)"
  by (cases t) simp_all

text \<open>Joining what was split gives the string back.\<close>

lemma join_split: "join_go c (split_go c s) = s"
proof (induction s)
  case Nil
  then show ?case by simp
next
  case (Cons x xs)
  have "join_go c ((x # hd (split_go c xs)) # tl (split_go c xs)) = x # join_go c (split_go c xs)"
    by (simp only: join_go_Cons_hd) simp
  with Cons show ?case by (simp add: join_go_Cons)
qed

lemma split_append_sep: "c \<notin> set x \<Longrightarrow> split_go c (x @ c # s) = x # split_go c s"
  by (induction x) auto

lemma split_no_sep: "c \<notin> set x \<Longrightarrow> split_go c x = [x]"
  by (induction x) auto

text \<open>Splitting what was joined gives the elements back, provided none holds the separator.\<close>

lemma split_join:
  assumes "xs \<noteq> []" and "\<forall>x \<in> set xs. c \<notin> set x"
  shows "split_go c (join_go c xs) = xs"
  using assms by (induction c xs rule: join_go.induct) (auto simp: split_append_sep split_no_sep)

lemma split_go_append: "split_go c (a @ c # b) = split_go c a @ split_go c b"
  by (induction a) auto

lemma set_split_no_sep: "x \<in> set (split_go c s) \<Longrightarrow> c \<notin> set x"
proof (induction s arbitrary: x)
  case Nil
  then show ?case by simp
next
  case (Cons y ys)
  show ?case
  proof (cases "y = c")
    case True
    with Cons show ?thesis by auto
  next
    case False
    have "hd (split_go c ys) \<in> set (split_go c ys)" by simp
    moreover have "set (tl (split_go c ys)) \<subseteq> set (split_go c ys)"
      by (cases "split_go c ys") auto
    ultimately show ?thesis using False Cons by auto
  qed
qed

section \<open>Decimal printing and parsing\<close>

lemma digit_char_is_digit [simp]: "d < 10 \<Longrightarrow> is_digit (digit_char d)"
  by (simp add: is_digit_def digit_char_def)

lemma digit_val_char [simp]: "d < 10 \<Longrightarrow> digit_val (digit_char d) = d"
  by (simp add: digit_val_def digit_char_def)

lemma digits_val_snoc: "digits_val (s @ [c]) = 10 * digits_val s + digit_val c"
  by (simp add: digits_val_def)

lemma show_nat_digits: "all_digits (show_nat n) \<and> digits_val (show_nat n) = n"
proof (induction n rule: show_nat.induct)
  case (1 n)
  show ?case
  proof (cases "n < 10")
    case True
    then show ?thesis by (simp add: show_nat.simps [of n] all_digits_def digits_val_def)
  next
    case False
    with 1 show ?thesis
      by (simp add: show_nat.simps [of n] digits_val_snoc) (simp add: all_digits_def)
  qed
qed

lemma all_digits_show [simp]: "all_digits (show_nat n)"
  and digits_val_show [simp]: "digits_val (show_nat n) = n"
  using show_nat_digits by auto

lemma show_nat_neq_Nil [simp]: "show_nat n \<noteq> []"
  using all_digits_show [of n] by (auto simp: all_digits_def)

lemma show_nat_inject [simp]: "show_nat m = show_nat n \<longleftrightarrow> m = n"
  by (metis digits_val_show)

lemma is_digit_not_sign: "is_digit c \<Longrightarrow> c \<noteq> CHR ''-'' \<and> c \<noteq> CHR ''+'' \<and> c \<noteq> CHR ''/''"
  by (auto simp: is_digit_def)

lemma parse_show_u64 [simp]: "parse_uint64 (show_u64 w) = Some w"
proof -
  have "unat w < 2 ^ 64" using unsigned_less [of w, where ?'a = nat] by simp
  then show ?thesis by (simp add: parse_uint64_def show_u64_def)
qed

lemma show_u64_inject [simp]: "show_u64 v = show_u64 w \<longleftrightarrow> v = w"
  by (simp add: show_u64_def word_unat_eq_iff)

lemma show_nat_Cons: obtains c cs where "show_nat n = c # cs" and "is_digit c"
  using all_digits_show [of n] by (cases "show_nat n") (auto simp: all_digits_def)

lemma atoi_show_nat: "n < 2 ^ 63 \<Longrightarrow> atoi (show_nat n) = Some (int n)"
proof -
  assume n: "n < 2 ^ 63"
  obtain c cs where s: "show_nat n = c # cs" and c: "is_digit c" by (rule show_nat_Cons)
  from is_digit_not_sign [OF c] s have "atoi (show_nat n) =
      (if \<not> all_digits (show_nat n) then None
       else if digits_val (show_nat n) < 2 ^ 63 then Some (int (digits_val (show_nat n))) else None)"
    by (simp add: atoi_def Let_def)
  with n show ?thesis by simp
qed

lemma atoi_show_int: "- (2 ^ 63) \<le> i \<Longrightarrow> i < 2 ^ 63 \<Longrightarrow> atoi (show_int i) = Some i"
proof -
  assume i: "- (2 ^ 63) \<le> i" "i < 2 ^ 63"
  show ?thesis
  proof (cases "i < 0")
    case True
    with i show ?thesis by (simp add: show_int_def atoi_def Let_def)
  next
    case False
    then show ?thesis using i by (simp add: show_int_def atoi_show_nat)
  qed
qed

section \<open>Paths\<close>

lemma good_comp_no_slash: "good_comp c \<Longrightarrow> CHR ''/'' \<notin> set c"
  by (simp add: good_comp_def)

lemma foldl_clean_good: "list_all good_comp cs \<Longrightarrow> foldl (clean_step rooted) st cs = rev cs @ st"
  by (induction cs arbitrary: st) (auto simp: good_comp_def)

lemma good_rel_hd: "good_rel s \<Longrightarrow> s \<noteq> [] \<and> hd s \<noteq> CHR ''/''"
  by (cases s) (auto simp: good_rel_def good_comp_def split: if_splits)

lemma path_clean_rel: "good_rel s \<Longrightarrow> path_clean s = s"
  using good_rel_hd [of s]
  by (simp add: path_clean_def good_rel_def foldl_clean_good join_split Let_def)

lemma path_clean_rooted: "good_rel s \<Longrightarrow> path_clean (CHR ''/'' # s) = CHR ''/'' # s"
  by (simp add: path_clean_def good_rel_def foldl_clean_good join_split Let_def)

lemma good_rel_append: "good_rel a \<Longrightarrow> good_rel b \<Longrightarrow> good_rel (a @ CHR ''/'' # b)"
  by (simp add: good_rel_def split_go_append)

lemma good_rel_comp: "good_comp c \<Longrightarrow> good_rel c"
  by (simp add: good_rel_def split_no_sep good_comp_no_slash)

lemma good_root_neq_Nil: "good_root r \<Longrightarrow> r \<noteq> []"
  by (auto simp: good_root_def dest: good_rel_hd)

text \<open>Under a cleaned root, joining a cleaned relative key is plain concatenation.\<close>

lemma path_join_root:
  assumes "good_root r" and "good_rel k"
  shows "path_join [r, k] = r @ CHR ''/'' # k"
  using assms(1) unfolding good_root_def
proof (elim disjE exE conjE)
  assume "good_rel r"
  with assms(2) show ?thesis
    using good_rel_hd [of r] path_clean_rel [OF good_rel_append] by simp
next
  fix s assume r: "r = CHR ''/'' # s" and s: "good_rel s"
  then show ?thesis
    using path_clean_rooted [OF good_rel_append [OF s assms(2)]] by simp
qed

lemma path_join_rel:
  assumes "good_rel a" and "good_rel k"
  shows "path_join [a, k] = a @ CHR ''/'' # k"
  using path_join_root [OF _ assms(2)] assms(1) by (simp add: good_root_def)

lemma path_join_rel3:
  assumes "good_rel a" and "good_rel b" and "good_rel k"
  shows "path_join [a, b, k] = a @ CHR ''/'' # b @ CHR ''/'' # k"
  using good_rel_hd [OF assms(1)]
    path_clean_rel [OF good_rel_append [OF assms(1) good_rel_append [OF assms(2,3)]]] by simp

lemma path_join_root_inj:
  assumes "good_root r" and "good_rel k" and "good_rel k'"
  shows "path_join [r, k] = path_join [r, k'] \<longleftrightarrow> k = k'"
  by (simp add: path_join_root [OF assms(1,2)] path_join_root [OF assms(1,3)] del: path_join.simps)

end
