(* ===== verification/Gtid.thy ===== *)
theory Gtid
  imports Go_Strings "HOL-Library.AList" "HOL-Library.Product_Lexorder"
begin

text \<open>
  MySQL GTID sets as the vendored \<open>go-mysql\<close> library parses and prints them
  (\<open>src/vendor/github.com/siddontang/go-mysql/mysql/mysql_gtid.go\<close>, with the UUID codec of
  \<open>src/vendor/github.com/satori/go.uuid\<close>), and \<open>GetTxnIDFromGTIDStr\<close> of
  \<open>src/pkg/mysql/mysql.go\<close>, which elections and the joining check compare. The lemmas show that
  the transaction id it returns is one more than the largest transaction of the set, and that
  it survives printing and parsing the set again.
\<close>

section \<open>Numbers and intervals\<close>

text \<open>\<open>strconv.ParseInt(s, 10, 64)\<close> with the value it returns beside an error.\<close>

definition parseInt64 :: "string \<Rightarrow> int \<times> bool" where
  "parseInt64 s =
     (let neg = (s \<noteq> [] \<and> hd s = CHR ''-'');
          ds = (if s \<noteq> [] \<and> (hd s = CHR ''-'' \<or> hd s = CHR ''+'') then tl s else s)
      in if \<not> all_digits ds then (0, False)
         else if neg then (if digits_val ds \<le> 2 ^ 63 then (- int (digits_val ds), True) else (- (2 ^ 63), False))
         else if digits_val ds < 2 ^ 63 then (int (digits_val ds), True) else (2 ^ 63 - 1, False))"

text \<open>For evaluation the bounds are compared as integers, not as unary naturals.\<close>

lemma parseInt64_code [code]:
  "parseInt64 s =
     (let neg = (s \<noteq> [] \<and> hd s = CHR ''-'');
          ds = (if s \<noteq> [] \<and> (hd s = CHR ''-'' \<or> hd s = CHR ''+'') then tl s else s);
          n = int (digits_val ds)
      in if \<not> all_digits ds then (0, False)
         else if neg then (if n \<le> 2 ^ 63 then (- n, True) else (- (2 ^ 63), False))
         else if n < 2 ^ 63 then (n, True) else (2 ^ 63 - 1, False))"
  by (simp add: parseInt64_def Let_def)

type_synonym interval = "int \<times> int"

definition parseInterval :: "string \<Rightarrow> interval option" where
  "parseInterval str =
     (case split_go (CHR ''-'') str of
        [a] \<Rightarrow> (let (start, ok) = parseInt64 a; stop = wrap64 (start + 1)
                in if \<not> ok \<or> stop \<le> start then None else Some (start, stop))
      | [a, b] \<Rightarrow> (let (start, _) = parseInt64 a; (s, ok) = parseInt64 b; stop = wrap64 (s + 1)
                   in if \<not> ok \<or> stop \<le> start then None else Some (start, stop))
      | _ \<Rightarrow> None)"

fun merge_intervals :: "interval \<Rightarrow> interval list \<Rightarrow> interval list" where
  "merge_intervals lst [] = [lst]"
| "merge_intervals (a, b) ((c, d) # xs) =
     (if c > b then (a, b) # merge_intervals (c, d) xs
      else merge_intervals (a, if b > d then b else d) xs)"

definition Normalize :: "interval list \<Rightarrow> interval list" where
  "Normalize s = (case sort s of [] \<Rightarrow> [] | x # xs \<Rightarrow> merge_intervals x xs)"

section \<open>UUIDs\<close>

text \<open>A UUID is its 32 hexadecimal digits in lower case.\<close>

definition hex_lower :: "char \<Rightarrow> char option" where
  "hex_lower c =
     (let n = (of_char c :: nat) in
      if 48 \<le> n \<and> n \<le> 57 \<or> 97 \<le> n \<and> n \<le> 102 then Some c
      else if 65 \<le> n \<and> n \<le> 70 then Some (char_of (n + 32)) else None)"

fun hex_decode :: "string \<Rightarrow> string option" where
  "hex_decode [] = Some []"
| "hex_decode (c # cs) =
     (case hex_lower c of None \<Rightarrow> None | Some d \<Rightarrow> map_option ((#) d) (hex_decode cs))"

definition decodeCanonical :: "string \<Rightarrow> string option" where
  "decodeCanonical t =
     (if t ! 8 \<noteq> CHR ''-'' \<or> t ! 13 \<noteq> CHR ''-'' \<or> t ! 18 \<noteq> CHR ''-'' \<or> t ! 23 \<noteq> CHR ''-'' then None
      else hex_decode (take 8 t @ take 4 (drop 9 t) @ take 4 (drop 14 t) @ take 4 (drop 19 t) @ drop 24 t))"

definition decodePlain :: "string \<Rightarrow> string option" where
  "decodePlain t =
     (if length t = 32 then hex_decode t else if length t = 36 then decodeCanonical t else None)"

definition urn_prefix :: string where
  "urn_prefix = ''urn:uuid:''"

definition uuid_FromString :: "string \<Rightarrow> string option" where
  "uuid_FromString t =
     (if length t = 32 then hex_decode t
      else if length t = 36 then decodeCanonical t
      else if length t = 38 then
        (if hd t \<noteq> CHR ''{'' \<or> last t \<noteq> CHR ''}'' then None else decodePlain (butlast (tl t)))
      else if length t = 41 \<or> length t = 45 then
        (if take 9 t \<noteq> urn_prefix then None else decodePlain (drop 9 t))
      else None)"

definition uuid_String :: "string \<Rightarrow> string" where
  "uuid_String u = take 8 u @ ''-'' @ take 4 (drop 8 u) @ ''-'' @ take 4 (drop 12 u) @ ''-'' @
     take 4 (drop 16 u) @ ''-'' @ drop 20 u"

section \<open>Sets\<close>

fun parse_intervals :: "string list \<Rightarrow> interval list option" where
  "parse_intervals [] = Some []"
| "parse_intervals (x # xs) =
     (case parseInterval x of None \<Rightarrow> None | Some i \<Rightarrow> map_option ((#) i) (parse_intervals xs))"

definition ParseUUIDSet :: "string \<Rightarrow> (string \<times> interval list) option" where
  "ParseUUIDSet str =
     (let sep = split_go (CHR '':'') (trim_space str) in
      if length sep < 2 then None
      else case uuid_FromString (hd sep) of None \<Rightarrow> None
           | Some sid \<Rightarrow> (case parse_intervals (tl sep) of None \<Rightarrow> None
                           | Some ins \<Rightarrow> Some (sid, Normalize ins)))"

type_synonym gtid_sets = "(string \<times> interval list) list"

definition AddSet :: "gtid_sets \<Rightarrow> string \<times> interval list \<Rightarrow> gtid_sets" where
  "AddSet m st =
     (let sid = uuid_String (fst st) in
      case map_of m sid of
        Some o_ivs \<Rightarrow> AList.update sid (Normalize (o_ivs @ snd st)) m
      | None \<Rightarrow> AList.update sid (snd st) m)"

fun add_sets :: "gtid_sets \<Rightarrow> string list \<Rightarrow> gtid_sets option" where
  "add_sets m [] = Some m"
| "add_sets m (x # xs) =
     (case ParseUUIDSet x of None \<Rightarrow> None | Some st \<Rightarrow> add_sets (AddSet m st) xs)"

definition ParseMysqlGTIDSet :: "string \<Rightarrow> gtid_sets option" where
  "ParseMysqlGTIDSet str = (if str = [] then Some [] else add_sets [] (split_go (CHR '','') str))"

definition interval_String :: "interval \<Rightarrow> string" where
  "interval_String i =
     (if snd i = fst i + 1 then show_int (fst i) else show_int (fst i) @ ''-'' @ show_int (snd i - 1))"

definition uuidset_String :: "string \<times> interval list \<Rightarrow> string" where
  "uuidset_String p = fst p @ concat (map (\<lambda>i. CHR '':'' # interval_String i) (snd p))"

definition gtid_String :: "gtid_sets \<Rightarrow> string" where
  "gtid_String m = join_go (CHR '','') (map uuidset_String m)"

section \<open>The transaction id\<close>

definition parseGTIDSet :: "string \<Rightarrow> error + gtid_sets" where
  "parseGTIDSet s = (case ParseMysqlGTIDSet s of None \<Rightarrow> Inl (EMsg ''invalid GTID format'') | Some m \<Rightarrow> Inr m)"

definition GetTxnIDFromGTIDStr :: "string \<Rightarrow> string \<Rightarrow> error + int" where
  "GetTxnIDFromGTIDStr gtidStr serverUUID =
     (case parseGTIDSet gtidStr of
        Inl e \<Rightarrow> Inl e
      | Inr m \<Rightarrow>
        (case map_of m serverUUID of
           None \<Rightarrow> Inl (EMsg ''cannot find gtid from gtidSet'')
         | Some ivs \<Rightarrow>
             if ivs = [] then Inl (EMsg ''cannot find intervals with gtid from gtidSet'')
             else Inr (snd (last ivs))))"

section \<open>Normal form\<close>

text \<open>Proper intervals, ordered, with a gap between any two.\<close>

fun normal_intervals :: "interval list \<Rightarrow> bool" where
  "normal_intervals [] = True"
| "normal_intervals [(a, b)] = (a < b)"
| "normal_intervals ((a, b) # (c, d) # xs) = (a < b \<and> b < c \<and> normal_intervals ((c, d) # xs))"

text \<open>The transactions a list of intervals stands for.\<close>

definition txns :: "interval list \<Rightarrow> int set" where
  "txns ivs = (\<Union>(a, b) \<in> set ivs. {a..<b})"

lemma txns_simps [simp]: "txns [] = {}" "txns ((a, b) # xs) = {a..<b} \<union> txns xs"
  by (auto simp: txns_def)

lemma normal_tl: "normal_intervals (x # xs) \<Longrightarrow> normal_intervals xs"
  by (cases x; cases xs) auto

lemma merge_intervals_hd: "\<exists>b' ys. merge_intervals (a, b) xs = (a, b') # ys"
  by (induction "(a, b)" xs arbitrary: a b rule: merge_intervals.induct) (auto split: if_splits)

lemma merge_intervals_normal:
  assumes "a < b" and "\<forall>(c, d) \<in> set xs. c < d"
  shows "normal_intervals (merge_intervals (a, b) xs)"
  using assms
proof (induction xs arbitrary: a b)
  case Nil
  then show ?case by simp
next
  case (Cons x xs)
  obtain c d where x: "x = (c, d)" by (cases x)
  from Cons have IH: "\<And>a b. a < b \<Longrightarrow> normal_intervals (merge_intervals (a, b) xs)" by auto
  show ?case
  proof (cases "c > b")
    case True
    obtain d' ys where m: "merge_intervals (c, d) xs = (c, d') # ys"
      using merge_intervals_hd by blast
    from Cons.prems x have "c < d" by simp
    with IH m have "normal_intervals ((c, d') # ys)" by metis
    with True x m Cons.prems show ?thesis by simp
  next
    case False
    with x Cons.prems show ?thesis by (auto intro: IH)
  qed
qed

lemma merge_intervals_txns:
  assumes "a < b" and "\<forall>(c, d) \<in> set xs. c < d \<and> a \<le> c" and "sorted xs"
  shows "txns (merge_intervals (a, b) xs) = {a..<b} \<union> txns xs"
  using assms
proof (induction xs arbitrary: a b)
  case Nil
  then show ?case by simp
next
  case (Cons x xs)
  obtain c d where x: "x = (c, d)" by (cases x)
  have xs: "\<forall>(c', d') \<in> set xs. c' < d' \<and> a \<le> c'" "sorted xs" "c < d" "a \<le> c"
    using Cons.prems x by auto
  have le: "\<forall>(c', d') \<in> set xs. c' < d' \<and> c \<le> c'"
    using Cons.prems x by (force simp: less_eq_prod_def)
  show ?case
  proof (cases "c > b")
    case True
    with x Cons.IH [OF xs(3) le xs(2)] show ?thesis by auto
  next
    case False
    have "a < (if b > d then b else d)" using Cons.prems(1) by auto
    from Cons.IH [OF this xs(1,2)]
    have "txns (merge_intervals (a, b) (x # xs)) = {a..<(if b > d then b else d)} \<union> txns xs"
      using False x by simp
    also have "{a..<(if b > d then b else d)} = {a..<b} \<union> {c..<d}"
      using False xs(3,4) Cons.prems(1) by auto
    finally show ?thesis using x by auto
  qed
qed

lemma Normalize_normal:
  assumes "\<forall>(c, d) \<in> set ivs. c < d"
  shows "normal_intervals (Normalize ivs)"
proof (cases "sort ivs")
  case Nil
  then show ?thesis by (simp add: Normalize_def)
next
  case (Cons x xs)
  obtain a b where x: "x = (a, b)" by (cases x)
  have "set (x # xs) = set ivs" using Cons by (metis set_sort)
  with assms x have "a < b" "\<forall>(c, d) \<in> set xs. c < d" by auto
  with Cons x show ?thesis by (simp add: Normalize_def merge_intervals_normal)
qed

text \<open>Normalizing changes neither the transactions nor, of course, their maximum.\<close>

lemma Normalize_txns:
  assumes "\<forall>(c, d) \<in> set ivs. c < d"
  shows "txns (Normalize ivs) = txns ivs"
proof (cases "sort ivs")
  case Nil
  then have "ivs = []" by (metis length_0_conv length_sort)
  then show ?thesis by (simp add: Normalize_def)
next
  case (Cons x xs)
  obtain a b where x: "x = (a, b)" by (cases x)
  have st: "set (x # xs) = set ivs" using Cons by (metis set_sort)
  have "sorted (x # xs)" using Cons by (metis sorted_sort)
  then have "\<forall>(c, d) \<in> set xs. a \<le> c" "sorted xs"
    using x by (auto simp: less_eq_prod_def)
  moreover have "a < b" "\<forall>(c, d) \<in> set xs. c < d" using assms st x by auto
  ultimately have "txns (merge_intervals (a, b) xs) = {a..<b} \<union> txns xs"
    by (intro merge_intervals_txns) auto
  also have "\<dots> = txns (x # xs)" using x by simp
  also have "\<dots> = txns ivs" by (simp only: txns_def st)
  finally show ?thesis using Cons x by (simp add: Normalize_def)
qed

lemma normal_last_max:
  assumes "normal_intervals ivs" and "ivs \<noteq> []"
  shows "snd (last ivs) - 1 \<in> txns ivs \<and> (\<forall>t \<in> txns ivs. t < snd (last ivs))"
  using assms
proof (induction ivs rule: normal_intervals.induct)
  case (3 a b c d xs)
  then have IH: "snd (last ((c, d) # xs)) - 1 \<in> txns ((c, d) # xs)"
    "\<forall>t \<in> txns ((c, d) # xs). t < snd (last ((c, d) # xs))" and ab: "a < b" "b < c" by auto
  have "c \<in> txns ((c, d) # xs)" using 3 by (cases xs) auto
  with IH have "c < snd (last ((c, d) # xs))" by blast
  with IH ab show ?case by auto
qed auto

lemma parseInterval_proper: "parseInterval s = Some (a, b) \<Longrightarrow> a < b"
  by (auto simp: parseInterval_def Let_def case_prod_beta split: list.splits if_splits)

lemma parse_intervals_proper: "parse_intervals xs = Some ivs \<Longrightarrow> \<forall>(a, b) \<in> set ivs. a < b"
  by (induction xs arbitrary: ivs) (auto split: option.splits dest: parseInterval_proper)

definition normal_sets :: "gtid_sets \<Rightarrow> bool" where
  "normal_sets m \<longleftrightarrow> (\<forall>(k, ivs) \<in> set m. normal_intervals ivs)"

lemma normal_proper: "normal_intervals ivs \<Longrightarrow> \<forall>(a, b) \<in> set ivs. a < b"
  by (induction ivs rule: normal_intervals.induct) auto

lemma set_AList_update: "set (AList.update k v m) \<subseteq> insert (k, v) (set m)"
  by (induction m) auto

lemma ParseUUIDSet_normal: "ParseUUIDSet s = Some (sid, ivs) \<Longrightarrow> normal_intervals ivs"
  by (auto simp: ParseUUIDSet_def Let_def split: if_splits option.splits
      intro!: Normalize_normal dest: parse_intervals_proper)

lemma AddSet_normal: "normal_sets m \<Longrightarrow> normal_intervals (snd st) \<Longrightarrow> normal_sets (AddSet m st)"
proof -
  assume m: "normal_sets m" and st: "normal_intervals (snd st)"
  show ?thesis
  proof (cases "map_of m (uuid_String (fst st))")
    case None
    with m st set_AList_update [of "uuid_String (fst st)" "snd st" m] show ?thesis
      by (auto simp: AddSet_def Let_def normal_sets_def)
  next
    case (Some ivs)
    then have "normal_intervals ivs" using m by (auto simp: normal_sets_def dest: map_of_SomeD)
    with st have "\<forall>(a, b) \<in> set (ivs @ snd st). a < b"
      using normal_proper by fastforce
    then have "normal_intervals (Normalize (ivs @ snd st))" by (rule Normalize_normal)
    with Some m set_AList_update [of "uuid_String (fst st)" "Normalize (ivs @ snd st)" m] show ?thesis
      by (auto simp: AddSet_def Let_def normal_sets_def)
  qed
qed

lemma add_sets_normal: "add_sets m xs = Some m' \<Longrightarrow> normal_sets m \<Longrightarrow> normal_sets m'"
proof (induction xs arbitrary: m)
  case Nil
  then show ?case by simp
next
  case (Cons x xs)
  then obtain sid ivs where "ParseUUIDSet x = Some (sid, ivs)" "add_sets (AddSet m (sid, ivs)) xs = Some m'"
    by (auto split: option.splits)
  with Cons show ?case by (metis AddSet_normal ParseUUIDSet_normal snd_conv)
qed

lemma ParseMysqlGTIDSet_normal: "ParseMysqlGTIDSet s = Some m \<Longrightarrow> normal_sets m"
  by (auto simp: ParseMysqlGTIDSet_def normal_sets_def split: if_splits
      dest: add_sets_normal [unfolded normal_sets_def])

text \<open>
  C23: the transaction id that \<open>GetTxnIDFromGTIDStr\<close> returns is one more than the largest
  transaction that the parsed set holds for the server, however the intervals were written.
\<close>

theorem txn_id_is_max:
  assumes "parseGTIDSet s = Inr m" and "map_of m u = Some ivs" and "GetTxnIDFromGTIDStr s u = Inr n"
  shows "n - 1 \<in> txns ivs \<and> (\<forall>t \<in> txns ivs. t < n)"
proof -
  from assms have n: "n = snd (last ivs)" and ne: "ivs \<noteq> []"
    by (auto simp: GetTxnIDFromGTIDStr_def split: if_splits)
  from assms(1) have "normal_sets m"
    by (auto simp: parseGTIDSet_def split: option.splits intro: ParseMysqlGTIDSet_normal)
  with assms(2) have "normal_intervals ivs" by (auto simp: normal_sets_def dest: map_of_SomeD)
  with ne n show ?thesis using normal_last_max by blast
qed

theorem txn_id_is_max_witness:
  "GetTxnIDFromGTIDStr ''85ab69d1-b21f-11e6-9c5e-64006a8978d2:40-46:1-39'' ''85ab69d1-b21f-11e6-9c5e-64006a8978d2'' = Inr 47 \<and>
   46 \<in> txns [(1, 47)]"
proof -
  let ?s = "''85ab69d1-b21f-11e6-9c5e-64006a8978d2:40-46:1-39''"
  let ?u = "''85ab69d1-b21f-11e6-9c5e-64006a8978d2''"
  have p: "parseGTIDSet ?s = Inr [(?u, [(1, 47)])]" by code_simp
  then have "GetTxnIDFromGTIDStr ?s ?u = Inr 47" by (simp add: GetTxnIDFromGTIDStr_def)
  with txn_id_is_max [OF p _ this, of "[(1, 47)]"] show ?thesis by simp
qed

section \<open>Printing and parsing again\<close>

definition hex_digit :: "char \<Rightarrow> bool" where
  "hex_digit c \<longleftrightarrow> hex_lower c = Some c"

definition valid_uuid :: "string \<Rightarrow> bool" where
  "valid_uuid u \<longleftrightarrow> length u = 32 \<and> list_all hex_digit u"

definition in_range :: "interval list \<Rightarrow> bool" where
  "in_range ivs \<longleftrightarrow> (\<forall>(a, b) \<in> set ivs. 0 \<le> a \<and> b < 2 ^ 63)"

definition printable_set :: "string \<times> interval list \<Rightarrow> bool" where
  "printable_set p \<longleftrightarrow> (\<exists>u. valid_uuid u \<and> fst p = uuid_String u) \<and> snd p \<noteq> [] \<and>
     normal_intervals (snd p) \<and> in_range (snd p)"

definition printable :: "gtid_sets \<Rightarrow> bool" where
  "printable m \<longleftrightarrow> distinct (map fst m) \<and> list_all printable_set m"

lemma hex_lower_idem: "hex_lower c = Some d \<Longrightarrow> hex_digit d"
  by (auto simp: hex_digit_def hex_lower_def Let_def split: if_splits)

lemma hex_decode_valid: "list_all hex_digit u \<Longrightarrow> hex_decode u = Some u"
  by (induction u) (auto simp: hex_digit_def)

lemma hex_decode_result: "hex_decode s = Some u \<Longrightarrow> length u = length s \<and> list_all hex_digit u"
  by (induction s arbitrary: u) (auto split: option.splits intro: hex_lower_idem)

lemma decodeCanonical_valid: "decodeCanonical t = Some u \<Longrightarrow> length t = 36 \<Longrightarrow> valid_uuid u"
  by (auto simp: decodeCanonical_def valid_uuid_def dest: hex_decode_result split: if_splits)

lemma decodePlain_valid: "decodePlain t = Some u \<Longrightarrow> valid_uuid u"
  by (auto simp: decodePlain_def valid_uuid_def dest: hex_decode_result decodeCanonical_valid [unfolded valid_uuid_def]
      split: if_splits)

lemma uuid_FromString_valid: "uuid_FromString t = Some u \<Longrightarrow> valid_uuid u"
  by (auto simp: uuid_FromString_def valid_uuid_def split: if_splits
      dest: hex_decode_result decodeCanonical_valid [unfolded valid_uuid_def] decodePlain_valid [unfolded valid_uuid_def])

lemma uuid_parts:
  assumes "valid_uuid u"
  obtains a b c d e where "u = a @ b @ c @ d @ e" "length a = 8" "length b = 4" "length c = 4"
    "length d = 4" "length e = 12"
proof -
  have len: "length u = 32" using assms by (simp add: valid_uuid_def)
  let ?x = "drop 8 u"
  let ?y = "drop 4 ?x"
  let ?z = "drop 4 ?y"
  have "u = take 8 u @ take 4 ?x @ take 4 ?y @ take 4 ?z @ drop 4 ?z"
    by (simp only: append_take_drop_id)
  with len show thesis by (intro that [of "take 8 u" "take 4 ?x" "take 4 ?y" "take 4 ?z" "drop 4 ?z"]) simp_all
qed

lemma uuid_String_parts:
  assumes "length a = 8" "length b = 4" "length c = 4" "length d = 4"
  shows "uuid_String (a @ b @ c @ d @ e) = a @ ''-'' @ b @ ''-'' @ c @ ''-'' @ d @ ''-'' @ e"
  using assms by (simp add: uuid_String_def)

lemma uuid_roundtrip: "valid_uuid u \<Longrightarrow> uuid_FromString (uuid_String u) = Some u"
proof -
  assume v: "valid_uuid u"
  then obtain a b c d e where u: "u = a @ b @ c @ d @ e"
    and len: "length a = 8" "length b = 4" "length c = 4" "length d = 4" "length e = 12"
    by (rule uuid_parts)
  have "decodeCanonical (a @ ''-'' @ b @ ''-'' @ c @ ''-'' @ d @ ''-'' @ e) = hex_decode (a @ b @ c @ d @ e)"
    using len by (simp add: decodeCanonical_def nth_append)
  with v u len show ?thesis
    by (simp add: uuid_String_parts uuid_FromString_def hex_decode_valid valid_uuid_def)
qed

lemma uuid_String_inj: "valid_uuid u \<Longrightarrow> valid_uuid v \<Longrightarrow> uuid_String u = uuid_String v \<Longrightarrow> u = v"
  by (metis option.inject uuid_roundtrip)

lemma show_int_digits: "0 \<le> n \<Longrightarrow> all_digits (show_int n)"
  by (simp add: show_int_def)

lemma all_digits_chars: "all_digits s \<Longrightarrow> c \<in> set s \<Longrightarrow> is_digit c"
  by (auto simp: all_digits_def list_all_iff)

lemma not_digits [simp]: "\<not> is_digit (CHR ''-'')" "\<not> is_digit (CHR ''+'')" "\<not> is_digit (CHR '':'')" "\<not> is_digit (CHR '','')"
  by (simp_all add: is_digit_def)

lemma show_int_no_dash: "0 \<le> n \<Longrightarrow> CHR ''-'' \<notin> set (show_int n)"
  using all_digits_chars [OF show_int_digits] by fastforce

lemma parseInt64_show: "0 \<le> n \<Longrightarrow> n < 2 ^ 63 \<Longrightarrow> parseInt64 (show_int n) = (n, True)"
proof -
  assume n: "0 \<le> n" "n < 2 ^ 63"
  then have s: "show_int n = show_nat (nat n)" by (simp add: show_int_def)
  obtain c cs where c: "show_nat (nat n) = c # cs" "is_digit c" by (rule show_nat_Cons)
  then have "c \<noteq> CHR ''-''" "c \<noteq> CHR ''+''" by auto
  moreover have "all_digits (c # cs)" "digits_val (c # cs) = nat n" using c by (metis all_digits_show digits_val_show)+
  ultimately show ?thesis using n by (simp add: s c(1) parseInt64_def Let_def nat_less_iff)
qed

lemma interval_roundtrip:
  assumes "0 \<le> a" "a < b" "b < 2 ^ 63"
  shows "parseInterval (interval_String (a, b)) = Some (a, b)"
proof (cases "b = a + 1")
  case True
  with assms show ?thesis
    by (simp add: interval_String_def parseInterval_def split_no_sep show_int_no_dash parseInt64_show wrap64_id)
next
  case False
  with assms show ?thesis
    by (simp add: interval_String_def parseInterval_def split_append_sep split_no_sep show_int_no_dash
        parseInt64_show wrap64_id)
qed

lemma parse_intervals_print:
  "in_range ivs \<Longrightarrow> \<forall>(a, b) \<in> set ivs. a < b \<Longrightarrow> parse_intervals (map interval_String ivs) = Some ivs"
  by (induction ivs) (auto simp: in_range_def interval_roundtrip)

lemma parseInt64_nonneg: "CHR ''-'' \<notin> set s \<Longrightarrow> 0 \<le> fst (parseInt64 s)"
  by (cases s) (auto simp: parseInt64_def Let_def)

lemma parseInterval_range: "parseInterval s = Some (a, b) \<Longrightarrow> 0 \<le> a \<and> b < 2 ^ 63"
proof -
  assume *: "parseInterval s = Some (a, b)"
  have nn: "\<And>x. x \<in> set (split_go (CHR ''-'') s) \<Longrightarrow> 0 \<le> fst (parseInt64 x)"
    by (blast intro: parseInt64_nonneg dest: set_split_no_sep)
  show ?thesis
  proof (cases "\<exists>x. split_go (CHR ''-'') s = [x]")
    case True
    then obtain x where x: "split_go (CHR ''-'') s = [x]" by blast
    with * have "a = fst (parseInt64 x)" "b = wrap64 (a + 1)"
      by (auto simp: parseInterval_def Let_def case_prod_beta split: if_splits)
    with nn x show ?thesis by (simp add: wrap64_less [simplified])
  next
    case False
    with * obtain x y where x: "split_go (CHR ''-'') s = [x, y]"
      by (auto simp: parseInterval_def split: list.splits)
    with * have "a = fst (parseInt64 x)" "b = wrap64 (fst (parseInt64 y) + 1)"
      by (auto simp: parseInterval_def Let_def case_prod_beta split: if_splits)
    with nn x show ?thesis by (simp add: wrap64_less [simplified])
  qed
qed

lemma parse_intervals_range: "parse_intervals xs = Some ivs \<Longrightarrow> in_range ivs"
proof (induction xs arbitrary: ivs)
  case (Cons x xs)
  then obtain a b js where "parseInterval x = Some (a, b)" "parse_intervals xs = Some js" "ivs = (a, b) # js"
    by (auto split: option.splits)
  with Cons.IH parseInterval_range [of x a b] show ?case by (auto simp: in_range_def)
qed (simp add: in_range_def)

lemma merge_intervals_range: "in_range ((a, b) # xs) \<Longrightarrow> in_range (merge_intervals (a, b) xs)"
  by (induction "(a, b)" xs arbitrary: a b rule: merge_intervals.induct) (auto simp: in_range_def)

lemma Normalize_range: "in_range ivs \<Longrightarrow> in_range (Normalize ivs)"
proof (cases "sort ivs")
  case (Cons x xs)
  assume r: "in_range ivs"
  have "set (x # xs) = set ivs" using Cons by (metis set_sort)
  with r have "in_range (x # xs)" unfolding in_range_def by metis
  with Cons show ?thesis by (cases x) (simp add: Normalize_def merge_intervals_range)
qed (simp add: Normalize_def in_range_def)

lemma Normalize_neq_Nil: "ivs \<noteq> [] \<Longrightarrow> Normalize ivs \<noteq> []"
proof -
  assume "ivs \<noteq> []"
  then obtain a b xs where "sort ivs = (a, b) # xs" by (metis length_0_conv length_sort neq_Nil_conv surj_pair)
  then show ?thesis using merge_intervals_hd [of a b xs] by (auto simp: Normalize_def)
qed

text \<open>A normal list is its own normal form.\<close>

lemma merge_normal: "normal_intervals ((a, b) # xs) \<Longrightarrow> merge_intervals (a, b) xs = (a, b) # xs"
  by (induction xs arbitrary: a b) auto

lemma normal_lower: "normal_intervals ((a, b) # xs) \<Longrightarrow> \<forall>(c, d) \<in> set xs. a < c"
proof (induction xs arbitrary: a b)
  case (Cons x xs)
  obtain c d where x: "x = (c, d)" by (cases x)
  with Cons.prems have "a < c" "normal_intervals ((c, d) # xs)" by auto
  with Cons.IH [of c d] x show ?case by fastforce
qed simp

lemma normal_sorted: "normal_intervals xs \<Longrightarrow> sorted xs"
proof (induction xs)
  case (Cons x xs)
  obtain a b where x: "x = (a, b)" by (cases x)
  from Cons have "sorted xs" by (blast dest: normal_tl)
  moreover have "\<forall>y \<in> set xs. x \<le> y"
    using normal_lower [of a b xs] Cons.prems x by (auto simp: less_eq_prod_def)
  ultimately show ?case by simp
qed simp

lemma Normalize_id: "normal_intervals xs \<Longrightarrow> Normalize xs = xs"
proof -
  assume n: "normal_intervals xs"
  then have "sort xs = xs" by (simp add: normal_sorted sort_key_id_if_sorted)
  with n show ?thesis by (cases xs) (auto simp: Normalize_def merge_normal simp del: sort_key_simps)
qed

lemma hex_digit_chars: "hex_digit c \<Longrightarrow>
    c \<notin> set [CHR '' '', CHR 0x09, CHR 0x0A, CHR 0x0B, CHR 0x0C, CHR 0x0D, CHR '':'', CHR '','', CHR ''-'']"
  by (auto simp: hex_digit_def hex_lower_def)

lemma is_digit_chars: "is_digit c \<Longrightarrow>
    c \<notin> set [CHR '' '', CHR 0x09, CHR 0x0A, CHR 0x0B, CHR 0x0C, CHR 0x0D, CHR '':'', CHR '','', CHR ''-'']"
  by (auto simp: is_digit_def)

lemma interval_String_chars:
  assumes "0 \<le> a" "a < b"
  shows "interval_String (a, b) \<noteq> []" "is_digit (last (interval_String (a, b)))"
    "c \<in> set (interval_String (a, b)) \<Longrightarrow> is_digit c \<or> c = CHR ''-''"
proof -
  have ne: "show_int a \<noteq> []" "show_int (b - 1) \<noteq> []"
    and dg: "all_digits (show_int a)" "all_digits (show_int (b - 1))"
    using assms by (simp_all add: show_int_def)
  then show "interval_String (a, b) \<noteq> []" "is_digit (last (interval_String (a, b)))"
    by (auto simp: interval_String_def intro: all_digits_chars)
  show "c \<in> set (interval_String (a, b)) \<Longrightarrow> is_digit c \<or> c = CHR ''-''"
    using dg by (auto simp: interval_String_def intro: all_digits_chars split: if_splits)
qed

lemma uuid_String_chars:
  assumes "valid_uuid u"
  shows "uuid_String u \<noteq> []" "hex_digit (hd (uuid_String u))"
    "c \<in> set (uuid_String u) \<Longrightarrow> hex_digit c \<or> c = CHR ''-''"
proof -
  obtain a b c' d e where u: "u = a @ b @ c' @ d @ e"
    and len: "length a = 8" "length b = 4" "length c' = 4" "length d = 4" "length e = 12"
    using assms by (rule uuid_parts)
  have h: "\<forall>x \<in> set u. hex_digit x" using assms by (simp add: valid_uuid_def list_all_iff)
  have ne: "a \<noteq> []" using len by auto
  show "uuid_String u \<noteq> []" "hex_digit (hd (uuid_String u))"
    using h ne len by (simp_all add: u uuid_String_parts)
  show "c \<in> set (uuid_String u) \<Longrightarrow> hex_digit c \<or> c = CHR ''-''"
    using h len by (auto simp: u uuid_String_parts)
qed

lemma uuidset_String_join:
  "uuidset_String p = join_go (CHR '':'') (fst p # map interval_String (snd p))"
proof -
  have "x @ concat (map (\<lambda>i. CHR '':'' # interval_String i) ivs) =
      join_go (CHR '':'') (x # map interval_String ivs)" for x ivs
    by (induction ivs arbitrary: x) (auto simp: join_go_Cons join_go_Cons_hd)
  then show ?thesis by (simp add: uuidset_String_def)
qed

lemma uuidset_String_chars:
  assumes "printable_set p"
  shows "c \<in> set (uuidset_String p) \<Longrightarrow> hex_digit c \<or> is_digit c \<or> c = CHR ''-'' \<or> c = CHR '':''"
    and "hex_digit (hd (uuidset_String p))" and "is_digit (last (uuidset_String p))"
proof -
  obtain u where u: "valid_uuid u" "fst p = uuid_String u" using assms by (auto simp: printable_set_def)
  have iv: "\<forall>(a, b) \<in> set (snd p). 0 \<le> a \<and> a < b" and ne: "snd p \<noteq> []"
    using assms normal_proper [of "snd p"] by (auto simp: printable_set_def in_range_def)
  have ch: "\<And>c i. i \<in> set (snd p) \<Longrightarrow> c \<in> set (interval_String i) \<Longrightarrow> is_digit c \<or> c = CHR ''-''"
    using iv interval_String_chars(3) by fastforce
  show "c \<in> set (uuidset_String p) \<Longrightarrow> hex_digit c \<or> is_digit c \<or> c = CHR ''-'' \<or> c = CHR '':''"
    using ch uuid_String_chars(3) [OF u(1)] u(2) by (auto simp: uuidset_String_def split: if_splits)
  show "hex_digit (hd (uuidset_String p))"
    using uuid_String_chars(1,2) [OF u(1)] u(2) by (simp add: uuidset_String_def)
  obtain ivs a b where p: "snd p = ivs @ [(a, b)]" using ne by (metis rev_exhaust surj_pair)
  with iv have "0 \<le> a" "a < b" by auto
  from interval_String_chars(1,2) [OF this] p show "is_digit (last (uuidset_String p))"
    by (simp add: uuidset_String_def)
qed

lemma uuidset_roundtrip:
  assumes "printable_set p"
  obtains u where "valid_uuid u" "fst p = uuid_String u" "ParseUUIDSet (uuidset_String p) = Some (u, snd p)"
proof -
  obtain u where u: "valid_uuid u" "fst p = uuid_String u" using assms by (auto simp: printable_set_def)
  have p: "snd p \<noteq> []" "normal_intervals (snd p)" "in_range (snd p)" using assms by (auto simp: printable_set_def)
  have "uuidset_String p \<noteq> []" using u uuid_String_chars(1) by (simp add: uuidset_String_def)
  then have tr: "trim_space (uuidset_String p) = uuidset_String p"
    using hex_digit_chars [OF uuidset_String_chars(2) [OF assms]] is_digit_chars [OF uuidset_String_chars(3) [OF assms]]
    by (intro trim_space_ends) (auto simp: is_space_def)
  have "CHR '':'' \<notin> set (fst p)" using u uuid_String_chars(3) hex_digit_chars by fastforce
  moreover have "\<forall>i \<in> set (snd p). CHR '':'' \<notin> set (interval_String i)"
    using p interval_String_chars(3) normal_proper is_digit_chars by (fastforce simp: in_range_def)
  ultimately have "split_go (CHR '':'') (uuidset_String p) = fst p # map interval_String (snd p)"
    unfolding uuidset_String_join by (intro split_join) auto
  with tr p u have "ParseUUIDSet (uuidset_String p) = Some (u, snd p)"
    by (simp add: ParseUUIDSet_def Let_def uuid_roundtrip parse_intervals_print normal_proper Normalize_id Suc_le_eq)
  with u that show thesis by blast
qed

lemma uuidset_String_neq_Nil: "printable_set p \<Longrightarrow> uuidset_String p \<noteq> []"
  using uuid_String_chars(1) by (metis append_is_Nil_conv printable_set_def uuidset_String_def)

lemma update_new: "k \<notin> fst ` set m \<Longrightarrow> AList.update k v m = m @ [(k, v)]"
  by (induction m) auto

lemma add_sets_print:
  assumes "list_all printable_set ps" and "distinct (map fst (m @ ps))"
  shows "add_sets m (map uuidset_String ps) = Some (m @ ps)"
  using assms
proof (induction ps arbitrary: m)
  case Nil
  then show ?case by simp
next
  case (Cons p ps)
  then have "printable_set p" by simp
  then obtain u where u: "fst p = uuid_String u" "ParseUUIDSet (uuidset_String p) = Some (u, snd p)"
    by (rule uuidset_roundtrip)
  have "fst p \<notin> fst ` set m" using Cons.prems(2) by auto
  then have "AddSet m (u, snd p) = m @ [p]"
    using u(1) by (cases p) (simp add: AddSet_def map_of_eq_None_iff [THEN iffD2] update_new)
  with Cons u show ?case by simp
qed

lemma gtid_print_parse:
  assumes "printable m"
  shows "ParseMysqlGTIDSet (gtid_String m) = Some m"
proof (cases "m = []")
  case True
  then show ?thesis by (simp add: gtid_String_def ParseMysqlGTIDSet_def)
next
  case False
  have ps: "list_all printable_set m" using assms by (simp add: printable_def)
  have "\<forall>x \<in> set (map uuidset_String m). CHR '','' \<notin> set x"
    using ps uuidset_String_chars(1) hex_digit_chars is_digit_chars by (fastforce simp: list_all_iff)
  with False have "split_go (CHR '','') (gtid_String m) = map uuidset_String m"
    unfolding gtid_String_def by (intro split_join) auto
  moreover have "map uuidset_String m \<noteq> [[]]"
    using ps uuidset_String_neq_Nil by (cases m) auto
  then have "gtid_String m \<noteq> []" using calculation by auto
  ultimately show ?thesis using assms add_sets_print [of m "[]"] ps by (simp add: ParseMysqlGTIDSet_def printable_def)
qed

text \<open>Whatever the library parses can be printed, in any order of its map.\<close>

lemma ParseUUIDSet_printable:
  "ParseUUIDSet s = Some (u, ivs) \<Longrightarrow> valid_uuid u \<and> ivs \<noteq> [] \<and> normal_intervals ivs \<and> in_range ivs"
proof -
  assume p: "ParseUUIDSet s = Some (u, ivs)"
  define sep where "sep = split_go (CHR '':'') (trim_space s)"
  from p obtain js where sep: "length sep \<ge> 2" "uuid_FromString (hd sep) = Some u"
    "parse_intervals (tl sep) = Some js" "ivs = Normalize js"
    by (auto simp: ParseUUIDSet_def Let_def sep_def [symmetric] split: if_splits option.splits)
  then have "tl sep \<noteq> []" by (cases sep; cases "tl sep") auto
  with sep(3) have "js \<noteq> []" by (cases "tl sep") (auto split: option.splits)
  with sep p show ?thesis
    by (simp add: uuid_FromString_valid Normalize_neq_Nil Normalize_range parse_intervals_range ParseUUIDSet_normal)
qed

lemma AddSet_printable:
  assumes "printable m" and "valid_uuid u \<and> ivs \<noteq> [] \<and> normal_intervals ivs \<and> in_range ivs"
  shows "printable (AddSet m (u, ivs))"
proof -
  have upd: "printable (AList.update (uuid_String u) js m)"
    if "js \<noteq> []" "normal_intervals js" "in_range js" for js
  proof -
    have "printable_set (uuid_String u, js)" using assms(2) that by (auto simp: printable_set_def)
    with assms(1) set_AList_update [of "uuid_String u" js m] show ?thesis
      by (auto simp: printable_def list_all_iff distinct_update)
  qed
  show ?thesis
  proof (cases "map_of m (uuid_String u)")
    case None
    with upd assms(2) show ?thesis by (simp add: AddSet_def)
  next
    case (Some js)
    then have js: "normal_intervals js" "in_range js" "js \<noteq> []"
      using assms(1) by (auto simp: printable_def list_all_iff printable_set_def dest!: map_of_SomeD)
    have "\<forall>(a, b) \<in> set (js @ ivs). a < b" using normal_proper js assms(2) by fastforce
    moreover have "in_range (js @ ivs)" using js assms(2) by (auto simp: in_range_def)
    ultimately have "printable (AList.update (uuid_String u) (Normalize (js @ ivs)) m)"
      using js by (intro upd) (simp_all add: Normalize_neq_Nil Normalize_normal Normalize_range)
    with Some show ?thesis by (simp add: AddSet_def)
  qed
qed

lemma add_sets_printable: "add_sets m xs = Some m' \<Longrightarrow> printable m \<Longrightarrow> printable m'"
proof (induction xs arbitrary: m)
  case (Cons x xs)
  then obtain u ivs where "ParseUUIDSet x = Some (u, ivs)" "add_sets (AddSet m (u, ivs)) xs = Some m'"
    by (auto split: option.splits)
  with Cons show ?case using AddSet_printable ParseUUIDSet_printable by blast
qed simp

lemma ParseMysqlGTIDSet_printable: "ParseMysqlGTIDSet s = Some m \<Longrightarrow> printable m"
  using add_sets_printable [of "[]" _ m]
  by (auto simp: ParseMysqlGTIDSet_def printable_def split: if_splits)

lemma printable_perm: "printable m \<Longrightarrow> set m' = set m \<Longrightarrow> distinct (map fst m') \<Longrightarrow> printable m'"
  by (simp add: printable_def list_all_iff)

text \<open>
  C24: printing a parsed set, in whatever order its map is iterated, and parsing the text again gives
  the same set, so the id read from the text equals the one of the set.
\<close>

theorem gtid_roundtrip:
  assumes "ParseMysqlGTIDSet s = Some m" and "set m' = set m" and "distinct (map fst m')"
  shows "ParseMysqlGTIDSet (gtid_String m') = Some m' \<and>
    GetTxnIDFromGTIDStr (gtid_String m') u = GetTxnIDFromGTIDStr s u"
proof -
  have pr: "printable m" using assms(1) by (rule ParseMysqlGTIDSet_printable)
  then have "printable m'" using assms(2,3) by (rule printable_perm)
  then have p: "ParseMysqlGTIDSet (gtid_String m') = Some m'" by (rule gtid_print_parse)
  have "map_of m' = map_of m" using pr assms(2,3) by (simp add: printable_def map_of_inject_set)
  with p assms(1) show ?thesis by (simp add: GetTxnIDFromGTIDStr_def parseGTIDSet_def)
qed

theorem gtid_roundtrip_witness:
  "GetTxnIDFromGTIDStr (gtid_String [(''53ea0ed1-9bf8-11e6-8bea-64006a897c73'', [(1, 5)]), (''85ab69d1-b21f-11e6-9c5e-64006a8978d2'', [(1, 47)])])
     ''85ab69d1-b21f-11e6-9c5e-64006a8978d2'' =
   GetTxnIDFromGTIDStr ''85ab69d1-b21f-11e6-9c5e-64006a8978d2:1-46, 53EA0ED1-9BF8-11E6-8BEA-64006A897C73:1-4'' ''85ab69d1-b21f-11e6-9c5e-64006a8978d2''"
proof -
  have p: "ParseMysqlGTIDSet ''85ab69d1-b21f-11e6-9c5e-64006a8978d2:1-46, 53EA0ED1-9BF8-11E6-8BEA-64006A897C73:1-4'' =
    Some [(''85ab69d1-b21f-11e6-9c5e-64006a8978d2'', [(1, 47)]), (''53ea0ed1-9bf8-11e6-8bea-64006a897c73'', [(1, 5)])]"
    by code_simp
  show ?thesis
    using gtid_roundtrip [OF p, of "[(''53ea0ed1-9bf8-11e6-8bea-64006a897c73'', [(1, 5)]), (''85ab69d1-b21f-11e6-9c5e-64006a8978d2'', [(1, 47)])]"]
    by auto
qed

end
