(* ===== verification/Etcd_Store.thy ===== *)
theory Etcd_Store
  imports Go_Strings
begin

text \<open>
  The part of the etcd v3 server (vendored under \<open>src/vendor/github.com/coreos/etcd\<close>) that the
  agent talks to: the key space with creation and modification revisions, leases with their
  expiry, the compare-then-apply transaction, range reads by key and by prefix. The interface
  that clients rely on is the locale \<open>kv_interface\<close>, interpreted on these definitions.
\<close>

section \<open>State\<close>

record kv =
  kv_key :: string
  kv_value :: string
  kv_create :: int
  kv_mod :: int
  kv_version :: int
  kv_lease :: int

record lease =
  l_id :: int
  l_ttl :: int
  l_expiry :: int

record etcd =
  e_kvs :: "kv list"
  e_rev :: int
  e_leases :: "lease list"
  e_next :: int
  e_minTTL :: int

datatype op =
    OpGet string
  | OpPut string string int
  | OpDelete string

datatype op_resp = RangeResp "kv list" | PutResp | DelResp

datatype cmp = CmpValue string string | CmpCreateRevision string int

section \<open>The key index\<close>

fun kv_get :: "kv list \<Rightarrow> string \<Rightarrow> kv option" where
  "kv_get [] k = None"
| "kv_get (x # xs) k = (if kv_key x = k then Some x else kv_get xs k)"

fun kv_set :: "kv \<Rightarrow> kv list \<Rightarrow> kv list" where
  "kv_set x [] = [x]"
| "kv_set x (y # ys) =
     (if kv_key x = kv_key y then x # ys
      else if kv_key x < kv_key y then x # y # ys
      else y # kv_set x ys)"

definition kv_del :: "string \<Rightarrow> kv list \<Rightarrow> kv list" where
  "kv_del k xs = filter (\<lambda>x. kv_key x \<noteq> k) xs"

section \<open>Reads and writes\<close>

definition etcd_get :: "etcd \<Rightarrow> string \<Rightarrow> kv option" where
  "etcd_get e k = kv_get (e_kvs e) k"

definition etcd_value :: "etcd \<Rightarrow> string \<Rightarrow> string option" where
  "etcd_value e k = map_option kv_value (etcd_get e k)"

text \<open>The value of a key together with the lease it is attached to.\<close>

definition etcd_held :: "etcd \<Rightarrow> string \<Rightarrow> (string \<times> int) option" where
  "etcd_held e k = map_option (\<lambda>x. (kv_value x, kv_lease x)) (etcd_get e k)"

definition etcd_range :: "etcd \<Rightarrow> string \<Rightarrow> kv list" where
  "etcd_range e k = (case etcd_get e k of None \<Rightarrow> [] | Some x \<Rightarrow> [x])"

definition etcd_range_prefix :: "etcd \<Rightarrow> string \<Rightarrow> kv list" where
  "etcd_range_prefix e p = filter (\<lambda>x. prefix p (kv_key x)) (e_kvs e)"

definition store_put :: "int \<Rightarrow> string \<Rightarrow> string \<Rightarrow> int \<Rightarrow> etcd \<Rightarrow> etcd" where
  "store_put r k v l e =
     (let old = etcd_get e k;
          c = (case old of None \<Rightarrow> r | Some x \<Rightarrow> kv_create x);
          ver = (case old of None \<Rightarrow> 0 | Some x \<Rightarrow> kv_version x)
      in e\<lparr>e_kvs := kv_set \<lparr>kv_key = k, kv_value = v, kv_create = c, kv_mod = r,
                            kv_version = ver + 1, kv_lease = l\<rparr> (e_kvs e)\<rparr>)"

definition store_delete :: "string \<Rightarrow> etcd \<Rightarrow> etcd" where
  "store_delete k e = e\<lparr>e_kvs := kv_del k (e_kvs e)\<rparr>"

definition lease_lookup :: "etcd \<Rightarrow> int \<Rightarrow> lease option" where
  "lease_lookup e i = find (\<lambda>l. l_id l = i) (e_leases e)"

fun apply_op :: "int \<Rightarrow> op \<Rightarrow> etcd \<Rightarrow> op_resp \<times> etcd" where
  "apply_op r (OpGet k) e = (RangeResp (etcd_range e k), e)"
| "apply_op r (OpPut k v l) e = (PutResp, store_put r k v l e)"
| "apply_op r (OpDelete k) e = (DelResp, store_delete k e)"

fun apply_ops :: "int \<Rightarrow> op list \<Rightarrow> etcd \<Rightarrow> op_resp list \<times> etcd" where
  "apply_ops r [] e = ([], e)"
| "apply_ops r (x # xs) e =
     (let (y, e1) = apply_op r x e; (ys, e2) = apply_ops r xs e1 in (y # ys, e2))"

fun op_changes :: "etcd \<Rightarrow> op \<Rightarrow> bool" where
  "op_changes e (OpGet k) = False"
| "op_changes e (OpPut k v l) = True"
| "op_changes e (OpDelete k) = (etcd_get e k \<noteq> None)"

fun op_lease_ok :: "etcd \<Rightarrow> op \<Rightarrow> bool" where
  "op_lease_ok e (OpPut k v l) = (l = 0 \<or> lease_lookup e l \<noteq> None)"
| "op_lease_ok e _ = True"

fun op_key :: "op \<Rightarrow> string" where
  "op_key (OpGet k) = k"
| "op_key (OpPut k v l) = k"
| "op_key (OpDelete k) = k"

fun put_keys :: "op list \<Rightarrow> string list" where
  "put_keys [] = []"
| "put_keys (OpPut k v l # xs) = k # put_keys xs"
| "put_keys (_ # xs) = put_keys xs"

fun del_keys :: "op list \<Rightarrow> string list" where
  "del_keys [] = []"
| "del_keys (OpDelete k # xs) = k # del_keys xs"
| "del_keys (_ # xs) = del_keys xs"

section \<open>Transactions\<close>

fun applyCompare :: "etcd \<Rightarrow> cmp \<Rightarrow> bool" where
  "applyCompare e (CmpValue k v) =
     (case etcd_get e k of None \<Rightarrow> False | Some x \<Rightarrow> kv_value x = v)"
| "applyCompare e (CmpCreateRevision k r) =
     ((case etcd_get e k of None \<Rightarrow> 0 | Some x \<Rightarrow> kv_create x) = r)"

definition checkTxnRequest :: "op list \<Rightarrow> bool" where
  "checkTxnRequest ops \<longleftrightarrow>
     list_all (\<lambda>x. op_key x \<noteq> []) ops \<and> distinct (put_keys ops) \<and>
     list_all (\<lambda>k. k \<notin> set (del_keys ops)) (put_keys ops)"

definition commit_rev :: "op list \<Rightarrow> etcd \<Rightarrow> int" where
  "commit_rev ops e = (if list_ex (op_changes e) ops then e_rev e + 1 else e_rev e)"

definition etcd_txn :: "cmp list \<Rightarrow> op list \<Rightarrow> etcd \<Rightarrow> (error + bool \<times> op_resp list) \<times> etcd" where
  "etcd_txn cs ops e =
     (if \<not> checkTxnRequest ops then (Inl (EMsg ''etcdserver: invalid txn request''), e)
      else if \<not> list_all (applyCompare e) cs then (Inr (False, []), e)
      else if \<not> list_all (op_lease_ok e) ops then
        (Inl (EMsg ''etcdserver: requested lease not found''), e)
      else let (rs, e') = apply_ops (e_rev e + 1) ops e
           in (Inr (True, rs), e'\<lparr>e_rev := commit_rev ops e\<rparr>))"

definition etcd_put :: "string \<Rightarrow> string \<Rightarrow> int \<Rightarrow> etcd \<Rightarrow> (error + unit) \<times> etcd" where
  "etcd_put k v l e =
     (if k = [] then (Inl (EMsg ''etcdserver: key is not provided''), e)
      else if l \<noteq> 0 \<and> lease_lookup e l = None then
        (Inl (EMsg ''etcdserver: requested lease not found''), e)
      else (Inr (), (store_put (e_rev e + 1) k v l e)\<lparr>e_rev := e_rev e + 1\<rparr>))"

text \<open>\<open>DeleteRange\<close>: the keys of the range, each a tombstone of the same revision.\<close>

definition etcd_delete :: "string \<Rightarrow> bool \<Rightarrow> etcd \<Rightarrow> (error + unit) \<times> etcd" where
  "etcd_delete k withPrefix e =
     (if k = [] then (Inl (EMsg ''etcdserver: key is not provided''), e)
      else let hit = (\<lambda>x. if withPrefix then prefix k (kv_key x) else kv_key x = k)
           in (Inr (), e\<lparr>e_kvs := filter (\<lambda>x. \<not> hit x) (e_kvs e),
                         e_rev := (if list_ex hit (e_kvs e) then e_rev e + 1 else e_rev e)\<rparr>))"

section \<open>Leases\<close>

definition MaxLeaseTTL :: int where
  "MaxLeaseTTL = 9000000000"

definition lease_grant :: "int \<Rightarrow> int \<Rightarrow> etcd \<Rightarrow> (error + int) \<times> etcd" where
  "lease_grant now ttl e =
     (if ttl > MaxLeaseTTL then (Inl (EMsg ''etcdserver: too large lease TTL''), e)
      else let t = (if ttl < e_minTTL e then e_minTTL e else ttl)
           in (Inr (e_next e),
               e\<lparr>e_leases := \<lparr>l_id = e_next e, l_ttl = t, l_expiry = now + t * time_Second\<rparr> # e_leases e,
                 e_next := e_next e + 1\<rparr>))"

definition lease_renew :: "int \<Rightarrow> int \<Rightarrow> etcd \<Rightarrow> (error + int) \<times> etcd" where
  "lease_renew now i e =
     (case lease_lookup e i of
        None \<Rightarrow> (Inl (EMsg ''etcdserver: requested lease not found''), e)
      | Some l \<Rightarrow>
          if l_expiry l \<le> now then (Inl (EMsg ''etcdserver: requested lease not found''), e)
          else (Inr (l_ttl l),
                e\<lparr>e_leases := map (\<lambda>x. if l_id x = i then x\<lparr>l_expiry := now + l_ttl x * time_Second\<rparr> else x)
                               (e_leases e)\<rparr>))"

definition lease_revoke :: "int \<Rightarrow> etcd \<Rightarrow> etcd" where
  "lease_revoke i e =
     (if lease_lookup e i = None then e
      else e\<lparr>e_kvs := filter (\<lambda>x. kv_lease x \<noteq> i) (e_kvs e),
             e_rev := (if list_ex (\<lambda>x. kv_lease x = i) (e_kvs e) then e_rev e + 1 else e_rev e),
             e_leases := filter (\<lambda>l. l_id l \<noteq> i) (e_leases e)\<rparr>)"

section \<open>Well-formed stores\<close>

definition wf_etcd :: "etcd \<Rightarrow> bool" where
  "wf_etcd e \<longleftrightarrow>
     sorted_wrt (\<lambda>x y. kv_key x < kv_key y) (e_kvs e) \<and>
     list_all (\<lambda>x. 0 < kv_create x \<and> kv_create x \<le> kv_mod x \<and> kv_mod x \<le> e_rev e \<and> 0 < kv_version x)
       (e_kvs e) \<and>
     list_all (\<lambda>x. kv_lease x = 0 \<or> lease_lookup e (kv_lease x) \<noteq> None) (e_kvs e) \<and>
     list_all (\<lambda>l. 0 < l_id l \<and> l_id l < e_next e) (e_leases e) \<and>
     0 \<le> e_rev e \<and> 0 < e_next e"

definition empty_etcd :: etcd where
  "empty_etcd = \<lparr>e_kvs = [], e_rev = 1, e_leases = [], e_next = 1, e_minTTL = 2\<rparr>"

section \<open>Laws of the key index\<close>

lemma kv_get_set [simp]: "kv_get (kv_set x xs) k = (if k = kv_key x then Some x else kv_get xs k)"
  by (induction xs) auto

lemma kv_get_del [simp]: "kv_get (kv_del k' xs) k = (if k = k' then None else kv_get xs k)"
  by (induction xs) (auto simp: kv_del_def)

lemma kv_get_filter:
  "(\<And>x. x \<in> set xs \<Longrightarrow> kv_key x = k \<Longrightarrow> P x) \<Longrightarrow> kv_get (filter P xs) k = kv_get xs k"
  by (induction xs) auto

lemma kv_get_filter_None:
  "(\<And>x. x \<in> set xs \<Longrightarrow> kv_key x = k \<Longrightarrow> \<not> P x) \<Longrightarrow> kv_get (filter P xs) k = None"
  by (induction xs) auto

lemma kv_get_SomeD: "kv_get xs k = Some x \<Longrightarrow> x \<in> set xs \<and> kv_key x = k"
  by (induction xs) (auto split: if_splits)

lemma etcd_get_SomeD: "etcd_get e k = Some x \<Longrightarrow> x \<in> set (e_kvs e) \<and> kv_key x = k"
  by (simp add: etcd_get_def kv_get_SomeD)

lemma kv_get_sorted:
  assumes "sorted_wrt (\<lambda>x y. kv_key x < kv_key y) xs" and "x \<in> set xs"
  shows "kv_get xs (kv_key x) = Some x"
  using assms by (induction xs) auto

lemma set_kv_set: "set (kv_set x xs) \<subseteq> insert x (set xs)"
  by (induction xs) auto

lemma sorted_kv_set:
  "sorted_wrt (\<lambda>x y. kv_key x < kv_key y) xs \<Longrightarrow> sorted_wrt (\<lambda>x y. kv_key x < kv_key y) (kv_set x xs)"
proof (induction xs)
  case Nil
  then show ?case by simp
next
  case (Cons y ys)
  consider "kv_key x = kv_key y" | "kv_key x < kv_key y" | "kv_key y < kv_key x"
    by (metis linorder_neqE)
  then show ?case
  proof cases
    case 3
    then have "\<forall>z \<in> set (kv_set x ys). kv_key y < kv_key z"
      using Cons.prems set_kv_set [of x ys] by auto
    with 3 Cons show ?thesis by auto
  qed (use Cons.prems in auto)
qed

lemma sorted_filter_kv:
  "sorted_wrt (\<lambda>x y. kv_key x < kv_key y) xs \<Longrightarrow> sorted_wrt (\<lambda>x y. kv_key x < kv_key y) (filter P xs)"
  by (rule sorted_wrt_filter)

section \<open>The interface clients rely on\<close>

text \<open>
  What a client of the store may assume of reads and writes, whatever the representation and
  whatever is read of an entry (\<open>mk\<close> of the value and the lease written): a write is seen by the next
  read of the same key, and no other key changes. The lemmas inside follow from these laws alone; they
  cover whole operation lists of a transaction.
\<close>

locale kv_interface =
  fixes look :: "'s \<Rightarrow> string \<Rightarrow> 'v option"
    and mk :: "string \<Rightarrow> int \<Rightarrow> 'v"
    and put :: "int \<Rightarrow> string \<Rightarrow> string \<Rightarrow> int \<Rightarrow> 's \<Rightarrow> 's"
    and del :: "string \<Rightarrow> 's \<Rightarrow> 's"
  assumes look_put: "look (put r k v l s) k' = (if k' = k then Some (mk v l) else look s k')"
    and look_del: "look (del k s) k' = (if k' = k then None else look s k')"
begin

fun run_ops :: "int \<Rightarrow> op list \<Rightarrow> 's \<Rightarrow> 's" where
  "run_ops r [] s = s"
| "run_ops r (OpGet k # xs) s = run_ops r xs s"
| "run_ops r (OpPut k v l # xs) s = run_ops r xs (put r k v l s)"
| "run_ops r (OpDelete k # xs) s = run_ops r xs (del k s)"

lemma run_ops_other:
  "k \<notin> set (put_keys ops) \<Longrightarrow> k \<notin> set (del_keys ops) \<Longrightarrow> look (run_ops r ops s) k = look s k"
  by (induction r ops s rule: run_ops.induct) (auto simp: look_put look_del)

lemma run_ops_put:
  assumes "OpPut k v l \<in> set ops" and "distinct (put_keys ops)" and "k \<notin> set (del_keys ops)"
  shows "look (run_ops r ops s) k = Some (mk v l)"
  using assms
proof (induction r ops s rule: run_ops.induct)
  case (3 r k' v' l' xs s)
  show ?case
  proof (cases "k' = k")
    case True
    with 3 have "OpPut k v l = OpPut k' v' l' \<or> OpPut k v l \<in> set xs" by auto
    moreover have "OpPut k v l \<in> set xs \<Longrightarrow> k \<in> set (put_keys xs)"
      by (induction xs rule: put_keys.induct) auto
    ultimately have "v' = v" "l' = l" using 3 True by auto
    with 3 True show ?thesis by (simp add: run_ops_other look_put)
  next
    case False
    with 3 show ?thesis by simp
  qed
qed auto

lemma run_ops_del:
  assumes "k \<in> set (del_keys ops)" and "k \<notin> set (put_keys ops)"
  shows "look (run_ops r ops s) k = None"
  using assms
proof (induction r ops s rule: run_ops.induct)
  case (4 r k' xs s)
  then show ?case
    by (cases "k \<in> set (del_keys xs)") (auto simp: run_ops_other look_del)
qed auto

end

lemma etcd_value_put [simp]:
  "etcd_value (store_put r k v l e) k' = (if k' = k then Some v else etcd_value e k')"
  by (simp add: etcd_value_def etcd_get_def store_put_def Let_def)

lemma etcd_value_del [simp]:
  "etcd_value (store_delete k e) k' = (if k' = k then None else etcd_value e k')"
  by (simp add: etcd_value_def etcd_get_def store_delete_def)

lemma etcd_held_put [simp]:
  "etcd_held (store_put r k v l e) k' = (if k' = k then Some (v, l) else etcd_held e k')"
  by (simp add: etcd_held_def etcd_get_def store_put_def Let_def)

lemma etcd_held_del [simp]:
  "etcd_held (store_delete k e) k' = (if k' = k then None else etcd_held e k')"
  by (simp add: etcd_held_def etcd_get_def store_delete_def)

interpretation ekv: kv_interface etcd_value "\<lambda>v l. v" store_put store_delete
  by unfold_locales simp_all

interpretation ekl: kv_interface etcd_held "\<lambda>v l. (v, l)" store_put store_delete
  by unfold_locales simp_all

lemma apply_ops_run: "snd (apply_ops r ops e) = ekv.run_ops r ops e"
  by (induction r ops e rule: ekv.run_ops.induct) (auto simp: case_prod_beta Let_def)

lemma etcd_value_rev [simp]: "etcd_value (e\<lparr>e_rev := r\<rparr>) k = etcd_value e k"
  by (simp add: etcd_value_def etcd_get_def)

lemma etcd_held_rev [simp]: "etcd_held (e\<lparr>e_rev := r\<rparr>) k = etcd_held e k"
  by (simp add: etcd_held_def etcd_get_def)

lemma etcd_value_held: "etcd_value e k = map_option fst (etcd_held e k)"
  by (simp add: etcd_value_def etcd_held_def option.map_comp comp_def)

lemma etcd_get_rev [simp]: "etcd_get (e\<lparr>e_rev := r\<rparr>) k = etcd_get e k"
  by (simp add: etcd_get_def)

lemma etcd_get_None_value: "etcd_value e k = None \<longleftrightarrow> etcd_get e k = None"
  by (simp add: etcd_value_def)

text \<open>What a transaction leaves behind, by its outcome.\<close>

lemma etcd_txn_Inl: "etcd_txn cs ops e = (Inl err, e') \<Longrightarrow> e' = e"
  by (auto simp: etcd_txn_def case_prod_beta split: if_splits)

lemma etcd_txn_False: "etcd_txn cs ops e = (Inr (False, rs), e') \<Longrightarrow>
    e' = e \<and> rs = [] \<and> \<not> list_all (applyCompare e) cs"
  by (auto simp: etcd_txn_def case_prod_beta split: if_splits)

lemma etcd_txn_True: "etcd_txn cs ops e = (Inr (True, rs), e') \<Longrightarrow>
    checkTxnRequest ops \<and> list_all (applyCompare e) cs \<and> list_all (op_lease_ok e) ops \<and>
    rs = fst (apply_ops (e_rev e + 1) ops e) \<and>
    e' = (ekv.run_ops (e_rev e + 1) ops e)\<lparr>e_rev := commit_rev ops e\<rparr>"
  by (auto simp: etcd_txn_def case_prod_beta Let_def apply_ops_run split: if_splits)

lemma etcd_txn_put:
  assumes "etcd_txn cs ops e = (Inr (True, rs), e')" and "OpPut k v l \<in> set ops"
  shows "etcd_held e' k = Some (v, l)"
proof -
  from etcd_txn_True [OF assms(1)]
  have ok: "checkTxnRequest ops"
    and e': "e' = (ekv.run_ops (e_rev e + 1) ops e)\<lparr>e_rev := commit_rev ops e\<rparr>" by auto
  have "k \<in> set (put_keys ops)" using assms(2) by (induction ops rule: put_keys.induct) auto
  with ok have "distinct (put_keys ops)" "k \<notin> set (del_keys ops)"
    by (auto simp: checkTxnRequest_def list_all_iff)
  with assms(2) show ?thesis unfolding e' by (simp add: ekl.run_ops_put)
qed

lemma etcd_txn_other:
  assumes "etcd_txn cs ops e = (r, e')" and "k \<notin> set (put_keys ops)" and "k \<notin> set (del_keys ops)"
  shows "etcd_held e' k = etcd_held e k"
proof (cases r)
  case (Inl err)
  with assms(1) show ?thesis by (auto dest: etcd_txn_Inl)
next
  case (Inr p)
  obtain b rs where p: "p = (b, rs)" by (cases p)
  show ?thesis
  proof (cases b)
    case True
    with assms(1) Inr p etcd_txn_True [of cs ops e rs e']
    have "e' = (ekv.run_ops (e_rev e + 1) ops e)\<lparr>e_rev := commit_rev ops e\<rparr>" by simp
    with assms(2,3) show ?thesis by (simp add: ekl.run_ops_other)
  next
    case False
    with assms(1) Inr p etcd_txn_False [of cs ops e rs e'] show ?thesis by simp
  qed
qed

lemma etcd_txn_deleted:
  assumes "etcd_txn cs ops e = (Inr (True, rs), e')" and "k \<in> set (del_keys ops)"
  shows "etcd_held e' k = None"
proof -
  from etcd_txn_True [OF assms(1)]
  have ok: "checkTxnRequest ops"
    and e': "e' = (ekv.run_ops (e_rev e + 1) ops e)\<lparr>e_rev := commit_rev ops e\<rparr>" by auto
  from ok assms(2) have "k \<notin> set (put_keys ops)" by (auto simp: checkTxnRequest_def list_all_iff)
  with assms(2) show ?thesis unfolding e' by (simp add: ekl.run_ops_del)
qed

end
