(* ===== verification/Etcd_Wf.thy ===== *)
theory Etcd_Wf
  imports Etcd_Store
begin

text \<open>
  Every request keeps the store well formed: keys stay sorted and distinct, revisions stay positive
  and bounded by the store's revision, every leased key names a live lease. From this follows how
  a comparison of a creation revision with 0 decides that a key is absent.
\<close>

lemma wf_etcdD:
  assumes "wf_etcd e"
  shows "sorted_wrt (\<lambda>x y. kv_key x < kv_key y) (e_kvs e)"
    and "x \<in> set (e_kvs e) \<Longrightarrow> 0 < kv_create x"
    and "x \<in> set (e_kvs e) \<Longrightarrow> kv_lease x = 0 \<or> lease_lookup e (kv_lease x) \<noteq> None"
    and "l \<in> set (e_leases e) \<Longrightarrow> 0 < l_id l \<and> l_id l < e_next e"
  using assms by (auto simp: wf_etcd_def list_all_iff)

lemma wf_empty_etcd: "wf_etcd empty_etcd"
  by (simp add: wf_etcd_def empty_etcd_def)

text \<open>The store while a transaction runs: entries may already carry the next revision.\<close>

definition wf_at :: "int \<Rightarrow> etcd \<Rightarrow> bool" where
  "wf_at r e \<longleftrightarrow> wf_etcd (e\<lparr>e_rev := r\<rparr>)"

lemma wf_at_mono: "wf_etcd e \<Longrightarrow> e_rev e \<le> r \<Longrightarrow> wf_at r e"
  by (auto simp: wf_at_def wf_etcd_def list_all_iff lease_lookup_def)

lemma wf_at_same: "wf_at (e_rev e) e = wf_etcd e"
  by (simp add: wf_at_def)

lemma lease_lookup_unfold [simp]:
  "lease_lookup (e\<lparr>e_kvs := a\<rparr>) i = lease_lookup e i"
  "lease_lookup (e\<lparr>e_rev := b\<rparr>) i = lease_lookup e i"
  by (simp_all add: lease_lookup_def)

lemma wf_at_put:
  assumes wf: "wf_at r e" and r: "0 < r" and l: "l = 0 \<or> lease_lookup e l \<noteq> None"
  shows "wf_at r (store_put r k v l e)"
proof -
  let ?c = "case etcd_get e k of None \<Rightarrow> r | Some x \<Rightarrow> kv_create x"
  let ?n = "case etcd_get e k of None \<Rightarrow> 0 | Some x \<Rightarrow> kv_version x"
  let ?x = "\<lparr>kv_key = k, kv_value = v, kv_create = ?c, kv_mod = r, kv_version = ?n + 1, kv_lease = l\<rparr>"
  have e': "store_put r k v l e = e\<lparr>e_kvs := kv_set ?x (e_kvs e)\<rparr>"
    by (simp add: store_put_def Let_def)
  have "0 < ?c \<and> ?c \<le> r \<and> 0 < ?n + 1"
  proof (cases "etcd_get e k")
    case None
    with r show ?thesis by simp
  next
    case (Some y)
    with etcd_get_SomeD have "y \<in> set (e_kvs e)" by blast
    with wf Some show ?thesis by (auto simp: wf_at_def wf_etcd_def list_all_iff)
  qed
  with wf l show ?thesis
    unfolding e' wf_at_def wf_etcd_def list_all_iff
    using set_kv_set [of ?x "e_kvs e"] by (auto simp: sorted_kv_set)
qed

lemma wf_at_filter: "wf_at r e \<Longrightarrow> wf_at r (e\<lparr>e_kvs := filter P (e_kvs e)\<rparr>)"
  by (auto simp: wf_at_def wf_etcd_def list_all_iff sorted_wrt_filter)

lemma wf_at_delete: "wf_at r e \<Longrightarrow> wf_at r (store_delete k e)"
  by (simp add: store_delete_def kv_del_def wf_at_filter)

lemma wf_at_run_ops:
  assumes "wf_at r e" and "0 < r" and "list_all (op_lease_ok e) ops"
  shows "wf_at r (ekv.run_ops r ops e)"
  using assms
proof (induction r ops e rule: ekv.run_ops.induct)
  case (3 r k v l xs s)
  have "list_all (op_lease_ok (store_put r k v l s)) xs"
    using 3 by (auto simp: list_all_iff store_put_def Let_def elim!: op_lease_ok.elims)
  with 3 show ?case by (simp add: wf_at_put)
next
  case (4 r k xs s)
  have "list_all (op_lease_ok (store_delete k s)) xs"
    using 4 by (auto simp: list_all_iff store_delete_def elim!: op_lease_ok.elims)
  with 4 show ?case by (simp add: wf_at_delete)
qed auto

lemma wf_etcd_rev: "wf_at r e \<Longrightarrow> wf_etcd (e\<lparr>e_rev := r\<rparr>)"
  by (simp add: wf_at_def)

lemma run_ops_id:
  "\<not> list_ex (op_changes e) ops \<Longrightarrow> wf_etcd e \<Longrightarrow> ekv.run_ops r ops e = e"
proof (induction ops)
  case Nil
  then show ?case by simp
next
  case (Cons x xs)
  then show ?case
  proof (cases x)
    case (OpDelete k)
    with Cons.prems have "etcd_get e k = None" by simp
    then have "\<forall>y \<in> set (e_kvs e). kv_key y \<noteq> k"
      using kv_get_sorted wf_etcdD(1) [OF Cons.prems(2)] by (fastforce simp: etcd_get_def)
    then have "store_delete k e = e"
      by (simp add: store_delete_def kv_del_def filter_id_conv)
    with OpDelete Cons show ?thesis by simp
  qed (use Cons in auto)
qed

theorem wf_etcd_txn: "wf_etcd e \<Longrightarrow> wf_etcd (snd (etcd_txn cs ops e))"
proof -
  assume wf: "wf_etcd e"
  obtain res e' where t: "etcd_txn cs ops e = (res, e')" by (cases "etcd_txn cs ops e")
  show ?thesis
  proof (cases "\<exists>rs. res = Inr (True, rs)")
    case True
    then obtain rs where "res = Inr (True, rs)" by blast
    with t have l: "list_all (op_lease_ok e) ops"
      and e': "e' = (ekv.run_ops (e_rev e + 1) ops e)\<lparr>e_rev := commit_rev ops e\<rparr>"
      by (auto dest: etcd_txn_True)
    have pos: "0 < e_rev e + 1" using wf by (simp add: wf_etcd_def)
    show ?thesis
    proof (cases "list_ex (op_changes e) ops")
      case True
      with l e' t show ?thesis
        using wf_etcd_rev [OF wf_at_run_ops [OF wf_at_mono [OF wf] pos l]]
        by (simp add: commit_rev_def)
    next
      case False
      with e' t wf show ?thesis by (simp add: commit_rev_def run_ops_id)
    qed
  next
    case False
    with t have "e' = e"
      by (cases res) (auto dest: etcd_txn_Inl etcd_txn_False)
    with t wf show ?thesis by simp
  qed
qed

lemma wf_etcd_put: "wf_etcd e \<Longrightarrow> wf_etcd (snd (etcd_put k v l e))"
  using wf_etcd_rev [OF wf_at_put [OF wf_at_mono, of e "e_rev e + 1" l k v]]
  by (auto simp: etcd_put_def wf_etcd_def)

lemma wf_etcd_delete: "wf_etcd e \<Longrightarrow> wf_etcd (snd (etcd_delete k b e))"
proof -
  assume wf: "wf_etcd e"
  have "wf_at (e_rev e + d) (e\<lparr>e_kvs := filter P (e_kvs e)\<rparr>)" if "0 \<le> d" for d P
    using wf_at_filter [OF wf_at_mono [OF wf]] that by simp
  from this [of 0] this [of 1] show ?thesis
    by (auto simp: etcd_delete_def Let_def wf wf_at_def)
qed

lemma wf_lease_grant: "wf_etcd e \<Longrightarrow> wf_etcd (snd (lease_grant now ttl e))"
  by (auto simp: lease_grant_def Let_def wf_etcd_def list_all_iff lease_lookup_def)

lemma find_map_id:
  "(\<And>x. l_id (f x) = l_id x) \<Longrightarrow>
   find (\<lambda>l. l_id l = i) (map f xs) = map_option f (find (\<lambda>l. l_id l = i) xs)"
  by (induction xs) auto

lemma wf_lease_renew: "wf_etcd e \<Longrightarrow> wf_etcd (snd (lease_renew now i e))"
  by (auto simp: lease_renew_def wf_etcd_def list_all_iff lease_lookup_def find_map_id split: option.splits)

lemma find_filter_neq:
  "j \<noteq> i \<Longrightarrow> find (\<lambda>l. l_id l = j) (filter (\<lambda>l. l_id l \<noteq> i) xs) = find (\<lambda>l. l_id l = j) xs"
  by (induction xs) auto

lemma wf_lease_revoke: "wf_etcd e \<Longrightarrow> wf_etcd (lease_revoke i e)"
  by (auto simp: lease_revoke_def wf_etcd_def list_all_iff lease_lookup_def sorted_wrt_filter find_filter_neq)

lemma held_lease_grant [simp]: "etcd_held (snd (lease_grant now t e)) k = etcd_held e k"
  by (simp add: lease_grant_def Let_def etcd_held_def etcd_get_def)

lemma held_lease_renew [simp]: "etcd_held (snd (lease_renew now i e)) k = etcd_held e k"
  by (simp add: lease_renew_def etcd_held_def etcd_get_def split: option.split)

lemmas wf_etcd_requests =
  wf_etcd_txn wf_etcd_put wf_etcd_delete wf_lease_grant wf_lease_renew wf_lease_revoke

text \<open>Comparing the creation revision with 0 tests that the key is absent.\<close>

lemma create_revision_zero:
  "wf_etcd e \<Longrightarrow> applyCompare e (CmpCreateRevision k 0) \<longleftrightarrow> etcd_value e k = None"
  using wf_etcdD(2) [of e] etcd_get_SomeD [of e k]
  by (auto simp: etcd_value_def split: option.splits) fastforce

lemma compare_value: "applyCompare e (CmpValue k v) \<longleftrightarrow> etcd_value e k = Some v"
  by (auto simp: etcd_value_def split: option.splits)

end
