(* ===== verification/Etcd_Client.thy ===== *)
theory Etcd_Client
  imports Etcd_Wf "HOL-Library.AList"
begin

text \<open>
  The wrapped etcd client of \<open>src/pkg/etcd/etcd.go\<close>, over a network in which every request may
  be lost, may be applied without its reply arriving, or may succeed. The world of a client is the
  store, the script of what the network does with the coming requests, and the clock: each script
  entry also says what other clients and lease expiry did to the store before the request is applied
  and how long the request and its reply take. When the script is used up, the caller is waiting.
\<close>

section \<open>The network\<close>

datatype rpc_status = RpcOK | RpcLost | RpcNoReply

datatype rpc_event = Rpc "etcd \<Rightarrow> etcd" rpc_status nat nat

record net =
  n_etcd :: etcd
  n_script :: "rpc_event list"
  n_clock :: int

text \<open>
  A request under a context: a finished context fails the call before anything is sent.
\<close>

definition rpc_call ::
  "bool \<Rightarrow> (int \<Rightarrow> etcd \<Rightarrow> (error + 'a) \<times> etcd) \<Rightarrow> ('z net_scheme, error + 'a) io" where
  "rpc_call ctxDone f w =
     (if ctxDone then Ret (Inl ECanceled) w
      else case n_script w of
        [] \<Rightarrow> Wait w
      | Rpc env st d1 d2 # rest \<Rightarrow>
          (let t = n_clock w + int d1;
               e = env (n_etcd w);
               w1 = w\<lparr>n_script := rest, n_clock := t + int d2\<rparr>
           in case st of
                RpcLost \<Rightarrow> Ret (Inl ERpc) (w1\<lparr>n_etcd := e\<rparr>)
              | RpcNoReply \<Rightarrow> Ret (Inl ERpc) (w1\<lparr>n_etcd := snd (f t e)\<rparr>)
              | RpcOK \<Rightarrow> Ret (fst (f t e)) (w1\<lparr>n_etcd := snd (f t e)\<rparr>)))"

section \<open>Client methods\<close>

definition keyWithPrefix :: "string \<Rightarrow> string \<Rightarrow> string" where
  "keyWithPrefix p k = path_join [p, k]"

definition KeyWithRootPath :: "string \<Rightarrow> string \<Rightarrow> string" where
  "KeyWithRootPath root k = keyWithPrefix root k"

definition NewClientFromCfg_rootPath :: "string \<Rightarrow> string \<Rightarrow> string" where
  "NewClientFromCfg_rootPath root clusterName = keyWithPrefix root clusterName"

definition range_req :: "string \<Rightarrow> bool \<Rightarrow> etcd \<Rightarrow> (error + kv list) \<times> etcd" where
  "range_req k withPrefix e =
     (if k = [] then (Inl (EMsg ''etcdserver: key is not provided''), e)
      else (Inr (if withPrefix then etcd_range_prefix e k else etcd_range e k), e))"

definition Client_Put :: "string \<Rightarrow> bool \<Rightarrow> string \<Rightarrow> string \<Rightarrow> int \<Rightarrow> ('z net_scheme, error + unit) io" where
  "Client_Put root ctxDone k v l = rpc_call ctxDone (\<lambda>_. etcd_put (KeyWithRootPath root k) v l)"

definition Client_Get :: "string \<Rightarrow> bool \<Rightarrow> string \<Rightarrow> ('z net_scheme, error + string \<times> kv) io" where
  "Client_Get root ctxDone k =
     andthen (rpc_call ctxDone (\<lambda>_. range_req (KeyWithRootPath root k) False)) (\<lambda>r.
       case r of
         Inl err \<Rightarrow> ret (Inl err)
       | Inr [] \<Rightarrow> ret (Inl (ENotFound ''key in etcd''))
       | Inr (x # _) \<Rightarrow> ret (Inr (kv_value x, x)))"

definition root_prefix :: "string \<Rightarrow> string" where
  "root_prefix root = (if has_suffix root ''/'' then root else root @ ''/'')"

fun collect_kvs :: "string \<Rightarrow> kv list \<Rightarrow> (string \<times> string) list \<Rightarrow> (string \<times> string) list" where
  "collect_kvs root [] m = m"
| "collect_kvs root (x # xs) m =
     collect_kvs root xs (AList.update (trim_prefix (kv_key x) (root_prefix root)) (kv_value x) m)"

definition Client_PrefixGet ::
  "string \<Rightarrow> bool \<Rightarrow> string \<Rightarrow> ('z net_scheme, error + (string \<times> string) list) io" where
  "Client_PrefixGet root ctxDone p =
     andthen (rpc_call ctxDone (\<lambda>_. range_req (KeyWithRootPath root p) True)) (\<lambda>r.
       case r of
         Inl err \<Rightarrow> ret (Inl err)
       | Inr kvs \<Rightarrow> ret (Inr (collect_kvs root kvs [])))"

definition first_kvs :: "op_resp list \<Rightarrow> kv list" where
  "first_kvs rs = concat (map (\<lambda>r. case r of RangeResp (x # _) \<Rightarrow> [x] | _ \<Rightarrow> []) rs)"

definition Client_MultiGet ::
  "string \<Rightarrow> bool \<Rightarrow> string list \<Rightarrow> ('z net_scheme, error + (string \<times> string) list) io" where
  "Client_MultiGet root ctxDone ks =
     andthen (rpc_call ctxDone (\<lambda>_. etcd_txn [] (map (\<lambda>k. OpGet (KeyWithRootPath root k)) ks))) (\<lambda>r.
       case r of
         Inl err \<Rightarrow> ret (Inl err)
       | Inr (_, rs) \<Rightarrow> ret (Inr (collect_kvs root (first_kvs rs) [])))"

definition Client_Delete :: "string \<Rightarrow> bool \<Rightarrow> string \<Rightarrow> bool \<Rightarrow> ('z net_scheme, error + unit) io" where
  "Client_Delete root ctxDone k withPrefixMatch =
     rpc_call ctxDone (\<lambda>_. etcd_delete (KeyWithRootPath root k) withPrefixMatch)"

definition Client_Txn ::
  "bool \<Rightarrow> cmp list \<Rightarrow> op list \<Rightarrow> ('z net_scheme, error + bool \<times> op_resp list) io" where
  "Client_Txn ctxDone cs ops = rpc_call ctxDone (\<lambda>_. etcd_txn cs ops)"

definition Lease_Grant :: "bool \<Rightarrow> int \<Rightarrow> ('z net_scheme, error + int) io" where
  "Lease_Grant ctxDone ttl = rpc_call ctxDone (\<lambda>now. lease_grant now ttl)"

definition Lease_KeepAliveOnce :: "bool \<Rightarrow> int \<Rightarrow> ('z net_scheme, error + int) io" where
  "Lease_KeepAliveOnce ctxDone i = rpc_call ctxDone (\<lambda>now. lease_renew now i)"

section \<open>The directory tree of List\<close>

datatype dnode = DNode (dn_value: "string option") (dn_children: "(string \<times> dnode) list")

definition new_dnode :: dnode where
  "new_dnode = DNode None []"

text \<open>
  \<open>parseToDirTree\<close> walks down from the root, creating the missing nodes, and returns the leaf,
  whose value the caller sets. The walk takes the change made to the leaf as its argument.
\<close>

fun parseToDirTree :: "dnode \<Rightarrow> string list \<Rightarrow> (dnode \<Rightarrow> dnode) \<Rightarrow> dnode" where
  "parseToDirTree current [] atLeaf = atLeaf current"
| "parseToDirTree (DNode v ch) (d # dirs) atLeaf =
     DNode v (AList.update d
       (parseToDirTree (case map_of ch d of None \<Rightarrow> new_dnode | Some n \<Rightarrow> n) dirs atLeaf) ch)"

fun set_value :: "string \<Rightarrow> dnode \<Rightarrow> dnode" where
  "set_value v (DNode _ ch) = DNode (Some v) ch"

fun build_tree :: "nat \<Rightarrow> kv list \<Rightarrow> dnode \<Rightarrow> dnode" where
  "build_tree len [] root = root"
| "build_tree len (x # xs) root =
     (if length (kv_key x) \<le> len then build_tree len xs root
      else build_tree len xs
        (parseToDirTree root (split_go (CHR ''/'') (drop len (kv_key x))) (set_value (kv_value x))))"

definition list_key :: "string \<Rightarrow> string \<Rightarrow> string" where
  "list_key root k =
     (let key = KeyWithRootPath root k in if has_suffix key ''/'' then key else key @ ''/'')"

definition Client_List :: "string \<Rightarrow> bool \<Rightarrow> string \<Rightarrow> ('z net_scheme, error + dnode) io" where
  "Client_List root ctxDone k =
     andthen (rpc_call ctxDone (\<lambda>_. range_req (list_key root k) True)) (\<lambda>r.
       case r of
         Inl err \<Rightarrow> ret (Inl err)
       | Inr kvs \<Rightarrow> ret (Inr (build_tree (length (list_key root k)) kvs new_dnode)))"

fun dir_lookup :: "dnode \<Rightarrow> string list \<Rightarrow> string option" where
  "dir_lookup (DNode v ch) [] = v"
| "dir_lookup (DNode v ch) (d # ds) =
     (case map_of ch d of None \<Rightarrow> None | Some n \<Rightarrow> dir_lookup n ds)"

section \<open>What a request does\<close>

lemma rpc_call_done [simp]: "rpc_call True f w = Ret (Inl ECanceled) w"
  by (simp add: rpc_call_def)

text \<open>The three ways a request comes back, and the one in which it does not.\<close>

lemma rpc_call_cases:
  obtains (cancelled) "ctxDone" "rpc_call ctxDone f w = Ret (Inl ECanceled) w"
  | (wait) "\<not> ctxDone" "n_script w = []" "rpc_call ctxDone f w = Wait w"
  | (lost) env d1 d2 rest where "\<not> ctxDone" "n_script w = Rpc env RpcLost d1 d2 # rest"
      "rpc_call ctxDone f w = Ret (Inl ERpc) (w\<lparr>n_script := rest,
         n_clock := n_clock w + int d1 + int d2, n_etcd := env (n_etcd w)\<rparr>)"
  | (applied) env st d1 d2 rest r where "\<not> ctxDone" "n_script w = Rpc env st d1 d2 # rest"
      "st = RpcNoReply \<and> r = Inl ERpc \<or> st = RpcOK \<and> r = fst (f (n_clock w + int d1) (env (n_etcd w)))"
      "rpc_call ctxDone f w = Ret r (w\<lparr>n_script := rest, n_clock := n_clock w + int d1 + int d2,
         n_etcd := snd (f (n_clock w + int d1) (env (n_etcd w)))\<rparr>)"
proof (cases ctxDone)
  case True
  with cancelled show ?thesis by simp
next
  case nd: False
  show ?thesis
  proof (cases "n_script w")
    case Nil
    with nd wait show ?thesis by (simp add: rpc_call_def)
  next
    case (Cons ev rest)
    obtain env st d1 d2 where ev: "ev = Rpc env st d1 d2" by (cases ev)
    show ?thesis
    proof (cases st)
      case RpcOK
      with nd Cons ev show ?thesis
        by (intro applied [of env st d1 d2 rest "fst (f (n_clock w + int d1) (env (n_etcd w)))"])
          (auto simp: rpc_call_def Let_def)
    next
      case RpcLost
      with nd Cons ev show ?thesis
        by (intro lost [of env d1 d2 rest]) (auto simp: rpc_call_def Let_def)
    next
      case RpcNoReply
      with nd Cons ev show ?thesis
        by (intro applied [of env st d1 d2 rest "Inl ERpc"]) (auto simp: rpc_call_def Let_def)
    qed
  qed
qed

text \<open>The script only gets shorter, and the clock only moves forward.\<close>

lemma rpc_call_script:
  "rpc_call ctxDone f w = Ret r w' \<Longrightarrow> length (n_script w') \<le> length (n_script w)"
  by (cases rule: rpc_call_cases [of ctxDone f w]) auto

lemma rpc_call_clock:
  "rpc_call ctxDone f w = Ret r w' \<Longrightarrow> n_clock w \<le> n_clock w'"
  by (cases rule: rpc_call_cases [of ctxDone f w]) auto

lemma rpc_call_consumes:
  "rpc_call False f w = Ret r w' \<Longrightarrow> length (n_script w') < length (n_script w)"
  by (cases rule: rpc_call_cases [of False f w]) auto

lemma rpc_call_not_Exit [simp]: "rpc_call ctxDone f w \<noteq> Exit c w'" "rpc_call ctxDone f w \<noteq> Panic w'"
  by (cases rule: rpc_call_cases [of ctxDone f w]; simp)+

text \<open>
  A property of the store holds after a request if the request's own change and everything the
  other clients do keep it.
\<close>

definition rely :: "(etcd \<Rightarrow> bool) \<Rightarrow> 'z net_scheme \<Rightarrow> bool" where
  "rely P w \<longleftrightarrow> (\<forall>env st d1 d2 e. Rpc env st d1 d2 \<in> set (n_script w) \<longrightarrow> P e \<longrightarrow> P (env e))"

definition stable :: "(etcd \<Rightarrow> bool) \<Rightarrow> 'z net_scheme \<Rightarrow> bool" where
  "stable P w \<longleftrightarrow> P (n_etcd w) \<and> rely P w"

lemma stable_rpc_call [hoare]:
  assumes "\<And>t e. P e \<Longrightarrow> P (snd (f t e))"
  shows "keeps (stable P) (rpc_call ctxDone f)"
proof
  fix w :: "'z net_scheme"
  assume "stable P w"
  then show "stable P (final_world (rpc_call ctxDone f w))"
    by (cases rule: rpc_call_cases [of ctxDone f w]) (auto simp: stable_def rely_def assms)
qed

text \<open>A network on which nobody else does anything.\<close>

fun quiet :: "rpc_event \<Rightarrow> bool" where
  "quiet (Rpc env st d1 d2) \<longleftrightarrow> (\<forall>e. env e = e)"

lemma stable_quiet: "P (n_etcd w) \<Longrightarrow> \<forall>ev \<in> set (n_script w). quiet ev \<Longrightarrow> stable P w"
  by (fastforce simp: stable_def rely_def)

lemma stable_wf_client [hoare]:
  "keeps (stable wf_etcd) (Client_Put root ctxDone k v l)"
  "keeps (stable wf_etcd) (Client_Delete root ctxDone k b)"
  "keeps (stable wf_etcd) (Client_Txn ctxDone cs ops)"
  "keeps (stable wf_etcd) (Lease_Grant ctxDone ttl)"
  "keeps (stable wf_etcd) (Lease_KeepAliveOnce ctxDone i)"
  unfolding Client_Put_def Client_Delete_def Client_Txn_def Lease_Grant_def Lease_KeepAliveOnce_def
  by (intro stable_rpc_call wf_etcd_requests; assumption)+

section \<open>Reading keys\<close>

text \<open>A transaction of reads answers from one state and changes nothing.\<close>

lemma put_keys_gets [simp]: "put_keys (map (\<lambda>k. OpGet (f k)) ks) = []" "del_keys (map (\<lambda>k. OpGet (f k)) ks) = []"
  by (induction ks) auto

lemma apply_gets: "apply_ops r (map (\<lambda>k. OpGet (f k)) ks) e = (map (\<lambda>k. RangeResp (etcd_range e (f k))) ks, e)"
  by (induction ks) auto

lemma etcd_txn_gets:
  assumes "\<forall>k \<in> set ks. f k \<noteq> []"
  shows "etcd_txn [] (map (\<lambda>k. OpGet (f k)) ks) e = (Inr (True, map (\<lambda>k. RangeResp (etcd_range e (f k))) ks), e)"
proof -
  have "checkTxnRequest (map (\<lambda>k. OpGet (f k)) ks)"
    using assms by (auto simp: checkTxnRequest_def list_all_iff)
  moreover have "list_all (op_lease_ok e) (map (\<lambda>k. OpGet (f k)) ks)" "\<not> list_ex (op_changes e) (map (\<lambda>k. OpGet (f k)) ks)"
    by (auto simp: list_all_iff list_ex_iff)
  ultimately show ?thesis by (simp add: etcd_txn_def apply_gets commit_rev_def)
qed

lemma good_path_neq_Nil: "good_root r \<Longrightarrow> good_rel k \<Longrightarrow> KeyWithRootPath r k \<noteq> []"
  by (simp add: KeyWithRootPath_def keyWithPrefix_def path_join_root del: path_join.simps)

lemma root_prefix_good: "good_root r \<Longrightarrow> root_prefix r = r @ ''/''"
proof -
  assume r: "good_root r"
  have "\<not> suffix ''/'' r"
  proof
    assume "suffix ''/'' r"
    then obtain s where "r = s @ ''/''" by (auto simp: suffix_def)
    then have "split_go (CHR ''/'') r = split_go (CHR ''/'') s @ [[]]" by (simp add: split_go_append)
    with r show False
      by (cases s) (auto simp: good_root_def good_rel_def good_comp_def split: if_splits)
  qed
  then show ?thesis by (simp add: root_prefix_def has_suffix_def)
qed

text \<open>The key that a client sees is the one it asked for: the root is stripped again.\<close>

lemma trim_root: "good_root r \<Longrightarrow> good_rel k \<Longrightarrow> trim_prefix (KeyWithRootPath r k) (root_prefix r) = k"
  by (simp add: root_prefix_good KeyWithRootPath_def keyWithPrefix_def path_join_root trim_prefix_def del: path_join.simps)

lemma MultiGet_reply:
  assumes "good_root r" and "\<forall>k \<in> set ks. good_rel k" and "n_script w = Rpc env RpcOK d1 d2 # rest"
  shows "Client_MultiGet r False ks w =
    Ret (Inr (collect_kvs r (concat (map (\<lambda>k. etcd_range (env (n_etcd w)) (KeyWithRootPath r k)) ks)) []))
      (w\<lparr>n_script := rest, n_clock := n_clock w + int d1 + int d2, n_etcd := env (n_etcd w)\<rparr>)"
proof -
  have t: "etcd_txn [] (map (\<lambda>k. OpGet (KeyWithRootPath r k)) ks) e =
      (Inr (True, map (\<lambda>k. RangeResp (etcd_range e (KeyWithRootPath r k))) ks), e)" for e
    using assms(1,2) by (intro etcd_txn_gets) (simp add: good_path_neq_Nil)
  have "first_kvs (map (\<lambda>k. RangeResp (etcd_range e (KeyWithRootPath r k))) ks) =
      concat (map (\<lambda>k. etcd_range e (KeyWithRootPath r k)) ks)" for e
    by (induction ks) (auto simp: first_kvs_def etcd_range_def split: option.split)
  with t assms(3) show ?thesis by (simp add: Client_MultiGet_def rpc_call_def Let_def andthen_def)
qed

section \<open>Reading a prefix\<close>

lemma map_of_collect:
  "map_of (collect_kvs root xs m) =
     map_of m ++ map_of (rev (map (\<lambda>x. (trim_prefix (kv_key x) (root_prefix root), kv_value x)) xs))"
  by (induction xs arbitrary: m) (auto simp: update_conv' map_add_def fun_eq_iff split: option.splits)

lemma distinct_collect: "distinct (map fst m) \<Longrightarrow> distinct (map fst (collect_kvs root xs m))"
  by (induction xs arbitrary: m) (auto simp: distinct_update)

section \<open>Trees\<close>

lemma dir_lookup_new [simp]: "dir_lookup new_dnode ds = None"
  by (cases ds) (simp_all add: new_dnode_def)

lemma dir_lookup_parse:
  "dir_lookup (parseToDirTree n ds (set_value v)) ds' = (if ds' = ds then Some v else dir_lookup n ds')"
proof (induction ds arbitrary: n ds')
  case Nil
  show ?case by (cases n; cases ds') auto
next
  case (Cons d ds)
  show ?case
  proof (cases n)
    case (DNode u ch)
    show ?thesis
    proof (cases ds')
      case Nil
      with DNode show ?thesis by simp
    next
      case (Cons d' es)
      with DNode show ?thesis
        by (auto simp: update_conv' Cons.IH split: option.splits)
    qed
  qed
qed

text \<open>
  The tree built from a list of entries holds, at the path of each key below the listed
  directory, the value of the last entry with that key, and nothing else.
\<close>

lemma build_tree_lookup:
  assumes "\<And>x. x \<in> set xs \<Longrightarrow> prefix base (kv_key x)"
  shows "dir_lookup (build_tree (length base) xs n) ds =
    (case map_of (rev (map (\<lambda>x. (kv_key x, kv_value x)) xs)) (base @ join_go (CHR ''/'') ds) of
       Some v \<Rightarrow> if ds = split_go (CHR ''/'') (join_go (CHR ''/'') ds) \<and> join_go (CHR ''/'') ds \<noteq> []
                then Some v else dir_lookup n ds
     | None \<Rightarrow> dir_lookup n ds)"
  using assms
proof (induction xs arbitrary: n)
  case Nil
  then show ?case by simp
next
  case (Cons x xs)
  obtain s where s: "kv_key x = base @ s" using Cons.prems by (auto elim: prefixE)
  have IH: "\<And>n. dir_lookup (build_tree (length base) xs n) ds =
    (case map_of (rev (map (\<lambda>x. (kv_key x, kv_value x)) xs)) (base @ join_go (CHR ''/'') ds) of
       Some v \<Rightarrow> if ds = split_go (CHR ''/'') (join_go (CHR ''/'') ds) \<and> join_go (CHR ''/'') ds \<noteq> []
                then Some v else dir_lookup n ds
     | None \<Rightarrow> dir_lookup n ds)"
    using Cons by auto
  show ?case
  proof (cases "s = []")
    case True
    with s show ?thesis by (auto simp: IH map_add_def split: option.splits)
  next
    case False
    have tree: "build_tree (length base) (x # xs) n =
        build_tree (length base) xs (parseToDirTree n (split_go (CHR ''/'') s) (set_value (kv_value x)))"
      using s False by simp
    show ?thesis
    proof (cases "ds = split_go (CHR ''/'') s")
      case True
      then show ?thesis
        unfolding tree IH
        by (simp add: dir_lookup_parse join_split s False map_add_def split: option.split)
    next
      case other: False
      show ?thesis
      proof (cases "join_go (CHR ''/'') ds = s")
        case True
        with other have "ds \<noteq> split_go (CHR ''/'') (join_go (CHR ''/'') ds)" by simp
        with other show ?thesis
          unfolding tree IH by (simp add: dir_lookup_parse split: option.split)
      next
        case False
        with other show ?thesis
          unfolding tree IH by (simp add: dir_lookup_parse s map_add_def split: option.split)
      qed
    qed
  qed
qed

end
