(* ===== verification/Moha_Mysql.thy ===== *)
theory Moha_Mysql
  imports Gtid Etcd_Client
begin

text \<open>
  \<open>src/pkg/mysql/mysql.go\<close> and \<open>src/pkg/postgresql/postgresql.go\<close>: the statements the agent runs
  and how it reads the answers. The database server is outside the program: a script holds what it
  answers (an error, or columns and rows, and the time it takes), and the log keeps every
  statement sent, newest first, with whether it was acknowledged. External commands have a script
  and a log of their own.
\<close>

section \<open>The database and the commands\<close>

type_synonym cell = "string option"

datatype sql_reply =
  SqlReply (sr_err: "error option") (sr_columns: "string list") (sr_rows: "cell list list")
    (sr_rows_err: "error option") (sr_time: nat)

datatype cmd_reply = CmdReply "error option" nat

type_synonym stmt_log = "(string \<times> bool) list"

record dbnet = net +
  d_sql :: "sql_reply list"
  d_log :: stmt_log
  d_cmds :: "cmd_reply list"
  d_cmdlog :: "string list list"
  d_readonly :: int

type_synonym rows = "string list \<times> cell list list \<times> error option"

definition sql_call :: "string \<Rightarrow> ('z dbnet_scheme, error + rows) io" where
  "sql_call stmt w =
     (case d_sql w of
        [] \<Rightarrow> Wait (w\<lparr>d_log := (stmt, False) # d_log w\<rparr>)
      | SqlReply err cols rws rerr t # rest \<Rightarrow>
          Ret (case err of Some e \<Rightarrow> Inl e | None \<Rightarrow> Inr (cols, rws, rerr))
            (w\<lparr>d_sql := rest, d_log := (stmt, err = None) # d_log w, n_clock := n_clock w + int t\<rparr>))"

definition run_command :: "string list \<Rightarrow> ('z dbnet_scheme, error option) io" where
  "run_command c w =
     (case d_cmds w of
        [] \<Rightarrow> Wait (w\<lparr>d_cmdlog := c # d_cmdlog w\<rparr>)
      | CmdReply err t # rest \<Rightarrow>
          Ret err (w\<lparr>d_cmds := rest, d_cmdlog := c # d_cmdlog w, n_clock := n_clock w + int t\<rparr>))"

definition db_Query :: "string \<Rightarrow> ('z dbnet_scheme, error + rows) io" where
  "db_Query stmt = sql_call stmt"

definition db_Exec :: "string \<Rightarrow> ('z dbnet_scheme, error option) io" where
  "db_Exec stmt = andthen (sql_call stmt) (\<lambda>r. ret (case r of Inl e \<Rightarrow> Some e | Inr _ \<Rightarrow> None))"

section \<open>Connections\<close>

record db_config =
  db_Host :: string
  db_User :: string
  db_Password :: string
  db_Port :: int
  db_Timeout :: string
  db_ReplicationUser :: string
  db_ReplicationPassword :: string
  db_ReplicationNet :: string

definition mysql_dsn :: "db_config \<Rightarrow> string" where
  "mysql_dsn cfg = db_User cfg @ '':'' @ db_Password cfg @ ''@tcp('' @ db_Host cfg @ '':'' @ show_int (db_Port cfg) @
     '')/?charset=utf8&interpolateParams=true&readTimeout='' @ db_Timeout cfg @ ''&writeTimeout='' @ db_Timeout cfg @
     ''&timeout='' @ db_Timeout cfg"

definition pg_dsn :: "db_config \<Rightarrow> string" where
  "pg_dsn cfg = ''postgres://'' @ db_User cfg @ '':'' @ db_Password cfg @ ''@'' @ db_Host cfg @ '':'' @
     show_int (db_Port cfg) @ ''/?sslmode=disable&connect_timeout='' @ db_Timeout cfg"

definition Select1 :: "('z dbnet_scheme, error option) io" where
  "Select1 = andthen (db_Query ''SELECT 1;'') (\<lambda>r. ret (case r of Inl e \<Rightarrow> Some e | Inr _ \<Rightarrow> None))"

section \<open>Reading status\<close>

definition scan_error :: error where
  "scan_error = EMsg ''sql: Scan error''"

fun scan_uuid_rows :: "string \<Rightarrow> cell list list \<Rightarrow> error + string" where
  "scan_uuid_rows acc [] = Inr acc"
| "scan_uuid_rows acc (r # rs) = (case r of [Some v] \<Rightarrow> scan_uuid_rows v rs | _ \<Rightarrow> Inl scan_error)"

definition mysql_GetServerUUID :: "('z dbnet_scheme, error + string) io" where
  "mysql_GetServerUUID =
     andthen (db_Query ''SELECT @@server_uuid;'') (\<lambda>r.
       case r of
         Inl e \<Rightarrow> ret (Inl e)
       | Inr (cols, rws, rerr) \<Rightarrow>
           ret (case scan_uuid_rows [] rws of
                  Inl e \<Rightarrow> Inl e
                | Inr u \<Rightarrow> (case rerr of Some e \<Rightarrow> Inl e | None \<Rightarrow> Inr u)))"

text \<open>The first row read into byte slices; a NULL column leaves its slice empty.\<close>

definition scan_bytes :: "nat \<Rightarrow> cell list list \<Rightarrow> string list" where
  "scan_bytes n rws =
     (case rws of
        [] \<Rightarrow> replicate n []
      | r # _ \<Rightarrow> if length r = n then map (\<lambda>c. case c of None \<Rightarrow> [] | Some v \<Rightarrow> v) r else replicate n [])"

definition status_map :: "string list \<Rightarrow> string list \<Rightarrow> (string \<times> string) list" where
  "status_map cols data = fold (\<lambda>(c, v) m. AList.update c v m) (zip cols data) []"

definition GetSlaveStatus :: "('z dbnet_scheme, error + (string \<times> string) list) io" where
  "GetSlaveStatus =
     andthen (db_Query ''SHOW SLAVE STATUS '') (\<lambda>r.
       case r of
         Inl e \<Rightarrow> ret (Inl e)
       | Inr (cols, rws, _) \<Rightarrow> ret (Inr (status_map cols (scan_bytes (length cols) rws))))"

text \<open>Indexing a Go map: the empty string when the key is missing.\<close>

definition status_get :: "(string \<times> string) list \<Rightarrow> string \<Rightarrow> string" where
  "status_get m k = (case map_of m k of None \<Rightarrow> [] | Some v \<Rightarrow> v)"

definition parse_uint32 :: "string \<Rightarrow> nat option" where
  "parse_uint32 s = (if all_digits s \<and> digits_val s < 2 ^ 32 then Some (digits_val s) else None)"

lemma parse_uint32_code [code]:
  "parse_uint32 s = (if all_digits s \<and> int (digits_val s) < 2 ^ 32 then Some (digits_val s) else None)"
  by (simp add: parse_uint32_def)

definition scan_master_row :: "nat \<Rightarrow> string \<Rightarrow> cell list \<Rightarrow> error + string \<times> nat \<times> string" where
  "scan_master_row ncols gtid r =
     (let number = (\<lambda>c. case c of None \<Rightarrow> None | Some v \<Rightarrow> parse_uint32 v) in
      if ncols = 5 then
        (case r of
           [Some n, p, _, _, Some g] \<Rightarrow> (case number p of None \<Rightarrow> Inl scan_error | Some q \<Rightarrow> Inr (n, q, g))
         | _ \<Rightarrow> Inl scan_error)
      else
        (case r of
           [Some n, p, _, _] \<Rightarrow> (case number p of None \<Rightarrow> Inl scan_error | Some q \<Rightarrow> Inr (n, q, gtid))
         | _ \<Rightarrow> Inl scan_error))"

fun scan_master_rows ::
  "nat \<Rightarrow> string \<Rightarrow> (string \<times> nat) \<times> gtid_sets \<Rightarrow> cell list list \<Rightarrow> error + (string \<times> nat) \<times> gtid_sets" where
  "scan_master_rows ncols gtid acc [] = Inr acc"
| "scan_master_rows ncols gtid acc (r # rs) =
     (case scan_master_row ncols gtid r of
        Inl e \<Rightarrow> Inl e
      | Inr (n, p, g) \<Rightarrow>
        (case parseGTIDSet g of
           Inl e \<Rightarrow> Inl e
         | Inr gs \<Rightarrow> scan_master_rows ncols g ((n, p), gs) rs))"

definition GetMasterStatus :: "('z dbnet_scheme, error + (string \<times> nat) \<times> gtid_sets) io" where
  "GetMasterStatus =
     andthen (db_Query ''SHOW MASTER STATUS'') (\<lambda>r.
       case r of
         Inl e \<Rightarrow> ret (Inl e)
       | Inr (cols, rws, rerr) \<Rightarrow>
           ret (case scan_master_rows (length cols) [] (([], 0), []) rws of
                  Inl e \<Rightarrow> Inl e
                | Inr x \<Rightarrow> (case rerr of Some e \<Rightarrow> Inl e | None \<Rightarrow> Inr x)))"

section \<open>Changing state\<close>

definition mysql_SetReadOnly :: "('z dbnet_scheme, error option) io" where
  "mysql_SetReadOnly =
     andthen (db_Exec ''SET GLOBAL super_read_only = 1;'') (\<lambda>err.
       if err \<noteq> None then ret err else db_Exec ''SET GLOBAL read_only = 1;'')"

definition mysql_SetReadWrite :: "('z dbnet_scheme, error option) io" where
  "mysql_SetReadWrite =
     andthen (db_Exec ''SET GLOBAL read_only = 0;'') (\<lambda>err.
       if err \<noteq> None then ret err else db_Exec ''SET GLOBAL super_read_only = 0;'')"

definition mysql_PromoteToMaster :: "('z dbnet_scheme, error option) io" where
  "mysql_PromoteToMaster = db_Exec ''STOP SLAVE;''"

definition change_master_sql :: "string \<Rightarrow> string \<Rightarrow> string \<Rightarrow> string \<Rightarrow> string" where
  "change_master_sql user password host port =
     ''CHANGE MASTER TO'' @ [CHR 0x0A] @ ''        master_user='' @ [CHR 0x27] @ user @ [CHR 0x27] @
     '',master_host='' @ [CHR 0x27] @ host @ [CHR 0x27] @ '', MASTER_PORT='' @ port @
     '', master_password='' @ [CHR 0x27] @ password @ [CHR 0x27] @ '', MASTER_AUTO_POSITION = 1;''"

definition mysql_RedirectMaster ::
  "string \<Rightarrow> string \<Rightarrow> string \<Rightarrow> string \<Rightarrow> ('z dbnet_scheme, error option) io" where
  "mysql_RedirectMaster user password host port =
     andthen (db_Exec ''STOP SLAVE;'') (\<lambda>_.
     andthen (db_Exec (change_master_sql user password host port)) (\<lambda>_.
     db_Exec ''START SLAVE;''))"

section \<open>Running processes\<close>

definition processlist_sql :: string where
  "processlist_sql = ''SELECT id FROM INFORMATION_SCHEMA.PROCESSLIST where USER NOT IN ('' @
     [CHR 0x27] @ ''root'' @ [CHR 0x27] @ '', '' @ [CHR 0x27] @ ''replication'' @ [CHR 0x27] @ '', '' @
     [CHR 0x27] @ ''system user'' @ [CHR 0x27] @ '')''"

definition ddlcount_sql :: string where
  "ddlcount_sql = ''SELECT COUNT(0) FROM INFORMATION_SCHEMA.PROCESSLIST WHERE USER NOT IN ('' @
     [CHR 0x27] @ ''root'' @ [CHR 0x27] @ '', '' @ [CHR 0x27] @ ''replication'' @ [CHR 0x27] @ '', '' @
     [CHR 0x27] @ ''system user'' @ [CHR 0x27] @ '') AND INFO LIKE '' @ [CHR 0x27] @ ''ALTER%'' @ [CHR 0x27]"

definition scan_string :: "cell list \<Rightarrow> string" where
  "scan_string r = (case r of [Some v] \<Rightarrow> v | _ \<Rightarrow> [])"

definition GetRunningProcesses :: "('z dbnet_scheme, error + string list) io" where
  "GetRunningProcesses =
     andthen (db_Query processlist_sql) (\<lambda>r.
       case r of Inl e \<Rightarrow> ret (Inl e) | Inr (_, rws, _) \<Rightarrow> ret (Inr (map scan_string rws)))"

definition scan_int :: "cell list list \<Rightarrow> int" where
  "scan_int rws =
     (case rws of
        [] \<Rightarrow> 0
      | r # _ \<Rightarrow> (case r of [Some v] \<Rightarrow> (case atoi v of None \<Rightarrow> 0 | Some n \<Rightarrow> n) | _ \<Rightarrow> 0))"

definition GetRunningDDLCount :: "('z dbnet_scheme, error + int) io" where
  "GetRunningDDLCount =
     andthen (db_Query ddlcount_sql) (\<lambda>r.
       case r of Inl e \<Rightarrow> ret (Inl e) | Inr (_, rws, _) \<Rightarrow> ret (Inr (scan_int rws)))"

definition KillProcess :: "string \<Rightarrow> ('z dbnet_scheme, error option) io" where
  "KillProcess pid = db_Exec (''kill '' @ pid)"

definition WaitCatchMaster :: "string \<Rightarrow> ('z dbnet_scheme, error option) io" where
  "WaitCatchMaster gtid =
     db_Exec (''SELECT WAIT_UNTIL_SQL_THREAD_AFTER_GTIDS('' @ [CHR 0x27] @ gtid @ [CHR 0x27] @ '')'')"

section \<open>PostgreSQL\<close>

definition ReloadConf :: "('z dbnet_scheme, error option) io" where
  "ReloadConf = andthen (db_Query ''SELECT pg_reload_conf();'') (\<lambda>r. ret (case r of Inl e \<Rightarrow> Some e | Inr _ \<Rightarrow> None))"

definition scan_uint64 :: "cell list list \<Rightarrow> u64" where
  "scan_uint64 rws =
     (case rws of
        [] \<Rightarrow> 0
      | r # _ \<Rightarrow> (case r of [Some v] \<Rightarrow> (case parse_uint64 v of None \<Rightarrow> 0 | Some n \<Rightarrow> n) | _ \<Rightarrow> 0))"

definition GetCurrentLSN :: "('z dbnet_scheme, error + u64) io" where
  "GetCurrentLSN =
     andthen (db_Query ''SELECT pg_current_wal_lsn();'') (\<lambda>r.
       case r of Inl e \<Rightarrow> ret (Inl e) | Inr (_, rws, _) \<Rightarrow> ret (Inr (scan_uint64 rws)))"

definition GetLastReplayLSN :: "('z dbnet_scheme, error + u64) io" where
  "GetLastReplayLSN =
     andthen (db_Query ''SELECT pg_last_wal_replay_lsn();'') (\<lambda>r.
       case r of Inl e \<Rightarrow> ret (Inl e) | Inr (_, rws, _) \<Rightarrow> ret (Inr (scan_uint64 rws)))"

definition Checkpoint :: "('z dbnet_scheme, error option) io" where
  "Checkpoint = db_Exec ''CHECKPOINT;''"

section \<open>What database work leaves alone\<close>

text \<open>
  A predicate on the world that does not look at the database scripts and logs, and that time
  passing keeps, is kept by everything in this theory.
\<close>

definition db_stable :: "('z dbnet_scheme \<Rightarrow> bool) \<Rightarrow> bool" where
  "db_stable I \<longleftrightarrow> (\<forall>w q l c cl (t::nat). I w \<longrightarrow>
     I (w\<lparr>d_sql := q, d_log := l, d_cmds := c, d_cmdlog := cl, n_clock := n_clock w + int t\<rparr>))"

lemma db_stableD:
  "db_stable I \<Longrightarrow> I w \<Longrightarrow>
   I (w\<lparr>d_sql := q, d_log := l, d_cmds := c, d_cmdlog := cl, n_clock := n_clock w + int t\<rparr>)"
  unfolding db_stable_def by blast

lemma keeps_sql_call [hoare]: "db_stable I \<Longrightarrow> keeps I (sql_call s)"
proof
  fix w assume I: "db_stable I" "I w"
  have *: "I (w\<lparr>d_sql := q, d_log := l, n_clock := n_clock w + int t\<rparr>)" for q l and t :: nat
    using db_stableD [OF I, where c = "d_cmds w" and cl = "d_cmdlog w"] by simp
  show "I (final_world (sql_call s w))"
    using * * [where q = "d_sql w" and t = 0] by (auto simp: sql_call_def split: list.split sql_reply.split)
qed

lemma keeps_run_command [hoare]: "db_stable I \<Longrightarrow> keeps I (run_command c)"
proof
  fix w assume I: "db_stable I" "I w"
  have *: "I (w\<lparr>d_cmds := q, d_cmdlog := l, n_clock := n_clock w + int t\<rparr>)" for q l and t :: nat
    using db_stableD [OF I, where q = "d_sql w" and l = "d_log w"] by simp
  show "I (final_world (run_command c w))"
    using * * [where q = "d_cmds w" and t = 0] by (auto simp: run_command_def split: list.split cmd_reply.split)
qed

lemmas db_primitives = db_Query_def db_Exec_def Select1_def mysql_GetServerUUID_def GetSlaveStatus_def
  GetMasterStatus_def mysql_SetReadOnly_def mysql_SetReadWrite_def mysql_PromoteToMaster_def
  mysql_RedirectMaster_def GetRunningProcesses_def GetRunningDDLCount_def KillProcess_def
  WaitCatchMaster_def ReloadConf_def GetCurrentLSN_def GetLastReplayLSN_def Checkpoint_def

lemma keeps_mysql [hoare]:
  assumes "db_stable I"
  shows "keeps I (db_Query s)" "keeps I (db_Exec s)" "keeps I Select1" "keeps I mysql_GetServerUUID"
    "keeps I GetSlaveStatus" "keeps I GetMasterStatus" "keeps I mysql_SetReadOnly"
    "keeps I mysql_SetReadWrite" "keeps I mysql_PromoteToMaster" "keeps I (mysql_RedirectMaster u p h q)"
    "keeps I GetRunningProcesses" "keeps I GetRunningDDLCount" "keeps I (KillProcess s)"
    "keeps I (WaitCatchMaster s)" "keeps I ReloadConf" "keeps I GetCurrentLSN" "keeps I GetLastReplayLSN"
    "keeps I Checkpoint"
  unfolding db_primitives by (intro hoare assms)+

end
