(* ===== verification/Service_Manager.thy ===== *)
theory Service_Manager
  imports Moha_Mysql
begin

text \<open>
  \<open>src/agent/service_manager.go\<close> and \<open>src/agent/postgresql_service_manager.go\<close>: the
  \<open>ServiceManager\<close> interface and its two implementations. The field \<open>readonly\<close> of the manager is
  \<^const>\<open>d_readonly\<close> of the world. The locale \<open>service_contract\<close> states what the agent relies on of the
  interface; it is interpreted on both implementations and on the dispatch between them.
\<close>

section \<open>Data\<close>

record Position =
  pos_File :: string
  pos_Pos :: string
  pos_GTID :: string
  pos_UUID :: string
  pos_EndTxnID :: u64
  pos_SlaveIORunning :: bool
  pos_SlaveSQLRunning :: bool
  pos_SecondsBehindMaster :: int

definition zero_Position :: Position where
  "zero_Position = \<lparr>pos_File = [], pos_Pos = [], pos_GTID = [], pos_UUID = [], pos_EndTxnID = 0,
     pos_SlaveIORunning = False, pos_SlaveSQLRunning = False, pos_SecondsBehindMaster = 0\<rparr>"

datatype service_manager =
    MysqlSM (sm_mysqlNet: string) (sm_replicationUser: string) (sm_replicationPassword: string)
  | PgSM (sm_replicationUser: string) (sm_replicationPassword: string) (sm_uniqueID: string)

section \<open>MySQL\<close>

lemma sql_call_clock: "n_clock w \<le> n_clock (final_world (sql_call s w))"
  by (simp add: sql_call_def split: list.split sql_reply.split)

lemma Select1_clock: "Select1 w = Ret r w' \<Longrightarrow> n_clock w \<le> n_clock w'"
  using sql_call_clock [of w "''SELECT 1;''"]
  by (auto simp: Select1_def db_Query_def elim!: andthen_RetE)

text \<open>
  The connection loop. What the driver says of a data source name is the argument \<open>sql_open\<close>.
\<close>

function connect_loop ::
  "(string \<Rightarrow> error option) \<Rightarrow> string \<Rightarrow> string \<Rightarrow> int \<Rightarrow> int \<Rightarrow> 'z dbnet_scheme \<Rightarrow> ('z dbnet_scheme, error option) outcome" where
  "connect_loop sql_open dsn user timeout start w =
     (if n_clock w - start > timeout then Ret (Some (EMsg (''timeout to connect by user '' @ user))) w
      else case sql_open dsn of
             Some _ \<Rightarrow> connect_loop sql_open dsn user timeout start (w\<lparr>n_clock := n_clock w + 100 * time_Millisecond\<rparr>)
           | None \<Rightarrow>
             (case Select1 w of
                Ret (Some _) w' \<Rightarrow>
                  connect_loop sql_open dsn user timeout start (w'\<lparr>n_clock := n_clock w' + 100 * time_Millisecond\<rparr>)
              | Ret None w' \<Rightarrow> Ret None w'
              | Exit c w' \<Rightarrow> Exit c w'
              | Panic w' \<Rightarrow> Panic w'
              | Wait w' \<Rightarrow> Wait w'))"
  by pat_completeness auto

termination
proof (relation "measure (\<lambda>(_, _, _, timeout, start, w). nat (start + timeout + 1 - n_clock w))")
qed (auto simp: time_Millisecond_def dest!: Select1_clock)

declare connect_loop.simps [simp del]

definition NewMySQLServiceManager ::
  "(string \<Rightarrow> error option) \<Rightarrow> db_config \<Rightarrow> int \<Rightarrow> ('z dbnet_scheme, error + service_manager) io" where
  "NewMySQLServiceManager sql_open cfg timeout =
     andthen (\<lambda>w. connect_loop sql_open (mysql_dsn cfg) (db_User cfg) timeout (n_clock w) w) (\<lambda>err.
       case err of
         Some e \<Rightarrow> ret (Inl e)
       | None \<Rightarrow>
           andthen (updates (\<lambda>w. w\<lparr>d_readonly := 0\<rparr>)) (\<lambda>_.
             ret (Inr (MysqlSM (db_ReplicationNet cfg) (db_ReplicationUser cfg) (db_ReplicationPassword cfg)))))"

definition IsReadOnly :: "'z dbnet_scheme \<Rightarrow> bool" where
  "IsReadOnly w \<longleftrightarrow> d_readonly w = 1"

definition store_readonly :: "int \<Rightarrow> error option \<Rightarrow> ('z dbnet_scheme, error option) io" where
  "store_readonly v err =
     (if err \<noteq> None then ret err
      else andthen (updates (\<lambda>w. w\<lparr>d_readonly := v\<rparr>)) (\<lambda>_. ret None))"

definition mysqlSM_SetReadOnly :: "('z dbnet_scheme, error option) io" where
  "mysqlSM_SetReadOnly = andthen mysql_SetReadOnly (store_readonly 1)"

definition mysqlSM_SetReadWrite :: "('z dbnet_scheme, error option) io" where
  "mysqlSM_SetReadWrite = andthen mysql_SetReadWrite (store_readonly 0)"

definition rollbackReadOnly :: "error \<Rightarrow> ('z dbnet_scheme, error option) io" where
  "rollbackReadOnly readonlyErr =
     andthen mysqlSM_SetReadWrite (\<lambda>anotherErr.
       ret (Some (case anotherErr of None \<Rightarrow> readonlyErr | Some e \<Rightarrow> e)))"

definition mysqlSM_SetReadOnlyManually :: "('z dbnet_scheme, bool \<times> error option) io" where
  "mysqlSM_SetReadOnlyManually =
     andthen GetRunningDDLCount (\<lambda>ddl. case ddl of
       Inl e \<Rightarrow> ret (False, Some e)
     | Inr n \<Rightarrow>
         if n \<noteq> 0 then ret (False, Some (EMsg ''has running ddl before setting readonly''))
         else andthen mysqlSM_SetReadOnly (\<lambda>err. case err of
           Some e \<Rightarrow> andthen (rollbackReadOnly e) (\<lambda>r. ret (False, r))
         | None \<Rightarrow>
             andthen GetRunningDDLCount (\<lambda>ddl. case ddl of
               Inl e \<Rightarrow> andthen (rollbackReadOnly e) (\<lambda>r. ret (False, r))
             | Inr n \<Rightarrow>
                 if n \<noteq> 0 then
                   andthen (rollbackReadOnly (EMsg ''has running ddl after setting readonly'')) (\<lambda>r. ret (False, r))
                 else ret (True, None))))"

definition mysqlSM_LoadMasterStatusFromDB :: "('z dbnet_scheme, error + Position) io" where
  "mysqlSM_LoadMasterStatusFromDB =
     andthen GetMasterStatus (\<lambda>st. case st of
       Inl e \<Rightarrow> ret (Inl e)
     | Inr ((name, pos), gtidSet) \<Rightarrow>
         andthen mysql_GetServerUUID (\<lambda>u. case u of
           Inl e \<Rightarrow> ret (Inl (EMsg (''fail to get server UUID '' @ error_msg e)))
         | Inr uuid \<Rightarrow>
             (case GetTxnIDFromGTIDStr (gtid_String gtidSet) uuid of
                Inl e \<Rightarrow> ret (Inl (EMsg (''error when GetTxnIDFromGTIDStr '' @ error_msg e)))
              | Inr n \<Rightarrow> ret (Inr (zero_Position\<lparr>pos_File := name, pos_Pos := show_nat pos,
                            pos_GTID := gtid_String gtidSet, pos_UUID := uuid, pos_EndTxnID := of_int n\<rparr>)))))"

text \<open>The global \<open>latestPos\<close> supplies the UUID and the last known delay.\<close>

definition slave_position :: "Position \<Rightarrow> (string \<times> string) list \<Rightarrow> error + Position" where
  "slave_position latestPos rSet =
     (if status_get rSet ''Relay_Master_Log_File'' = [] then Inl (EMsg ''do not have Relay_Master_Log_File'')
      else
        let behind = status_get rSet ''Seconds_Behind_Master'';
            sbm = (if behind = [] then 0
                   else case atoi behind of None \<Rightarrow> pos_SecondsBehindMaster latestPos | Some n \<Rightarrow> n);
            p = zero_Position\<lparr>pos_File := status_get rSet ''Relay_Master_Log_File'',
                  pos_Pos := status_get rSet ''Exec_Master_Log_Pos'',
                  pos_GTID := status_get rSet ''Executed_Gtid_Set'',
                  pos_UUID := pos_UUID latestPos,
                  pos_SecondsBehindMaster := sbm,
                  pos_SlaveSQLRunning := (status_get rSet ''Slave_SQL_Running'' = ''Yes''),
                  pos_SlaveIORunning := (status_get rSet ''Slave_IO_Running'' = ''Yes'')\<rparr>
        in if status_get rSet ''Master_UUID'' \<noteq> [] then
             (case GetTxnIDFromGTIDStr (pos_GTID p) (status_get rSet ''Master_UUID'') of
                Inl e \<Rightarrow> Inl (EMsg (''error when GetTxnIDFromGTIDStr '' @ error_msg e))
              | Inr n \<Rightarrow> Inr (p\<lparr>pos_EndTxnID := of_int n\<rparr>))
           else Inr p)"

definition mysqlSM_LoadSlaveStatusFromDB :: "Position \<Rightarrow> ('z dbnet_scheme, error + Position) io" where
  "mysqlSM_LoadSlaveStatusFromDB latestPos =
     andthen GetSlaveStatus (\<lambda>r. ret (case r of Inl e \<Rightarrow> Inl e | Inr rSet \<Rightarrow> slave_position latestPos rSet))"

type_synonym repl_info = "string \<times> string \<times> u64"

definition mysqlSM_LoadReplicationInfoOfSlave :: "('z dbnet_scheme, error + repl_info) io" where
  "mysqlSM_LoadReplicationInfoOfSlave =
     andthen GetSlaveStatus (\<lambda>r. ret (case r of
       Inl e \<Rightarrow> Inl e
     | Inr rSet \<Rightarrow>
         if status_get rSet ''Master_UUID'' = [] then Inl (EMsg ''do not have Master_UUID'')
         else case GetTxnIDFromGTIDStr (status_get rSet ''Executed_Gtid_Set'') (status_get rSet ''Master_UUID'') of
                Inl e \<Rightarrow> Inl e
              | Inr n \<Rightarrow> Inr (status_get rSet ''Master_UUID'', status_get rSet ''Executed_Gtid_Set'', of_int n)))"

definition mysqlSM_LoadReplicationInfoOfMaster :: "('z dbnet_scheme, error + repl_info) io" where
  "mysqlSM_LoadReplicationInfoOfMaster =
     andthen GetMasterStatus (\<lambda>st. case st of
       Inl e \<Rightarrow> ret (Inl e)
     | Inr (_, gtidSet) \<Rightarrow>
         andthen mysql_GetServerUUID (\<lambda>u. ret (case u of
           Inl e \<Rightarrow> Inl e
         | Inr uuid \<Rightarrow>
             (case GetTxnIDFromGTIDStr (gtid_String gtidSet) uuid of
                Inl e \<Rightarrow> Inl e
              | Inr n \<Rightarrow> Inr (uuid, gtid_String gtidSet, of_int n)))))"

section \<open>PostgreSQL\<close>

definition NewPostgreSQLServiceManager ::
  "(string \<Rightarrow> error option) \<Rightarrow> db_config \<Rightarrow> int \<Rightarrow> ('z dbnet_scheme, error + service_manager) io" where
  "NewPostgreSQLServiceManager sql_open cfg timeout =
     andthen (\<lambda>w. connect_loop sql_open (pg_dsn cfg) (db_User cfg) timeout (n_clock w) w) (\<lambda>err.
       case err of
         Some e \<Rightarrow> ret (Inl e)
       | None \<Rightarrow>
           andthen (updates (\<lambda>w. w\<lparr>d_readonly := 0\<rparr>)) (\<lambda>_.
             ret (Inr (PgSM (db_ReplicationUser cfg) (db_ReplicationPassword cfg) []))))"

definition pg_conf :: string where
  "pg_conf = ''/var/lib/postgresql/data/postgresql.conf''"

definition pgSM_SetReadOnly :: "('z dbnet_scheme, error option) io" where
  "pgSM_SetReadOnly =
     andthen (run_command [''sed'', ''-i'',
         ''s/default_transaction_read_only = off/default_transaction_read_only = on/'', pg_conf]) (\<lambda>_.
     andthen ReloadConf (store_readonly 1))"

definition pgSM_SetReadWrite :: "('z dbnet_scheme, error option) io" where
  "pgSM_SetReadWrite =
     andthen (run_command [''sed'', ''-i'',
         ''s/default_transaction_read_only = on/default_transaction_read_only = off/'', pg_conf]) (\<lambda>_.
     andthen ReloadConf (store_readonly 0))"

text \<open>
  The distributed lock: when it cannot be created the work goes on without it; when locking or
  unlocking fails, the locker panics.
\<close>

definition locker_op :: "string \<Rightarrow> ('z dbnet_scheme, unit) io" where
  "locker_op name = andthen (run_command [name]) (\<lambda>err. if err \<noteq> None then go_panic else ret ())"

definition with_locker :: "('z dbnet_scheme, 'a) io \<Rightarrow> ('z dbnet_scheme, 'a) io" where
  "with_locker body =
     andthen (run_command [''NewLocker'']) (\<lambda>err.
       if err \<noteq> None then body
       else andthen (locker_op ''Lock'') (\<lambda>_.
            andthen body (\<lambda>r.
            andthen (locker_op ''Unlock'') (\<lambda>_. ret r))))"

definition pgSM_PromoteToMaster :: "('z dbnet_scheme, error option) io" where
  "pgSM_PromoteToMaster =
     with_locker (andthen Checkpoint (\<lambda>_. run_command [''pg_ctl'', ''promote'']))"

definition redirectTemplate :: "string \<Rightarrow> string \<Rightarrow> string \<Rightarrow> string \<Rightarrow> string" where
  "redirectTemplate user password host port =
     ''standby_mode = '' @ [CHR 0x27] @ ''on'' @ [CHR 0x27, CHR 0x0A] @
     ''primary_conninfo = '' @ [CHR 0x27] @ ''user='' @ user @ '' password='' @ password @ '' host='' @ host @
     '' port='' @ port @ [CHR 0x27, CHR 0x0A] @
     ''recovery_target_timeline = '' @ [CHR 0x27] @ ''latest'' @ [CHR 0x27, CHR 0x0A]"

definition recovery_conf :: string where
  "recovery_conf = ''/var/lib/postgresql/data/recovery.conf''"

definition pg_start :: "('z dbnet_scheme, error option) io" where
  "pg_start = run_command [''pg_ctl'', ''start'', ''--log=/var/lib/postgresql/data/pg_ctl.log'', ''--timeout=10'']"

definition pgSM_RedirectMaster :: "string \<Rightarrow> string \<Rightarrow> string \<Rightarrow> string \<Rightarrow> ('z dbnet_scheme, error option) io" where
  "pgSM_RedirectMaster user password masterHost masterPort =
     with_locker (
       andthen (run_command [''pg_ctl'', ''stop'']) (\<lambda>_.
       andthen (run_command [''pg_rewind'', ''--target-pgdata=/var/lib/postgresql/data'',
           ''--source-server=host='' @ masterHost @ '' port='' @ masterPort @ '' user=postgres dbname=postgres'']) (\<lambda>err.
       if err \<noteq> None then
         andthen (run_command [''os.RemoveAll'', ''/var/lib/postgresql/data'']) (\<lambda>_.
         andthen (run_command [''pg_basebackup'', ''--write-recovery-conf'', ''--pgdata=/var/lib/postgresql/data'',
             ''--wal-method=fetch'', ''--username='' @ user, ''--host='' @ masterHost, ''--port='' @ masterPort,
             ''--progress'', ''--verbose'']) (\<lambda>_.
         pg_start))
       else
         andthen (run_command [''ioutil.WriteFile'', recovery_conf,
             redirectTemplate user password masterHost masterPort]) (\<lambda>err.
         andthen (run_command [''chown'', ''postgres'', recovery_conf]) (\<lambda>_.
         andthen (run_command [''chown'', '':postgres'', recovery_conf]) (\<lambda>_.
         if err \<noteq> None then ret err else pg_start))))))"

definition pgSM_SetReadOnlyManually :: "('z dbnet_scheme, bool \<times> error option) io" where
  "pgSM_SetReadOnlyManually =
     andthen pgSM_SetReadOnly (\<lambda>err. ret (if err \<noteq> None then (False, err) else (True, None)))"

definition pgSM_LoadMasterStatusFromDB :: "string \<Rightarrow> ('z dbnet_scheme, error + Position) io" where
  "pgSM_LoadMasterStatusFromDB uniqueID =
     andthen GetCurrentLSN (\<lambda>r. ret (case r of
       Inl e \<Rightarrow> Inl e
     | Inr lsn \<Rightarrow> Inr (zero_Position\<lparr>pos_EndTxnID := lsn, pos_UUID := uniqueID\<rparr>)))"

definition pgSM_LoadSlaveStatusFromDB :: "string \<Rightarrow> ('z dbnet_scheme, error + Position) io" where
  "pgSM_LoadSlaveStatusFromDB uniqueID =
     andthen GetLastReplayLSN (\<lambda>r. ret (case r of
       Inl e \<Rightarrow> Inl e
     | Inr lsn \<Rightarrow> Inr (zero_Position\<lparr>pos_EndTxnID := lsn, pos_UUID := uniqueID,
                        pos_SlaveIORunning := True, pos_SlaveSQLRunning := True\<rparr>)))"

definition pgSM_LoadReplicationInfoOfSlave :: "string \<Rightarrow> ('z dbnet_scheme, error + repl_info) io" where
  "pgSM_LoadReplicationInfoOfSlave uniqueID =
     andthen GetLastReplayLSN (\<lambda>r. ret (case r of Inl e \<Rightarrow> Inl e | Inr lsn \<Rightarrow> Inr (uniqueID, [], lsn)))"

definition pgSM_LoadReplicationInfoOfMaster :: "string \<Rightarrow> ('z dbnet_scheme, error + repl_info) io" where
  "pgSM_LoadReplicationInfoOfMaster uniqueID =
     andthen GetCurrentLSN (\<lambda>r. ret (case r of Inl e \<Rightarrow> Inl e | Inr lsn \<Rightarrow> Inr (uniqueID, [], lsn)))"

section \<open>The interface\<close>

fun sm_SetReadOnly :: "service_manager \<Rightarrow> ('z dbnet_scheme, error option) io" where
  "sm_SetReadOnly (MysqlSM _ _ _) = mysqlSM_SetReadOnly"
| "sm_SetReadOnly (PgSM _ _ _) = pgSM_SetReadOnly"

fun sm_SetReadWrite :: "service_manager \<Rightarrow> ('z dbnet_scheme, error option) io" where
  "sm_SetReadWrite (MysqlSM _ _ _) = mysqlSM_SetReadWrite"
| "sm_SetReadWrite (PgSM _ _ _) = pgSM_SetReadWrite"

fun sm_PromoteToMaster :: "service_manager \<Rightarrow> ('z dbnet_scheme, error option) io" where
  "sm_PromoteToMaster (MysqlSM _ _ _) = mysql_PromoteToMaster"
| "sm_PromoteToMaster (PgSM _ _ _) = pgSM_PromoteToMaster"

fun sm_RedirectMaster :: "service_manager \<Rightarrow> string \<Rightarrow> string \<Rightarrow> ('z dbnet_scheme, error option) io" where
  "sm_RedirectMaster (MysqlSM _ user password) host port = mysql_RedirectMaster user password host port"
| "sm_RedirectMaster (PgSM user password _) host port = pgSM_RedirectMaster user password host port"

fun sm_SetReadOnlyManually :: "service_manager \<Rightarrow> ('z dbnet_scheme, bool \<times> error option) io" where
  "sm_SetReadOnlyManually (MysqlSM _ _ _) = mysqlSM_SetReadOnlyManually"
| "sm_SetReadOnlyManually (PgSM _ _ _) = pgSM_SetReadOnlyManually"

fun sm_LoadMasterStatusFromDB :: "service_manager \<Rightarrow> ('z dbnet_scheme, error + Position) io" where
  "sm_LoadMasterStatusFromDB (MysqlSM _ _ _) = mysqlSM_LoadMasterStatusFromDB"
| "sm_LoadMasterStatusFromDB (PgSM _ _ u) = pgSM_LoadMasterStatusFromDB u"

fun sm_LoadSlaveStatusFromDB :: "service_manager \<Rightarrow> Position \<Rightarrow> ('z dbnet_scheme, error + Position) io" where
  "sm_LoadSlaveStatusFromDB (MysqlSM _ _ _) latestPos = mysqlSM_LoadSlaveStatusFromDB latestPos"
| "sm_LoadSlaveStatusFromDB (PgSM _ _ u) latestPos = pgSM_LoadSlaveStatusFromDB u"

fun sm_LoadReplicationInfoOfSlave :: "service_manager \<Rightarrow> ('z dbnet_scheme, error + repl_info) io" where
  "sm_LoadReplicationInfoOfSlave (MysqlSM _ _ _) = mysqlSM_LoadReplicationInfoOfSlave"
| "sm_LoadReplicationInfoOfSlave (PgSM _ _ u) = pgSM_LoadReplicationInfoOfSlave u"

fun sm_LoadReplicationInfoOfMaster :: "service_manager \<Rightarrow> ('z dbnet_scheme, error + repl_info) io" where
  "sm_LoadReplicationInfoOfMaster (MysqlSM _ _ _) = mysqlSM_LoadReplicationInfoOfMaster"
| "sm_LoadReplicationInfoOfMaster (PgSM _ _ u) = pgSM_LoadReplicationInfoOfMaster u"

fun sm_GetServerUUID :: "service_manager \<Rightarrow> ('z dbnet_scheme, error + string) io" where
  "sm_GetServerUUID (MysqlSM _ _ _) = mysql_GetServerUUID"
| "sm_GetServerUUID (PgSM _ _ u) = ret (Inr u)"

section \<open>What the agent relies on\<close>

text \<open>
  The contract of \<open>ServiceManager\<close>: a successful \<open>SetReadOnly\<close> or \<open>SetReadWrite\<close> is reflected by
  \<open>IsReadOnly\<close>, a failed \<open>SetReadWrite\<close> changes nothing there, and promotion and redirection leave it
  alone.
\<close>

locale service_contract =
  fixes isRO :: "'w \<Rightarrow> bool"
    and setRO setRW promote :: "('w, error option) io"
    and redirect :: "string \<Rightarrow> string \<Rightarrow> ('w, error option) io"
    and manual :: "('w, bool \<times> error option) io"
  assumes setRO_nil: "setRO w = Ret None w' \<Longrightarrow> isRO w'"
    and setRO_keeps: "keeps isRO setRO"
    and setRW_nil: "setRW w = Ret None w' \<Longrightarrow> \<not> isRO w'"
    and setRW_err: "setRW w = Ret (Some e) w' \<Longrightarrow> isRO w' = isRO w"
    and promote_flag: "keeps (\<lambda>w. isRO w = b) promote"
    and redirect_flag: "keeps (\<lambda>w. isRO w = b) (redirect h p)"
    and manual_true: "manual w = Ret (True, err) w' \<Longrightarrow> err = None \<and> isRO w'"
    and manual_false: "manual w = Ret (False, err) w' \<Longrightarrow> err \<noteq> None"
begin

lemma readonly_or_exit:
  "andthen setRO (\<lambda>err. if err \<noteq> None then os_Exit c else ret ()) w = Ret u w' \<Longrightarrow> isRO w'"
  by (auto elim!: andthen_RetE split: if_splits dest: setRO_nil)

lemma demote_keeps: "keeps isRO (andthen setRO (\<lambda>_. redirect h p))"
proof -
  have "keeps isRO (redirect h p)" using redirect_flag [of True] by simp
  then show ?thesis by (intro keeps_andthen setRO_keeps)
qed

lemma promote_opens: "andthen promote (\<lambda>_. setRW) w = Ret None w' \<Longrightarrow> \<not> isRO w'"
  by (auto elim!: andthen_RetE dest: setRW_nil)

lemma promote_failure: "andthen promote (\<lambda>_. setRW) w = Ret (Some e) w' \<Longrightarrow> isRO w' = isRO w"
  using keeps_RetD [OF promote_flag [of "isRO w"] refl] by (auto elim!: andthen_RetE dest!: setRW_err)

end

text \<open>
  A service whose \<open>SetReadOnly\<close> also closes the database: \<open>closed\<close> is a property of what was sent to
  the database and acknowledged by it, not of the agent's own flag.
\<close>

locale closing_service = service_contract +
  fixes closed :: "'w \<Rightarrow> bool"
  assumes setRO_closes: "setRO w = Ret None w' \<Longrightarrow> closed w'"
    and setRO_closed: "keeps closed setRO"
    and promote_closed: "keeps closed promote"
    and redirect_closed: "keeps closed (redirect h p)"
begin

lemma demoted_closed:
  assumes "andthen setRO (\<lambda>err. if err \<noteq> None then os_Exit c else redirect h p) w = Ret e w'"
  shows "closed w' \<and> isRO w'"
proof -
  from assms obtain w1 where "setRO w = Ret None w1" "redirect h p w1 = Ret e w'"
    by (auto elim!: andthen_RetE split: if_splits)
  moreover from this have "closed w1" "isRO w1" by (auto dest: setRO_closes setRO_nil)
  ultimately show ?thesis
    using keeps_RetD [OF redirect_closed] keeps_RetD [OF redirect_flag [of True]] by auto
qed

end

section \<open>The two implementations satisfy the contract\<close>

lemma db_stable_flag: "db_stable (\<lambda>w. IsReadOnly w = b)"
  by (simp add: db_stable_def IsReadOnly_def)

lemma store_readonly_Ret:
  "store_readonly v err w = Ret r w' \<longleftrightarrow> r = err \<and> w' = (if err = None then w\<lparr>d_readonly := v\<rparr> else w)"
  by (auto simp: store_readonly_def)

lemma keeps_store_readonly: "keeps IsReadOnly (store_readonly 1 e)"
  by (auto simp: store_readonly_def IsReadOnly_def intro!: hoare)

lemma keeps_with_locker [hoare]: "db_stable I \<Longrightarrow> keeps I m \<Longrightarrow> keeps I (with_locker m)"
  unfolding with_locker_def locker_op_def by (intro hoare)

lemma keeps_pg [hoare]:
  assumes "db_stable I"
  shows "keeps I pgSM_PromoteToMaster" "keeps I (pgSM_RedirectMaster u p h q)"
  unfolding pgSM_PromoteToMaster_def pgSM_RedirectMaster_def pg_start_def by (intro hoare assms)+

lemma setRW_flag:
  assumes "keeps (\<lambda>w. IsReadOnly w = IsReadOnly w0) m" and "andthen m (store_readonly 0) w0 = Ret (Some e) w'"
  shows "IsReadOnly w' = IsReadOnly w0"
  using assms(2) keeps_RetD [OF assms(1) refl] by (auto elim!: andthen_RetE simp: store_readonly_Ret)

lemma GetRunningDDLCount_flag: "GetRunningDDLCount w = Ret r w' \<Longrightarrow> IsReadOnly w' = IsReadOnly w"
  using keeps_RetD [OF keeps_mysql(12) [OF db_stable_flag [of "IsReadOnly w"]]] by blast

interpretation mysql_contract: service_contract IsReadOnly mysqlSM_SetReadOnly mysqlSM_SetReadWrite
  mysql_PromoteToMaster "mysql_RedirectMaster u p" mysqlSM_SetReadOnlyManually
proof
  show "keeps IsReadOnly mysqlSM_SetReadOnly"
    unfolding mysqlSM_SetReadOnly_def using db_stable_flag [of True]
    by (auto intro: keeps_andthen keeps_mysql keeps_store_readonly)
next
  fix w w' e assume "mysqlSM_SetReadWrite w = Ret (Some e) w'"
  then show "IsReadOnly w' = IsReadOnly w"
    unfolding mysqlSM_SetReadWrite_def by (rule setRW_flag [rotated]) (intro hoare db_stable_flag)
next
  fix w w' e assume "mysqlSM_SetReadOnlyManually w = Ret (True, e) w'"
  then obtain w1 where "GetRunningDDLCount (w1\<lparr>d_readonly := 1\<rparr>) = Ret (Inr 0) w'" "e = None"
    by (auto simp: mysqlSM_SetReadOnlyManually_def mysqlSM_SetReadOnly_def store_readonly_Ret
        elim!: andthen_RetE split: sum.splits option.splits if_splits)
  then show "e = None \<and> IsReadOnly w'" by (auto simp: IsReadOnly_def dest!: GetRunningDDLCount_flag)
next
  fix w w' e assume "mysqlSM_SetReadOnlyManually w = Ret (False, e) w'"
  then show "e \<noteq> None"
    by (auto simp: mysqlSM_SetReadOnlyManually_def rollbackReadOnly_def
        elim!: andthen_RetE split: sum.splits option.splits if_splits)
next
  fix w w' assume "mysqlSM_SetReadOnly w = Ret None w'"
  then show "IsReadOnly w'"
    by (auto simp: mysqlSM_SetReadOnly_def store_readonly_Ret IsReadOnly_def elim!: andthen_RetE)
next
  fix w w' assume "mysqlSM_SetReadWrite w = Ret None w'"
  then show "\<not> IsReadOnly w'"
    by (auto simp: mysqlSM_SetReadWrite_def store_readonly_Ret IsReadOnly_def elim!: andthen_RetE)
qed (intro hoare db_stable_flag)+

interpretation pg_contract: service_contract IsReadOnly pgSM_SetReadOnly pgSM_SetReadWrite
  pgSM_PromoteToMaster "pgSM_RedirectMaster u p" pgSM_SetReadOnlyManually
proof
  show k: "keeps IsReadOnly pgSM_SetReadOnly"
    unfolding pgSM_SetReadOnly_def using db_stable_flag [of True]
    by (auto intro: keeps_andthen keeps_mysql keeps_run_command keeps_store_readonly)
next
  fix w w' e assume "pgSM_SetReadWrite w = Ret (Some e) w'"
  then show "IsReadOnly w' = IsReadOnly w"
    unfolding pgSM_SetReadWrite_def andthen_assoc [symmetric]
    by (rule setRW_flag [rotated]) (intro hoare db_stable_flag)
next
  fix w w' assume "pgSM_SetReadOnly w = Ret None w'"
  then show *: "IsReadOnly w'"
    by (auto simp: pgSM_SetReadOnly_def store_readonly_Ret IsReadOnly_def elim!: andthen_RetE)
next
  fix w w' assume "pgSM_SetReadWrite w = Ret None w'"
  then show "\<not> IsReadOnly w'"
    by (auto simp: pgSM_SetReadWrite_def store_readonly_Ret IsReadOnly_def elim!: andthen_RetE)
next
  fix w w' e assume "pgSM_SetReadOnlyManually w = Ret (True, e) w'"
  then show "e = None \<and> IsReadOnly w'"
    by (auto simp: pgSM_SetReadOnlyManually_def pgSM_SetReadOnly_def store_readonly_Ret IsReadOnly_def
        elim!: andthen_RetE split: if_splits)
next
  fix w w' e assume "pgSM_SetReadOnlyManually w = Ret (False, e) w'"
  then show "e \<noteq> None"
    by (auto simp: pgSM_SetReadOnlyManually_def elim!: andthen_RetE split: if_splits)
qed (intro hoare db_stable_flag)+

text \<open>The manager the agent holds is one of the two.\<close>

lemma sm_RedirectMaster_eq:
  "sm_RedirectMaster (MysqlSM n u p) = mysql_RedirectMaster u p"
  "sm_RedirectMaster (PgSM u p i) = pgSM_RedirectMaster u p"
  by (intro ext, simp)+

interpretation svc: service_contract IsReadOnly "sm_SetReadOnly sm" "sm_SetReadWrite sm"
  "sm_PromoteToMaster sm" "sm_RedirectMaster sm" "sm_SetReadOnlyManually sm"
proof (cases sm)
  case (MysqlSM n u p)
  show "service_contract IsReadOnly (sm_SetReadOnly sm) (sm_SetReadWrite sm) (sm_PromoteToMaster sm)
      (sm_RedirectMaster sm) (sm_SetReadOnlyManually sm)"
    unfolding MysqlSM sm_RedirectMaster_eq sm_SetReadOnly.simps sm_SetReadWrite.simps
      sm_PromoteToMaster.simps sm_SetReadOnlyManually.simps
    by (rule mysql_contract.service_contract_axioms)
next
  case (PgSM u p i)
  show "service_contract IsReadOnly (sm_SetReadOnly sm) (sm_SetReadWrite sm) (sm_PromoteToMaster sm)
      (sm_RedirectMaster sm) (sm_SetReadOnlyManually sm)"
    unfolding PgSM sm_RedirectMaster_eq sm_SetReadOnly.simps sm_SetReadWrite.simps
      sm_PromoteToMaster.simps sm_SetReadOnlyManually.simps
    by (rule pg_contract.service_contract_axioms)
qed

section \<open>What MySQL was told\<close>

text \<open>
  MySQL is closed for writing when, since the last statement that opened it was sent, it
  acknowledged both read-only statements.
\<close>

definition opens_db :: "string \<Rightarrow> bool" where
  "opens_db s \<longleftrightarrow> s = ''SET GLOBAL read_only = 0;'' \<or> s = ''SET GLOBAL super_read_only = 0;''"

definition since_open :: "stmt_log \<Rightarrow> stmt_log" where
  "since_open l = takeWhile (\<lambda>e. \<not> opens_db (fst e)) l"

definition db_closed :: "stmt_log \<Rightarrow> bool" where
  "db_closed l \<longleftrightarrow> (''SET GLOBAL super_read_only = 1;'', True) \<in> set (since_open l) \<and>
     (''SET GLOBAL read_only = 1;'', True) \<in> set (since_open l)"

abbreviation log_closed :: "'z dbnet_scheme \<Rightarrow> bool" where
  "log_closed w \<equiv> db_closed (d_log w)"

lemma db_closed_Cons: "db_closed l \<Longrightarrow> \<not> opens_db s \<Longrightarrow> db_closed ((s, b) # l)"
  by (simp add: db_closed_def since_open_def)

lemma keeps_closed_sql [hoare]: "\<not> opens_db s \<Longrightarrow> keeps log_closed (sql_call s)"
  by (rule keepsI) (simp add: sql_call_def db_closed_Cons split: list.split sql_reply.split)

lemma keeps_closed_exec [hoare]: "\<not> opens_db s \<Longrightarrow> keeps log_closed (db_Exec s)"
  unfolding db_Exec_def by (intro hoare)

lemma not_opens_db: "\<not> opens_db ''STOP SLAVE;''" "\<not> opens_db ''START SLAVE;''"
  "\<not> opens_db ''SET GLOBAL super_read_only = 1;''" "\<not> opens_db ''SET GLOBAL read_only = 1;''"
  "\<not> opens_db (change_master_sql u p h q)"
  by (simp_all add: opens_db_def change_master_sql_def)

lemma db_Exec_nil: "db_Exec s w = Ret None w' \<Longrightarrow> d_log w' = (s, True) # d_log w"
  by (auto simp: db_Exec_def sql_call_def elim!: andthen_RetE split: list.splits sql_reply.splits option.splits)

lemma mysql_SetReadOnly_closes:
  assumes "mysql_SetReadOnly w = Ret None w'"
  shows "log_closed w'"
proof -
  from assms obtain w1 where "db_Exec ''SET GLOBAL super_read_only = 1;'' w = Ret None w1"
    "db_Exec ''SET GLOBAL read_only = 1;'' w1 = Ret None w'"
    by (auto simp: mysql_SetReadOnly_def elim!: andthen_RetE split: if_splits)
  then have "d_log w' = (''SET GLOBAL read_only = 1;'', True) # (''SET GLOBAL super_read_only = 1;'', True) # d_log w"
    by (simp add: db_Exec_nil)
  then show ?thesis by (simp add: db_closed_def since_open_def not_opens_db)
qed

interpretation mysql_closing: closing_service IsReadOnly mysqlSM_SetReadOnly mysqlSM_SetReadWrite
  mysql_PromoteToMaster "mysql_RedirectMaster u p" mysqlSM_SetReadOnlyManually log_closed
proof
  fix w w' assume "mysqlSM_SetReadOnly w = Ret None w'"
  then obtain w1 where "mysql_SetReadOnly w = Ret None w1" "w' = w1\<lparr>d_readonly := 1\<rparr>"
    by (auto simp: mysqlSM_SetReadOnly_def store_readonly_Ret elim!: andthen_RetE)
  then show "log_closed w'" using mysql_SetReadOnly_closes by auto
next
  show "keeps log_closed mysqlSM_SetReadOnly"
    unfolding mysqlSM_SetReadOnly_def mysql_SetReadOnly_def store_readonly_def
    by (intro hoare not_opens_db) simp
next
  show "keeps log_closed mysql_PromoteToMaster"
    unfolding mysql_PromoteToMaster_def by (intro hoare not_opens_db)
next
  fix h q show "keeps log_closed (mysql_RedirectMaster u p h q)"
    unfolding mysql_RedirectMaster_def by (intro hoare not_opens_db)
qed

end
