(* ===== verification/Go_Json.thy ===== *)
theory Go_Json
  imports Go_Strings
begin

text \<open>
  The part of Go's \<open>encoding/json\<close> that the agent stores its records with: the encoder's escaping, a
  recursive-descent reader, and the decoding of an object into a struct field by field. The main
  lemma is that reading what was printed gives the value back. Strings are byte strings; bytes from
  128 on are copied by both directions, which is what Go does on valid UTF-8 (the two line separators
  U+2028 and U+2029, which it escapes, apart).
\<close>

datatype json =
    JNull
  | JBool bool
  | JNum string
  | JStr string
  | JArr "json list"
  | JObj "(string \<times> json) list"

section \<open>Printing\<close>

definition hex_char :: "nat \<Rightarrow> char" where
  "hex_char d = (if d < 10 then char_of (48 + d) else char_of (87 + d))"

definition json_char :: "char \<Rightarrow> string" where
  "json_char c =
     (let n = (of_char c :: nat) in
      if c = CHR 0x5C \<or> c = CHR 0x22 then [CHR 0x5C, c]
      else if c = CHR 0x0A then [CHR 0x5C, CHR ''n'']
      else if c = CHR 0x0D then [CHR 0x5C, CHR ''r'']
      else if c = CHR 0x09 then [CHR 0x5C, CHR ''t'']
      else if n < 32 \<or> c = CHR ''<'' \<or> c = CHR ''>'' \<or> c = CHR ''&'' then
        [CHR 0x5C, CHR ''u'', CHR ''0'', CHR ''0'', hex_char (n div 16), hex_char (n mod 16)]
      else [c])"

definition json_string :: "string \<Rightarrow> string" where
  "json_string s = CHR 0x22 # concat (map json_char s) @ [CHR 0x22]"

fun print_json :: "json \<Rightarrow> string" where
  "print_json JNull = ''null''"
| "print_json (JBool b) = (if b then ''true'' else ''false'')"
| "print_json (JNum s) = s"
| "print_json (JStr s) = json_string s"
| "print_json (JArr vs) = ''['' @ join_go (CHR '','') (map print_json vs) @ '']''"
| "print_json (JObj ms) =
     ''{'' @ join_go (CHR '','') (map (\<lambda>(k, v). json_string k @ CHR '':'' # print_json v) ms) @ ''}''"

section \<open>Reading\<close>

definition hex_val :: "char \<Rightarrow> nat option" where
  "hex_val c =
     (let n = (of_char c :: nat) in
      if 48 \<le> n \<and> n \<le> 57 then Some (n - 48)
      else if 97 \<le> n \<and> n \<le> 102 then Some (n - 87)
      else if 65 \<le> n \<and> n \<le> 70 then Some (n - 55) else None)"

definition hex4 :: "char \<Rightarrow> char \<Rightarrow> char \<Rightarrow> char \<Rightarrow> nat option" where
  "hex4 a b c d =
     (case (hex_val a, hex_val b, hex_val c, hex_val d) of
        (Some w, Some x, Some y, Some z) \<Rightarrow> Some (((w * 16 + x) * 16 + y) * 16 + z)
      | _ \<Rightarrow> None)"

definition utf8 :: "nat \<Rightarrow> string" where
  "utf8 n =
     (if n < 0x80 then [char_of n]
      else if n < 0x800 then [char_of (0xC0 + n div 64), char_of (0x80 + n mod 64)]
      else if n < 0x10000 then
        [char_of (0xE0 + n div 4096), char_of (0x80 + n div 64 mod 64), char_of (0x80 + n mod 64)]
      else [char_of (0xF0 + n div 262144), char_of (0x80 + n div 4096 mod 64),
            char_of (0x80 + n div 64 mod 64), char_of (0x80 + n mod 64)])"

definition simple_escape :: "char \<Rightarrow> char option" where
  "simple_escape e =
     (if e = CHR 0x22 \<or> e = CHR 0x5C \<or> e = CHR ''/'' then Some e
      else if e = CHR ''b'' then Some (CHR 0x08)
      else if e = CHR ''f'' then Some (CHR 0x0C)
      else if e = CHR ''n'' then Some (CHR 0x0A)
      else if e = CHR ''r'' then Some (CHR 0x0D)
      else if e = CHR ''t'' then Some (CHR 0x09)
      else None)"

text \<open>
  After a \<open>\\u\<close> escape: a high surrogate takes the low one that follows it; a lone one is U+FFFD.
\<close>

definition unicode_escape :: "nat \<Rightarrow> string \<Rightarrow> string \<times> string" where
  "unicode_escape n rest =
     (if n < 0xD800 \<or> 0xDFFF < n then (utf8 n, rest)
      else if n < 0xDC00 then
        (case rest of
           b # u # p # q # r # s # rest' \<Rightarrow>
             (case hex4 p q r s of
                Some m \<Rightarrow>
                  if b = CHR 0x5C \<and> u = CHR ''u'' \<and> 0xDC00 \<le> m \<and> m \<le> 0xDFFF
                  then (utf8 (0x10000 + (n - 0xD800) * 1024 + (m - 0xDC00)), rest')
                  else (utf8 0xFFFD, rest)
              | None \<Rightarrow> (utf8 0xFFFD, rest))
         | _ \<Rightarrow> (utf8 0xFFFD, rest))
      else (utf8 0xFFFD, rest))"

lemma unicode_escape_length: "length (snd (unicode_escape n rest)) \<le> length rest"
  by (auto simp: unicode_escape_def split: list.split option.split)

text \<open>The rest of a string literal after its opening quote.\<close>

function parse_string_body :: "string \<Rightarrow> (string \<times> string) option" where
  "parse_string_body [] = None"
| "parse_string_body (c # cs) =
     (if c = CHR 0x22 then Some ([], cs)
      else if c = CHR 0x5C then
        (case cs of
           [] \<Rightarrow> None
         | e # es \<Rightarrow>
             if e = CHR ''u'' then
               (case es of
                  p # q # r # s # rest \<Rightarrow>
                    (case hex4 p q r s of
                       None \<Rightarrow> None
                     | Some n \<Rightarrow>
                         map_option (\<lambda>(t, z). (fst (unicode_escape n rest) @ t, z))
                           (parse_string_body (snd (unicode_escape n rest))))
                | _ \<Rightarrow> None)
             else
               (case simple_escape e of
                  None \<Rightarrow> None
                | Some d \<Rightarrow> map_option (\<lambda>(t, z). (d # t, z)) (parse_string_body es)))
      else if (of_char c :: nat) < 32 then None
      else map_option (\<lambda>(t, z). (c # t, z)) (parse_string_body cs))"
  by pat_completeness auto

termination
proof (relation "measure length")
qed (auto simp: le_imp_less_Suc le_SucI unicode_escape_length)

declare parse_string_body.simps(2) [simp del]

definition number_char :: "char \<Rightarrow> bool" where
  "number_char c \<longleftrightarrow> is_digit c \<or> c = CHR ''-'' \<or> c = CHR ''+'' \<or> c = CHR ''.'' \<or> c = CHR ''e'' \<or> c = CHR ''E''"

definition valid_exponent :: "string \<Rightarrow> bool" where
  "valid_exponent s \<longleftrightarrow>
     (case s of
        [] \<Rightarrow> True
      | c # cs \<Rightarrow> (c = CHR ''e'' \<or> c = CHR ''E'') \<and>
          all_digits (case cs of [] \<Rightarrow> [] | d # ds \<Rightarrow> if d = CHR ''+'' \<or> d = CHR ''-'' then ds else cs))"

definition valid_fraction :: "string \<Rightarrow> bool" where
  "valid_fraction s \<longleftrightarrow>
     (case s of
        [] \<Rightarrow> True
      | c # cs \<Rightarrow>
          if c = CHR ''.'' then takeWhile is_digit cs \<noteq> [] \<and> valid_exponent (dropWhile is_digit cs)
          else valid_exponent s)"

definition valid_number :: "string \<Rightarrow> bool" where
  "valid_number s \<longleftrightarrow>
     (let t = (case s of [] \<Rightarrow> [] | c # cs \<Rightarrow> if c = CHR ''-'' then cs else s);
          ds = takeWhile is_digit t
      in ds \<noteq> [] \<and> (hd ds = CHR ''0'' \<longrightarrow> length ds = 1) \<and> valid_fraction (dropWhile is_digit t))"

definition json_space :: "char \<Rightarrow> bool" where
  "json_space c \<longleftrightarrow> c = CHR '' '' \<or> c = CHR 0x09 \<or> c = CHR 0x0A \<or> c = CHR 0x0D"

definition skip_space :: "string \<Rightarrow> string" where
  "skip_space s = dropWhile json_space s"

definition parse_literal :: "string \<Rightarrow> json \<Rightarrow> string \<Rightarrow> (json \<times> string) option" where
  "parse_literal lit v s = (if take (length lit) s = lit then Some (v, drop (length lit) s) else None)"

definition parse_number :: "string \<Rightarrow> (json \<times> string) option" where
  "parse_number s =
     (let lit = takeWhile number_char s in
      if valid_number lit then Some (JNum lit, dropWhile number_char s) else None)"

text \<open>
  The first argument bounds the depth of the recursion; every call reads at least one character, so
  the length of the text is enough.
\<close>

fun parse_value :: "nat \<Rightarrow> string \<Rightarrow> (json \<times> string) option"
  and parse_elements :: "nat \<Rightarrow> string \<Rightarrow> (json list \<times> string) option"
  and parse_members :: "nat \<Rightarrow> string \<Rightarrow> ((string \<times> json) list \<times> string) option" where
  "parse_value 0 s = None"
| "parse_value (Suc n) s =
     (case skip_space s of
        [] \<Rightarrow> None
      | c # cs \<Rightarrow>
          if c = CHR 0x22 then map_option (\<lambda>(t, z). (JStr t, z)) (parse_string_body cs)
          else if c = CHR ''{'' then
            (case skip_space cs of
               [] \<Rightarrow> None
             | d # ds \<Rightarrow> if d = CHR ''}'' then Some (JObj [], ds)
                         else map_option (\<lambda>(ms, z). (JObj ms, z)) (parse_members n (d # ds)))
          else if c = CHR ''['' then
            (case skip_space cs of
               [] \<Rightarrow> None
             | d # ds \<Rightarrow> if d = CHR '']'' then Some (JArr [], ds)
                         else map_option (\<lambda>(vs, z). (JArr vs, z)) (parse_elements n (d # ds)))
          else if c = CHR ''t'' then parse_literal ''true'' (JBool True) (c # cs)
          else if c = CHR ''f'' then parse_literal ''false'' (JBool False) (c # cs)
          else if c = CHR ''n'' then parse_literal ''null'' JNull (c # cs)
          else parse_number (c # cs))"
| "parse_elements 0 s = None"
| "parse_elements (Suc n) s =
     (case parse_value n s of
        None \<Rightarrow> None
      | Some (v, z) \<Rightarrow>
          (case skip_space z of
             [] \<Rightarrow> None
           | c # cs \<Rightarrow>
               if c = CHR '','' then map_option (\<lambda>(vs, z). (v # vs, z)) (parse_elements n cs)
               else if c = CHR '']'' then Some ([v], cs) else None))"
| "parse_members 0 s = None"
| "parse_members (Suc n) s =
     (case skip_space s of
        [] \<Rightarrow> None
      | q # qs \<Rightarrow>
          if q \<noteq> CHR 0x22 then None
          else case parse_string_body qs of
            None \<Rightarrow> None
          | Some (k, y) \<Rightarrow>
              (case skip_space y of
                 [] \<Rightarrow> None
               | col # cs \<Rightarrow>
                   if col \<noteq> CHR '':'' then None
                   else case parse_value n cs of
                     None \<Rightarrow> None
                   | Some (v, z) \<Rightarrow>
                       (case skip_space z of
                          [] \<Rightarrow> None
                        | c # cs \<Rightarrow>
                            if c = CHR '','' then map_option (\<lambda>(ms, z). ((k, v) # ms, z)) (parse_members n cs)
                            else if c = CHR ''}'' then Some ([(k, v)], cs) else None)))"

definition parse_json :: "string \<Rightarrow> json option" where
  "parse_json s =
     (case parse_value (Suc (length s)) s of
        None \<Rightarrow> None
      | Some (v, z) \<Rightarrow> if skip_space z = [] then Some v else None)"

section \<open>Structs\<close>

text \<open>
  \<open>json.Unmarshal\<close> into a struct: the members in order, each into the field whose name it matches up
  to case; a member of the wrong type is an error that does not stop the decoding, an unknown one is
  skipped. The second component says whether there was no error.
\<close>

definition unmarshal_members ::
  "(string \<Rightarrow> json \<Rightarrow> 'r \<Rightarrow> 'r option) \<Rightarrow> 'r \<Rightarrow> (string \<times> json) list \<Rightarrow> 'r \<times> bool" where
  "unmarshal_members upd r ms =
     fold (\<lambda>(k, v) (r, ok). case upd (to_lower k) v r of Some r' \<Rightarrow> (r', ok) | None \<Rightarrow> (r, False)) ms (r, True)"

definition unmarshal :: "(string \<Rightarrow> json \<Rightarrow> 'r \<Rightarrow> 'r option) \<Rightarrow> 'r \<Rightarrow> string \<Rightarrow> 'r \<times> bool" where
  "unmarshal upd r s =
     (case parse_json s of
        Some (JObj ms) \<Rightarrow> unmarshal_members upd r ms
      | Some JNull \<Rightarrow> (r, True)
      | _ \<Rightarrow> (r, False))"

definition dec_string :: "json \<Rightarrow> (string \<Rightarrow> 'r) \<Rightarrow> 'r \<Rightarrow> 'r option" where
  "dec_string v f r = (case v of JNull \<Rightarrow> Some r | JStr s \<Rightarrow> Some (f s) | _ \<Rightarrow> None)"

definition dec_bool :: "json \<Rightarrow> (bool \<Rightarrow> 'r) \<Rightarrow> 'r \<Rightarrow> 'r option" where
  "dec_bool v f r = (case v of JNull \<Rightarrow> Some r | JBool b \<Rightarrow> Some (f b) | _ \<Rightarrow> None)"

definition dec_u64 :: "json \<Rightarrow> (u64 \<Rightarrow> 'r) \<Rightarrow> 'r \<Rightarrow> 'r option" where
  "dec_u64 v f r = (case v of JNull \<Rightarrow> Some r | JNum s \<Rightarrow> map_option f (parse_uint64 s) | _ \<Rightarrow> None)"

definition dec_int :: "json \<Rightarrow> (int \<Rightarrow> 'r) \<Rightarrow> 'r \<Rightarrow> 'r option" where
  "dec_int v f r = (case v of JNull \<Rightarrow> Some r | JNum s \<Rightarrow> map_option f (atoi s) | _ \<Rightarrow> None)"

section \<open>Reading back what was printed\<close>

fun wf_json :: "json \<Rightarrow> bool" where
  "wf_json (JNum s) = (valid_number s \<and> list_all number_char s)"
| "wf_json (JArr vs) = list_all wf_json vs"
| "wf_json (JObj ms) = list_all (\<lambda>m. wf_json (snd m)) ms"
| "wf_json _ = True"

fun json_fuel :: "json \<Rightarrow> nat" where
  "json_fuel (JArr vs) = Suc (sum_list (map (\<lambda>v. Suc (json_fuel v)) vs))"
| "json_fuel (JObj ms) = Suc (sum_list (map (\<lambda>m. Suc (json_fuel (snd m))) ms))"
| "json_fuel _ = 1"

definition delimited :: "string \<Rightarrow> bool" where
  "delimited rest \<longleftrightarrow> rest = [] \<or> \<not> number_char (hd rest)"

lemma hex_val_char: "d < 16 \<Longrightarrow> hex_val (hex_char d) = Some d"
  by (auto simp: hex_val_def hex_char_def Let_def)

lemma hex4_byte:
  assumes "n < 256"
  shows "hex4 (CHR ''0'') (CHR ''0'') (hex_char (n div 16)) (hex_char (n mod 16)) = Some n"
proof -
  have "hex_val (CHR ''0'') = Some 0" by (simp add: hex_val_def)
  moreover have "n div 16 < 16" "n mod 16 < 16" using assms by auto
  ultimately show ?thesis by (simp add: hex4_def hex_val_char)
qed

lemma parse_json_char:
  "parse_string_body (json_char c @ t) = map_option (\<lambda>(x, z). (c # x, z)) (parse_string_body t)"
proof -
  define n :: nat where "n = of_char c"
  let ?esc = "c = CHR 0x5C \<or> c = CHR 0x22 \<or> c = CHR 0x0A \<or> c = CHR 0x0D \<or> c = CHR 0x09"
  let ?hex = "n < 32 \<or> c = CHR ''<'' \<or> c = CHR ''>'' \<or> c = CHR ''&''"
  consider (esc) "?esc" | (hex) "\<not> ?esc" "?hex" | (plain) "\<not> ?esc" "\<not> ?hex" by blast
  then show ?thesis
  proof cases
    case esc
    then show ?thesis by (auto simp: json_char_def parse_string_body.simps(2) simple_escape_def)
  next
    case hex
    then have "json_char c = [CHR 0x5C, CHR ''u'', CHR ''0'', CHR ''0'', hex_char (n div 16), hex_char (n mod 16)]"
      by (simp add: json_char_def Let_def n_def)
    moreover have "n < 128" using hex(2) by (auto simp: n_def)
    moreover from this have "utf8 n = [c]" by (simp add: utf8_def n_def)
    ultimately show ?thesis by (simp add: parse_string_body.simps(2) hex4_byte unicode_escape_def)
  next
    case plain
    then have "json_char c = [c]" by (simp add: json_char_def Let_def n_def)
    with plain show ?thesis by (simp add: parse_string_body.simps(2) n_def)
  qed
qed

lemma parse_json_string: "parse_string_body (concat (map json_char s) @ CHR 0x22 # rest) = Some (s, rest)"
  by (induction s) (simp_all add: parse_json_char parse_string_body.simps(2))

lemma skip_space_Cons: "\<not> json_space c \<Longrightarrow> skip_space (c # cs) = c # cs"
  by (simp add: skip_space_def)

lemma json_string_Cons: "json_string s @ rest = CHR 0x22 # concat (map json_char s) @ CHR 0x22 # rest"
  by (simp add: json_string_def)

lemma valid_number_hd: "valid_number s \<Longrightarrow> \<exists>c cs. s = c # cs \<and> (is_digit c \<or> c = CHR ''-'')"
  by (cases s) (auto simp: valid_number_def Let_def split: if_splits)

lemma number_span:
  assumes "list_all number_char s" and "delimited rest"
  shows "takeWhile number_char (s @ rest) = s" "dropWhile number_char (s @ rest) = rest"
  using assms by (induction s; cases rest; simp add: delimited_def)+

lemma parse_value_number:
  assumes "valid_number s" and "list_all number_char s" and "delimited rest"
  shows "parse_value (Suc n) (s @ rest) = Some (JNum s, rest)"
proof -
  obtain c cs where s: "s = c # cs" and c: "is_digit c \<or> c = CHR ''-''" using valid_number_hd assms(1) by blast
  then have "\<not> json_space c" "c \<notin> {CHR 0x22, CHR ''{'', CHR ''['', CHR ''t'', CHR ''f'', CHR ''n''}"
    by (auto simp: json_space_def is_digit_def)
  then have "parse_value (Suc n) (s @ rest) = parse_number (s @ rest)"
    by (simp add: s skip_space_Cons)
  also have "\<dots> = Some (JNum s, rest)" using assms by (simp add: parse_number_def number_span)
  finally show ?thesis .
qed

lemma print_json_hd:
  assumes "wf_json v"
  shows "\<exists>c cs. print_json v = c # cs \<and> \<not> json_space c \<and> c \<noteq> CHR '']'' \<and> c \<noteq> CHR ''}''"
  using assms by (cases v) (auto simp: json_string_def json_space_def is_digit_def dest!: valid_number_hd)

lemma delimited_simps [simp]: "delimited (CHR '','' # s)" "delimited (CHR '']'' # s)" "delimited (CHR ''}'' # s)" "delimited []"
  by (auto simp: delimited_def number_char_def is_digit_def)

definition reads_back :: "json \<Rightarrow> bool" where
  "reads_back v \<longleftrightarrow> (\<forall>n rest. json_fuel v \<le> n \<longrightarrow> delimited rest \<longrightarrow> parse_value n (print_json v @ rest) = Some (v, rest))"

lemma json_spaces [simp]: "\<not> json_space (CHR '','')" "\<not> json_space (CHR '']'')" "\<not> json_space (CHR ''}'')"
  "\<not> json_space (CHR '':'')" "\<not> json_space (CHR 0x22)" "\<not> json_space (CHR ''{'')" "\<not> json_space (CHR ''['')"
  by (simp_all add: json_space_def)

lemma parse_elements_print:
  assumes "\<forall>v \<in> set vs. reads_back v" and "vs \<noteq> []" and "sum_list (map (\<lambda>v. Suc (json_fuel v)) vs) \<le> n"
  shows "parse_elements n (join_go (CHR '','') (map print_json vs) @ CHR '']'' # rest) = Some (vs, rest)"
  using assms
proof (induction vs arbitrary: n)
  case (Cons v vs)
  then obtain m where n: "n = Suc m" by (cases n) auto
  have v: "delimited r \<Longrightarrow> parse_value m (print_json v @ r) = Some (v, r)" for r
    using Cons.prems n by (simp add: reads_back_def)
  show ?case
  proof (cases "vs = []")
    case True
    then show ?thesis by (simp add: n v skip_space_Cons)
  next
    case False
    with Cons n have "parse_elements m (join_go (CHR '','') (map print_json vs) @ CHR '']'' # rest) = Some (vs, rest)"
      by simp
    with False show ?thesis by (simp add: n v skip_space_Cons join_go_Cons)
  qed
qed simp

definition print_member :: "string \<times> json \<Rightarrow> string" where
  "print_member m = json_string (fst m) @ CHR '':'' # print_json (snd m)"

lemma print_member_append:
  "print_member m @ r = CHR 0x22 # concat (map json_char (fst m)) @ CHR 0x22 # CHR '':'' # print_json (snd m) @ r"
  by (simp add: print_member_def json_string_def)

lemma parse_members_print:
  assumes "\<forall>m \<in> set ms. reads_back (snd m)" and "ms \<noteq> []" and "sum_list (map (\<lambda>m. Suc (json_fuel (snd m))) ms) \<le> n"
  shows "parse_members n (join_go (CHR '','') (map print_member ms) @ CHR ''}'' # rest) = Some (ms, rest)"
  using assms
proof (induction ms arbitrary: n)
  case (Cons m ms)
  then obtain i where n: "n = Suc i" by (cases n) auto
  obtain k v where m: "m = (k, v)" by (cases m)
  have v: "delimited r \<Longrightarrow> parse_value i (print_json v @ r) = Some (v, r)" for r
    using Cons.prems n m by (simp add: reads_back_def)
  show ?case
  proof (cases "ms = []")
    case True
    then show ?thesis by (simp add: n m v skip_space_Cons print_member_append parse_json_string)
  next
    case False
    with Cons n have "parse_members i (join_go (CHR '','') (map print_member ms) @ CHR ''}'' # rest) = Some (ms, rest)"
      by simp
    with False show ?thesis
      by (simp add: n m v skip_space_Cons print_member_append parse_json_string join_go_Cons)
  qed
qed simp

lemma print_json_JObj: "print_json (JObj ms) = ''{'' @ join_go (CHR '','') (map print_member ms) @ ''}''"
  by (simp add: print_member_def [abs_def] case_prod_unfold)

lemma join_hd: "xs \<noteq> [] \<Longrightarrow> hd xs = c # cs \<Longrightarrow> \<exists>ds. join_go sep xs = c # ds"
  by (cases xs; cases "tl xs") auto

lemma reads_back_all: "wf_json v \<Longrightarrow> reads_back v"
proof (induction v rule: json.induct)
  case (JNum s)
  show ?case unfolding reads_back_def
  proof (intro allI impI)
    fix n rest assume "json_fuel (JNum s) \<le> n" "delimited rest"
    with JNum show "parse_value n (print_json (JNum s) @ rest) = Some (JNum s, rest)"
      by (cases n) (simp_all add: parse_value_number del: parse_value.simps)
  qed
next
  case (JArr vs)
  then have rb: "\<forall>v \<in> set vs. reads_back v" by (auto simp: list_all_iff)
  show ?case unfolding reads_back_def
  proof (intro allI impI)
    fix n rest assume n: "json_fuel (JArr vs) \<le> n" "delimited rest"
    then obtain m where m: "n = Suc m" by (cases n) auto
    show "parse_value n (print_json (JArr vs) @ rest) = Some (JArr vs, rest)"
    proof (cases "vs = []")
      case False
      then obtain v ws where vs: "vs = v # ws" by (cases vs) auto
      with JArr.prems print_json_hd [of v] obtain c cs where
        c: "print_json v = c # cs" "\<not> json_space c" "c \<noteq> CHR '']''" by auto
      then obtain ds where "join_go (CHR '','') (map print_json vs) = c # ds"
        using join_hd [of "map print_json vs"] vs by fastforce
      with c parse_elements_print [OF rb False, of m rest] n m show ?thesis
        by (simp add: skip_space_Cons del: join_go.simps)
    qed (simp add: m skip_space_Cons)
  qed
next
  case (JObj ms)
  then have rb: "\<forall>m \<in> set ms. reads_back (snd m)" by (force simp: list_all_iff)
  show ?case unfolding reads_back_def
  proof (intro allI impI)
    fix n rest assume n: "json_fuel (JObj ms) \<le> n" "delimited rest"
    then obtain i where i: "n = Suc i" by (cases n) auto
    show "parse_value n (print_json (JObj ms) @ rest) = Some (JObj ms, rest)"
    proof (cases "ms = []")
      case False
      then obtain ds where "join_go (CHR '','') (map print_member ms) = CHR 0x22 # ds"
        using join_hd [of "map print_member ms"] by (cases ms) (fastforce simp: print_member_def json_string_def)+
      with parse_members_print [OF rb False, of i rest] n i show ?thesis
        unfolding print_json_JObj by (simp add: skip_space_Cons del: join_go.simps)
    qed (simp add: i skip_space_Cons)
  qed
next
  case (JStr s)
  show ?case unfolding reads_back_def
  proof (intro allI impI)
    fix n rest assume "json_fuel (JStr s) \<le> n"
    then show "parse_value n (print_json (JStr s) @ rest) = Some (JStr s, rest)"
      by (cases n) (simp_all add: json_string_def skip_space_Cons parse_json_string)
  qed
qed (auto simp: reads_back_def json_space_def skip_space_Cons parse_literal_def gr0_conv_Suc Suc_le_eq)

lemma join_length: "xs \<noteq> [] \<Longrightarrow> length (join_go c xs) + 1 = sum_list (map (\<lambda>x. Suc (length x)) xs)"
  by (induction c xs rule: join_go.induct) auto

lemma json_fuel_length: "wf_json v \<Longrightarrow> json_fuel v \<le> length (print_json v)"
proof (induction v rule: json.induct)
  case (JNum s)
  then show ?case by (auto dest: valid_number_hd)
next
  case (JArr vs)
  show ?case
  proof (cases "vs = []")
    case False
    have "sum_list (map (\<lambda>v. Suc (json_fuel v)) vs) \<le> sum_list (map (\<lambda>v. Suc (length (print_json v))) vs)"
      using JArr by (intro sum_list_mono) (auto simp: list_all_iff)
    then show ?thesis using join_length [of "map print_json vs" "CHR '',''"] False by (simp add: comp_def)
  qed simp
next
  case (JObj ms)
  show ?case
  proof (cases "ms = []")
    case False
    have "sum_list (map (\<lambda>m. Suc (json_fuel (snd m))) ms) \<le> sum_list (map (\<lambda>m. Suc (length (print_member m))) ms)"
      using JObj by (intro sum_list_mono) (fastforce simp: list_all_iff print_member_def)
    then show ?thesis using join_length [of "map print_member ms" "CHR '',''"] False
      unfolding print_json_JObj by (simp add: comp_def)
  qed simp
qed (auto simp: json_string_def)

theorem parse_print_json: "wf_json v \<Longrightarrow> parse_json (print_json v) = Some v"
proof -
  assume v: "wf_json v"
  have "parse_value (Suc (length (print_json v))) (print_json v @ []) = Some (v, [])"
    using reads_back_all [OF v] json_fuel_length [OF v] unfolding reads_back_def
    by (metis delimited_simps(4) le_SucI)
  then show ?thesis by (simp add: parse_json_def skip_space_def del: parse_value.simps)
qed

lemma unmarshal_print:
  "list_all (\<lambda>m. wf_json (snd m)) ms \<Longrightarrow> unmarshal upd r (print_json (JObj ms)) = unmarshal_members upd r ms"
  by (simp add: unmarshal_def parse_print_json del: print_json.simps)

lemma show_nat_leading: "hd (show_nat n) = CHR ''0'' \<Longrightarrow> show_nat n = ''0''"
proof (induction n rule: show_nat.induct)
  case (1 n)
  show ?case
  proof (cases "n < 10")
    case True
    then have "show_nat n = [digit_char n]" by (simp add: show_nat.simps)
    with 1 show ?thesis by simp
  next
    case False
    then have s: "show_nat n = show_nat (n div 10) @ [digit_char (n mod 10)]" by (subst show_nat.simps) simp
    with 1 False have "show_nat (n div 10) = ''0''" by simp
    then have "digits_val (show_nat (n div 10)) = 0" by (simp add: digits_val_def digit_val_def)
    with False show ?thesis by simp
  qed
qed

lemma valid_number_nat: "valid_number (show_nat n)" "valid_number (CHR ''-'' # show_nat n)" "list_all number_char (show_nat n)"
proof -
  have d: "list_all is_digit (show_nat n)" using all_digits_show [of n] by (simp add: all_digits_def)
  then have tw: "takeWhile is_digit (show_nat n) = show_nat n" "dropWhile is_digit (show_nat n) = []"
    by (auto simp: list_all_iff takeWhile_eq_all_conv)
  have z: "hd (show_nat n) = CHR ''0'' \<Longrightarrow> length (show_nat n) = 1" using show_nat_leading [of n] by simp
  obtain c cs where c: "show_nat n = c # cs" "is_digit c" by (rule show_nat_Cons)
  then have "(case show_nat n of [] \<Rightarrow> [] | c # cs \<Rightarrow> if c = CHR ''-'' then cs else show_nat n) = show_nat n"
    by (auto simp: is_digit_def)
  with z show "valid_number (show_nat n)" "valid_number (CHR ''-'' # show_nat n)"
    by (simp_all add: valid_number_def valid_fraction_def Let_def tw)
  show "list_all number_char (show_nat n)" using d by (auto simp: list_all_iff number_char_def)
qed

lemma wf_json_numbers [simp]: "wf_json (JNum (show_u64 w))" "wf_json (JNum (show_int i))"
  by (simp_all add: show_u64_def show_int_def valid_number_nat number_char_def)

end
