(* ===== verification/Eventfd.thy ===== *)
theory Eventfd
  imports Moha_Prelude
begin

text \<open>
  The event descriptor an agent, the boot process of the database and their supervisor share:
  \<open>src/pkg/systemcall/file_descriptor.go\<close>. The kernel keeps one unsigned 64-bit counter; a write adds to it,
  and fails with nothing added if the sum would exceed the largest value below the maximum; a read returns it and
  resets it.
\<close>

unbundle bit_operations_syntax

fun PutUint64 :: "nat \<Rightarrow> u64 \<Rightarrow> 8 word list" where
  "PutUint64 0 v = []"
| "PutUint64 (Suc n) v = ucast v # PutUint64 n (drop_bit 8 v)"

fun Uint64 :: "8 word list \<Rightarrow> u64" where
  "Uint64 [] = 0"
| "Uint64 (b # bs) = ucast b OR push_bit 8 (Uint64 bs)"

definition eventfd_write :: "8 word list \<Rightarrow> u64 \<Rightarrow> (error + nat) \<times> u64" where
  "eventfd_write b c =
     (let v = Uint64 b in
      if v = - 1 then (Inl (EMsg ''invalid argument''), c)
      else if unat c + unat v > 2 ^ 64 - 2 then (Inl (EMsg ''resource temporarily unavailable''), c)
      else (Inr 8, c + v))"

definition eventfd_read :: "u64 \<Rightarrow> u64 option \<times> u64" where
  "eventfd_read c = (if c = 0 then (None, c) else (Some c, 0))"

definition WriteToEventfd :: "u64 \<Rightarrow> u64 \<Rightarrow> (error + nat) \<times> u64" where
  "WriteToEventfd v c = eventfd_write (PutUint64 8 v) c"

section \<open>The bytes\<close>

lemma Uint64_PutUint64: "Uint64 (PutUint64 n v) = take_bit (8 * n) v"
proof (induction n arbitrary: v)
  case (Suc n)
  show ?case
    by (rule bit_word_eqI)
      (auto simp: Suc.IH bit_or_iff bit_push_bit_iff bit_take_bit_iff bit_drop_bit_eq bit_simps dest: bit_imp_le_length)
qed simp

lemma Uint64_bytes [simp]: "Uint64 (PutUint64 8 v) = (v :: u64)"
  using take_bit_length_eq [of v] by (simp add: Uint64_PutUint64)

lemma WriteToEventfd_ok:
  "v \<noteq> - 1 \<Longrightarrow> unat c + unat v \<le> 2 ^ 64 - 2 \<Longrightarrow> WriteToEventfd v c = (Inr 8, c + v)"
  by (simp add: WriteToEventfd_def eventfd_write_def Let_def)

end
