(* ===== verification/Agent_State.thy ===== *)
theory Agent_State
  imports Service_Manager Go_Json Eventfd
begin

text \<open>
  The state of an agent process: the configuration (\<open>src/agent/config.go\<close>), the fields of
  \<open>Server\<close> (\<open>src/agent/server.go\<close>) and the package globals \<open>latestPos\<close> and \<open>leaderValue\<close>, on top of
  the network and the database of the earlier theories. What never changes while the agent runs, the
  configuration, the node id and the service manager, is the record \<open>agent_env\<close>. Atomics are
  integers with compare-and-swap, stop channels are values of \<^typ>\<open>chan\<close>.
\<close>

section \<open>Configuration\<close>

record Config =
  ClusterName :: string
  LeaderLeaseTTL :: int
  ShutdownThreshold :: int
  DataDir :: string
  cfg_NodeID :: string
  ListenAddr :: string
  cfg_OnlyFollow :: bool
  EtcdURLs :: string
  EtcdDialTimeout :: int
  RefreshInterval :: int
  RegisterTTL :: int
  EtcdRootPath :: string
  EtcdUsername :: string
  EtcdPassword :: string
  LogLevel :: string
  LogFile :: string
  ErrorLog :: string
  LogMaxSize :: int
  LogMaxDays :: int
  LogCompress :: bool
  ServiceType :: string
  DBConfig :: db_config
  LockTTL :: int
  InternalServiceHost :: string
  ExternalServiceHost :: string
  ForkProcessFile :: string
  ForkProcessArgs :: "string list"
  ForkProcessWaitSecond :: int
  CampaignWaitTime :: int
  cfg_fd :: int
  configFile :: string
  printVersion :: bool

definition checkConfig :: "Config option \<Rightarrow> error option" where
  "checkConfig c =
     (case c of
        None \<Rightarrow> Some (ENotValid ''cfg is nil'')
      | Some cfg \<Rightarrow>
          if DataDir cfg = [] then Some (ENotValid ''DataDir is empty'')
          else if EtcdRootPath cfg = [] then Some (ENotValid ''EtcdRootPath is empty'')
          else if LeaderLeaseTTL cfg = 0 then Some (ENotValid ''LeaderLeaseTTL is 0'')
          else if ShutdownThreshold cfg = 0 then Some (ENotValid ''ShutdownThreshold is 0'')
          else if RegisterTTL cfg = 0 then Some (ENotValid ''RegisterTTL is 0'')
          else if EtcdUsername cfg = [] then Some (ENotValid ''Etcd Username is empty'')
          else None)"

section \<open>The process\<close>

text \<open>
  What does not change while the process runs: the configuration, the id of the node, the service
  manager, and the order in which the runtime iterates over a map of strings, which Go leaves open.
\<close>

record agent_env =
  e_cfg :: Config
  e_id :: string
  e_sm :: service_manager
  e_range :: "(string \<times> string) list \<Rightarrow> (string \<times> string) list"

text \<open>
  What a watch on a key delivers, with the time until it does: an error, a cancellation, events of
  which the list says which are deletions, or the end of the channel, with whether the server's
  context is finished by then.
\<close>

datatype watch_resp =
    WatchErr error nat
  | WatchCanceled nat
  | WatchEvents "bool list" nat
  | WatchClosed bool nat

record agent = dbnet +
  a_ctxDone :: bool
  a_isLeader :: int
  a_onlyFollow :: bool
  a_isSinglePointMaster :: int
  a_leaseExpireTS :: int
  a_fdStopCh :: chan
  a_isClosed :: int
  a_leaderStopCh :: chan
  a_shutdownCh :: chan
  a_registerStopCh :: chan
  a_term :: u64
  a_lastUUID :: string
  a_lastGTID :: string
  a_lastTxnID :: u64
  a_uuid :: string
  a_latestPos :: Position
  a_leaderValue :: string
  a_watch :: "watch_resp list"
  a_eventfd :: u64

type_synonym 'a agent_io = "(agent, 'a) io"

definition globalSchemaVersion :: int where
  "globalSchemaVersion = 2"

section \<open>Time, channels and retries\<close>

definition time_Sleep :: "int \<Rightarrow> ('z net_scheme, unit) io" where
  "time_Sleep d = updates (\<lambda>w. w\<lparr>n_clock := n_clock w + max 0 d\<rparr>)"

definition close_chan :: "(agent \<Rightarrow> chan) \<Rightarrow> (agent \<Rightarrow> agent) \<Rightarrow> unit agent_io" where
  "close_chan get put =
     andthen (reads get) (\<lambda>c. case c of OpenChan \<Rightarrow> updates put | _ \<Rightarrow> go_panic)"

text \<open>
  A loop that repeats a call until it has no error, sleeping in between. A loop that goes on for
  ever is one that never returns, \<^const>\<open>Wait\<close>; the bound only has to exceed the number of calls that
  the scripts can answer.
\<close>

fun spin :: "nat \<Rightarrow> int \<Rightarrow> ('z net_scheme, error + 'a) io \<Rightarrow> ('z net_scheme, 'a) io" where
  "spin 0 d f w = Wait w"
| "spin (Suc n) d f w =
     (case f w of
        Ret (Inr a) w' \<Rightarrow> Ret a w'
      | Ret (Inl e) w' \<Rightarrow> andthen (time_Sleep d) (\<lambda>_. spin n d f) w'
      | Exit c w' \<Rightarrow> Exit c w'
      | Panic w' \<Rightarrow> Panic w'
      | Wait w' \<Rightarrow> Wait w')"

definition spin_bound :: "'z dbnet_scheme \<Rightarrow> nat" where
  "spin_bound w = Suc (length (n_script w) + length (d_sql w) + length (d_cmds w))"

definition spin_all :: "int \<Rightarrow> ('z dbnet_scheme, error + 'a) io \<Rightarrow> ('z dbnet_scheme, 'a) io" where
  "spin_all d f w = spin (spin_bound w) d f w"

definition err_io :: "('w, error option) io \<Rightarrow> ('w, error + unit) io" where
  "err_io m = andthen m (\<lambda>e. ret (case e of None \<Rightarrow> Inr () | Some x \<Rightarrow> Inl x))"

fun retry_loop :: "nat \<Rightarrow> error option \<Rightarrow> ('z net_scheme, error option) io \<Rightarrow> int \<Rightarrow> ('z net_scheme, error option) io" where
  "retry_loop 0 err f d = ret err"
| "retry_loop (Suc n) err f d =
     andthen f (\<lambda>e. if e = None then ret None else andthen (time_Sleep d) (\<lambda>_. retry_loop n e f d))"

definition DoWithRetry :: "('z net_scheme, error option) io \<Rightarrow> int \<Rightarrow> int \<Rightarrow> ('z net_scheme, error option) io" where
  "DoWithRetry f retryTimes retryInterval = retry_loop (nat (retryTimes + 1)) None f retryInterval"

section \<open>Small operations on the state\<close>

definition rootPath :: "agent_env \<Rightarrow> string" where
  "rootPath E = NewClientFromCfg_rootPath (EtcdRootPath (e_cfg E)) (ClusterName (e_cfg E))"

definition join :: "string list \<Rightarrow> string" where
  "join p = path_join p"

definition fullPathOf :: "agent_env \<Rightarrow> string \<Rightarrow> string" where
  "fullPathOf E relativePath = KeyWithRootPath (rootPath E) relativePath"

definition setIsLeaderToTrue :: "unit agent_io" where
  "setIsLeaderToTrue = updates (\<lambda>w. w\<lparr>a_isLeader := 1\<rparr>)"

definition setIsLeaderToFalse :: "bool agent_io" where
  "setIsLeaderToFalse =
     andthen (reads a_isLeader) (\<lambda>v.
       if v = 1 then andthen (updates (\<lambda>w. w\<lparr>a_isLeader := 0\<rparr>)) (\<lambda>_. ret True) else ret False)"

definition amILeader :: "agent \<Rightarrow> bool" where
  "amILeader w \<longleftrightarrow> a_isLeader w = 1"

definition setIsSPMToTrue :: "unit agent_io" where
  "setIsSPMToTrue = updates (\<lambda>w. w\<lparr>a_isSinglePointMaster := 1\<rparr>)"

definition setIsSPMToFalse :: "bool agent_io" where
  "setIsSPMToFalse =
     andthen (reads a_isSinglePointMaster) (\<lambda>v.
       if v = 1 then andthen (updates (\<lambda>w. w\<lparr>a_isSinglePointMaster := 0\<rparr>)) (\<lambda>_. ret True) else ret False)"

definition amISPM :: "agent \<Rightarrow> bool" where
  "amISPM w \<longleftrightarrow> a_isSinglePointMaster w = 1"

definition isOnlyFollow :: "agent_env \<Rightarrow> agent \<Rightarrow> bool" where
  "isOnlyFollow E w = (if a_onlyFollow w then True else cfg_OnlyFollow (e_cfg E))"

definition isSameLeader :: "agent_env \<Rightarrow> string \<Rightarrow> bool" where
  "isSameLeader E leaderID \<longleftrightarrow> leaderID = e_id E"

definition getUUID :: "agent \<Rightarrow> string" where
  "getUUID w = a_uuid w"

definition forceClose :: "'a agent_io" where
  "forceClose = os_Exit 3"

definition loadUUID :: "agent_env \<Rightarrow> error option agent_io" where
  "loadUUID E =
     andthen (sm_GetServerUUID (e_sm E)) (\<lambda>r. case r of
       Inl e \<Rightarrow> ret (Some e)
     | Inr u \<Rightarrow> andthen (updates (\<lambda>w. w\<lparr>a_uuid := u, a_latestPos := (a_latestPos w)\<lparr>pos_UUID := u\<rparr>\<rparr>)) (\<lambda>_. ret None))"

definition setServiceReadonlyOrShutdown :: "agent_env \<Rightarrow> unit agent_io" where
  "setServiceReadonlyOrShutdown E =
     andthen (sm_SetReadOnly (e_sm E)) (\<lambda>err. if err \<noteq> None then forceClose else ret ())"

record agentStatus =
  as_ID :: string
  as_Master :: bool
  as_OnlyFollow :: bool
  as_IOThreadOK :: bool
  as_SQLThreadOK :: bool
  as_Readonly :: bool
  as_SecondsBehindMaster :: int
  as_Term :: u64
  as_SinglePointMaster :: bool

definition getServerStatus :: "agent_env \<Rightarrow> agent \<Rightarrow> agentStatus" where
  "getServerStatus E w = \<lparr>as_ID = e_id E, as_Master = amILeader w, as_OnlyFollow = isOnlyFollow E w,
     as_IOThreadOK = pos_SlaveIORunning (a_latestPos w), as_SQLThreadOK = pos_SlaveSQLRunning (a_latestPos w),
     as_Readonly = IsReadOnly w, as_SecondsBehindMaster = pos_SecondsBehindMaster (a_latestPos w),
     as_Term = a_term w, as_SinglePointMaster = amISPM w\<rparr>"

section \<open>A concrete agent\<close>

text \<open>Used by the examples of the later theories: three nodes of one cluster over MySQL.\<close>

definition ex_cfg :: Config where
  "ex_cfg = \<lparr>ClusterName = ''c1'', LeaderLeaseTTL = 10, ShutdownThreshold = 3, DataDir = ''/data'', cfg_NodeID = [],
     ListenAddr = ''http://127.0.0.1:13306'', cfg_OnlyFollow = False, EtcdURLs = ''http://127.0.0.1:2379'',
     EtcdDialTimeout = 5 * time_Second, RefreshInterval = 1, RegisterTTL = 30, EtcdRootPath = ''/moha'',
     EtcdUsername = ''root'', EtcdPassword = [], LogLevel = ''info'', LogFile = [], ErrorLog = [], LogMaxSize = 0,
     LogMaxDays = 0, LogCompress = False, ServiceType = ''mysql'',
     DBConfig = \<lparr>db_Host = ''127.0.0.1'', db_User = ''root'', db_Password = [], db_Port = 3306, db_Timeout = ''1s'',
       db_ReplicationUser = ''repl'', db_ReplicationPassword = ''secret'', db_ReplicationNet = ''%''\<rparr>,
     LockTTL = 10, InternalServiceHost = ''db1:3306'', ExternalServiceHost = ''db1.example:3306'',
     ForkProcessFile = [], ForkProcessArgs = [], ForkProcessWaitSecond = 10, CampaignWaitTime = 2 * time_Second,
     cfg_fd = 1, configFile = [], printVersion = False\<rparr>"

definition ex_env :: "string \<Rightarrow> agent_env" where
  "ex_env i = \<lparr>e_cfg = ex_cfg, e_id = i, e_sm = MysqlSM ''%'' ''repl'' ''secret'', e_range = id\<rparr>"

definition ex_agent :: "string \<Rightarrow> etcd \<Rightarrow> rpc_event list \<Rightarrow> sql_reply list \<Rightarrow> agent" where
  "ex_agent i e rpcs sqls = \<lparr>n_etcd = e, n_script = rpcs, n_clock = 0, d_sql = sqls, d_log = [], d_cmds = [],
     d_cmdlog = [], d_readonly = 1, a_ctxDone = False, a_isLeader = 0, a_onlyFollow = False, a_isSinglePointMaster = 0,
     a_leaseExpireTS = 0, a_fdStopCh = NilChan, a_isClosed = 0, a_leaderStopCh = NilChan, a_shutdownCh = OpenChan,
     a_registerStopCh = OpenChan, a_term = 0, a_lastUUID = [], a_lastGTID = [], a_lastTxnID = 0, a_uuid = [],
     a_latestPos = zero_Position\<lparr>pos_SecondsBehindMaster := 2 ^ 30\<rparr>, a_leaderValue = i, a_watch = [], a_eventfd = 0\<rparr>"

definition rpc_ok :: rpc_event where
  "rpc_ok = Rpc id RpcOK 1 1"

definition sql_ok :: sql_reply where
  "sql_ok = SqlReply None [] [] None 1"

lemma ex_env_fields [simp]:
  "e_id (ex_env i) = i" "LeaderLeaseTTL (e_cfg (ex_env i)) = 10" "ShutdownThreshold (e_cfg (ex_env i)) = 3"
  "RegisterTTL (e_cfg (ex_env i)) = 30" "InternalServiceHost (e_cfg (ex_env i)) = ''db1:3306''"
  "ExternalServiceHost (e_cfg (ex_env i)) = ''db1.example:3306''" "CampaignWaitTime (e_cfg (ex_env i)) = 2 * time_Second"
  "e_sm (ex_env i) = MysqlSM ''%'' ''repl'' ''secret''" "e_range (ex_env i) = id"
  by (simp_all add: ex_env_def ex_cfg_def)

lemma ex_agent_fields [simp]:
  "n_etcd (ex_agent i e rpcs sqls) = e" "n_script (ex_agent i e rpcs sqls) = rpcs" "a_ctxDone (ex_agent i e rpcs sqls) = False"
  "a_leaderValue (ex_agent i e rpcs sqls) = i" "a_term (ex_agent i e rpcs sqls) = 0" "n_clock (ex_agent i e rpcs sqls) = 0"
  "d_sql (ex_agent i e rpcs sqls) = sqls" "d_log (ex_agent i e rpcs sqls) = []" "a_isLeader (ex_agent i e rpcs sqls) = 0"
  by (simp_all add: ex_agent_def)

lemma quiet_rpc_ok [simp]: "quiet rpc_ok"
  by (simp add: rpc_ok_def)

end
