(* ===== verification/Agent_Registry.thy ===== *)
theory Agent_Registry
  imports Agent_State
begin

text \<open>
  \<open>src/agent/registry.go\<close>, \<open>src/agent/node.go\<close> and the helpers of \<open>src/agent/util.go\<close>: how an
  agent registers itself under \<open>slave/<id>\<close> with a lease, renews the registration, and looks another node up.
\<close>

section \<open>Records and their JSON\<close>

record NodeStatus =
  ns_NodeID :: string
  ns_InternalHost :: string
  ns_ExternalHost :: string
  ns_IsMaster :: bool
  ns_IsAlive :: bool
  ns_LatestPos :: Position

definition zero_NodeStatus :: NodeStatus where
  "zero_NodeStatus = \<lparr>ns_NodeID = [], ns_InternalHost = [], ns_ExternalHost = [], ns_IsMaster = False,
     ns_IsAlive = False, ns_LatestPos = zero_Position\<rparr>"

definition members_Position :: "Position \<Rightarrow> (string \<times> json) list" where
  "members_Position p =
     [(''File'', JStr (pos_File p)), (''Pos'', JStr (pos_Pos p)), (''GTID'', JStr (pos_GTID p)), (''UUID'', JStr (pos_UUID p))] @
     (if pos_EndTxnID p \<noteq> 0 then [(''EndTxnID'', JNum (show_u64 (pos_EndTxnID p)))] else []) @
     (if pos_SlaveIORunning p then [(''SlaveIORunning'', JBool True)] else []) @
     (if pos_SlaveSQLRunning p then [(''SlaveSQLRunning'', JBool True)] else []) @
     (if pos_SecondsBehindMaster p \<noteq> 0 then [(''SecondsBehindMaster'', JNum (show_int (pos_SecondsBehindMaster p)))] else [])"

definition marshal_Position :: "Position \<Rightarrow> string" where
  "marshal_Position p = print_json (JObj (members_Position p))"

definition members_NodeStatus :: "NodeStatus \<Rightarrow> (string \<times> json) list" where
  "members_NodeStatus n =
     [(''NodeID'', JStr (ns_NodeID n)), (''InternalHost'', JStr (ns_InternalHost n)), (''ExternalHost'', JStr (ns_ExternalHost n))] @
     (if ns_IsMaster n then [(''master'', JBool True)] else []) @
     (if ns_IsAlive n then [(''IsAlive'', JBool True)] else []) @
     [(''LatestPos'', JObj (members_Position (ns_LatestPos n)))]"

definition marshal_NodeStatus :: "NodeStatus \<Rightarrow> string" where
  "marshal_NodeStatus n = print_json (JObj (members_NodeStatus n))"

definition upd_Position :: "string \<Rightarrow> json \<Rightarrow> Position \<Rightarrow> Position option" where
  "upd_Position k v p =
     (if k = ''file'' then dec_string v (\<lambda>x. p\<lparr>pos_File := x\<rparr>) p
      else if k = ''pos'' then dec_string v (\<lambda>x. p\<lparr>pos_Pos := x\<rparr>) p
      else if k = ''gtid'' then dec_string v (\<lambda>x. p\<lparr>pos_GTID := x\<rparr>) p
      else if k = ''uuid'' then dec_string v (\<lambda>x. p\<lparr>pos_UUID := x\<rparr>) p
      else if k = ''endtxnid'' then dec_u64 v (\<lambda>x. p\<lparr>pos_EndTxnID := x\<rparr>) p
      else if k = ''slaveiorunning'' then dec_bool v (\<lambda>x. p\<lparr>pos_SlaveIORunning := x\<rparr>) p
      else if k = ''slavesqlrunning'' then dec_bool v (\<lambda>x. p\<lparr>pos_SlaveSQLRunning := x\<rparr>) p
      else if k = ''secondsbehindmaster'' then dec_int v (\<lambda>x. p\<lparr>pos_SecondsBehindMaster := x\<rparr>) p
      else Some p)"

definition dec_Position :: "json \<Rightarrow> (Position \<Rightarrow> 'r) \<Rightarrow> Position \<Rightarrow> 'r \<Rightarrow> 'r option" where
  "dec_Position v f p r =
     (case v of
        JNull \<Rightarrow> Some r
      | JObj ms \<Rightarrow> (case unmarshal_members upd_Position p ms of (q, ok) \<Rightarrow> if ok then Some (f q) else None)
      | _ \<Rightarrow> None)"

definition upd_NodeStatus :: "string \<Rightarrow> json \<Rightarrow> NodeStatus \<Rightarrow> NodeStatus option" where
  "upd_NodeStatus k v n =
     (if k = ''nodeid'' then dec_string v (\<lambda>x. n\<lparr>ns_NodeID := x\<rparr>) n
      else if k = ''internalhost'' then dec_string v (\<lambda>x. n\<lparr>ns_InternalHost := x\<rparr>) n
      else if k = ''externalhost'' then dec_string v (\<lambda>x. n\<lparr>ns_ExternalHost := x\<rparr>) n
      else if k = ''master'' then dec_bool v (\<lambda>x. n\<lparr>ns_IsMaster := x\<rparr>) n
      else if k = ''isalive'' then dec_bool v (\<lambda>x. n\<lparr>ns_IsAlive := x\<rparr>) n
      else if k = ''latestpos'' then dec_Position v (\<lambda>x. n\<lparr>ns_LatestPos := x\<rparr>) (ns_LatestPos n) n
      else Some n)"

section \<open>The registry\<close>

definition registryPath :: string where
  "registryPath = ''slave''"

definition refreshPath :: string where
  "refreshPath = ''binlog''"

definition to_err :: "error + unit \<Rightarrow> error option" where
  "to_err r = (case r of Inl e \<Rightarrow> Some e | Inr _ \<Rightarrow> None)"

definition register :: "agent_env \<Rightarrow> string \<Rightarrow> string \<Rightarrow> int \<Rightarrow> error option agent_io" where
  "register E key v ttl =
     andthen (reads a_ctxDone) (\<lambda>done.
     andthen (Lease_Grant done ttl) (\<lambda>lr. case lr of
       Inl e \<Rightarrow> ret (Some e)
     | Inr i \<Rightarrow> andthen (Client_Put (rootPath E) done key v i) (\<lambda>r. ret (to_err r))))"

definition RegisterNode :: "agent_env \<Rightarrow> string \<Rightarrow> string \<Rightarrow> string \<Rightarrow> int \<Rightarrow> agentStatus \<Rightarrow> error option agent_io" where
  "RegisterNode E nodeID internalHost externalHost ttl st =
     register E (join [registryPath, nodeID])
       (marshal_NodeStatus (zero_NodeStatus\<lparr>ns_NodeID := nodeID, ns_InternalHost := internalHost,
          ns_ExternalHost := externalHost, ns_IsMaster := as_Master st\<rparr>)) ttl"

text \<open>
  \<open>Node\<close>: the value under the registry key is decoded into a pointer, so a JSON null makes it nil, and
  setting its fields panics.
\<close>

definition decode_node :: "string \<Rightarrow> string option \<Rightarrow> (error + NodeStatus) agent_io" where
  "decode_node nodeID v =
     (case v of
        None \<Rightarrow> ret (Inl (ENotFound (''cannot found node '' @ nodeID @ '' from etcd'')))
      | Some n \<Rightarrow>
          if parse_json n = Some JNull then go_panic
          else case unmarshal upd_NodeStatus zero_NodeStatus n of
            (status, ok) \<Rightarrow>
              if ok then ret (Inr (status\<lparr>ns_IsAlive := True, ns_LatestPos := zero_Position\<rparr>))
              else ret (Inl (EMsg (''error unmarshal NodeStatus with nodeID '' @ nodeID))))"

definition Node :: "agent_env \<Rightarrow> string \<Rightarrow> (error + NodeStatus) agent_io" where
  "Node E nodeID =
     andthen (reads a_ctxDone) (\<lambda>done.
     andthen (Client_MultiGet (rootPath E) done [join [registryPath, nodeID], join [refreshPath, nodeID]]) (\<lambda>resp. case resp of
       Inl e \<Rightarrow> ret (Inl e)
     | Inr kvs \<Rightarrow> decode_node nodeID (map_of kvs (join [registryPath, nodeID]))))"

definition UnregisterNode :: "agent_env \<Rightarrow> string \<Rightarrow> error option agent_io" where
  "UnregisterNode E nodeID =
     andthen (close_chan a_registerStopCh (\<lambda>w. w\<lparr>a_registerStopCh := ClosedChan\<rparr>)) (\<lambda>_.
     andthen (reads a_ctxDone) (\<lambda>done.
     andthen (Client_Delete (rootPath E) done (join [registryPath, nodeID]) True) (\<lambda>r. ret (to_err r))))"

definition RefreshNode :: "agent_env \<Rightarrow> string \<Rightarrow> error option agent_io" where
  "RefreshNode E nodeID =
     andthen (reads a_ctxDone) (\<lambda>done.
     andthen (reads a_latestPos) (\<lambda>pos.
     andthen (Client_Put (rootPath E) done (join [refreshPath, nodeID]) (marshal_Position pos) 0) (\<lambda>r. ret (to_err r))))"

section \<open>The node\<close>

definition Register :: "agent_env \<Rightarrow> error option agent_io" where
  "Register E =
     andthen (reads (getServerStatus E)) (\<lambda>st.
     RegisterNode E (e_id E) (InternalServiceHost (e_cfg E)) (ExternalServiceHost (e_cfg E)) (RegisterTTL (e_cfg E)) st)"

definition Unregister :: "agent_env \<Rightarrow> error option agent_io" where
  "Unregister E = UnregisterNode E (e_id E)"

definition NodeStatus_of :: "agent_env \<Rightarrow> string \<Rightarrow> (error + NodeStatus) agent_io" where
  "NodeStatus_of E nodeID = Node E nodeID"

text \<open>
  The heartbeat goroutine over the events its \<open>select\<close> takes: a tick registers again and reports an
  error, a closed stop channel or a finished context ends it. The result is what it reported.
\<close>

datatype hb_event = HbTick | HbStop | HbDone

fun Heartbeat :: "agent_env \<Rightarrow> hb_event list \<Rightarrow> error list agent_io" where
  "Heartbeat E [] = (\<lambda>w. Wait w)"
| "Heartbeat E (ev # evs) =
     (case ev of
        HbTick \<Rightarrow>
          andthen (Register E) (\<lambda>err. andthen (Heartbeat E evs) (\<lambda>errs.
            ret (case err of None \<Rightarrow> errs | Some e \<Rightarrow> e # errs)))
      | HbStop \<Rightarrow> ret []
      | HbDone \<Rightarrow> ret [])"

definition heartbeat_period :: "agent_env \<Rightarrow> int" where
  "heartbeat_period E = wrap64 ((go_div (RegisterTTL (e_cfg E)) 3 + 1) * time_Second)"

section \<open>Helpers\<close>

definition parseHost :: "string \<Rightarrow> error + string \<times> string" where
  "parseHost address =
     (let addr = split_go (CHR '':'') address in
      if length addr > 2 then Inl (ENotValid ''leader host is not a valid address'')
      else if length addr = 1 then Inr (addr ! 0, ''3306'')
      else Inr (addr ! 0, addr ! 1))"

definition Concatenate :: "op list list \<Rightarrow> op list" where
  "Concatenate arrays = (case arrays of [] \<Rightarrow> [] | a # as \<Rightarrow> foldl (@) a as)"

section \<open>The JSON of the records reads back\<close>

lemma unmarshal_members_append:
  "unmarshal_members upd r (ms @ ns) =
     (case unmarshal_members upd r ms of (r', ok) \<Rightarrow>
        case unmarshal_members upd r' ns of (r'', ok') \<Rightarrow> (r'', ok \<and> ok'))"
proof -
  have flag: "fold (\<lambda>(k, v) (r, ok). case upd (to_lower k) v r of Some r' \<Rightarrow> (r', ok) | None \<Rightarrow> (r, False)) ns (r, ok) =
      (case fold (\<lambda>(k, v) (r, ok). case upd (to_lower k) v r of Some r' \<Rightarrow> (r', ok) | None \<Rightarrow> (r, False)) ns (r, True) of
         (r'', ok') \<Rightarrow> (r'', ok \<and> ok'))" for r ok
  proof (induction ns arbitrary: r ok)
    case (Cons m ns)
    obtain k v where m: "m = (k, v)" by (cases m)
    show ?case
    proof (cases "upd (to_lower k) v r")
      case None
      with m Cons.IH [of r False] show ?thesis by (simp add: case_prod_beta)
    next
      case (Some r')
      with m Cons.IH [of r' ok] show ?thesis by simp
    qed
  qed simp
  show ?thesis unfolding unmarshal_members_def fold_append comp_apply
    by (subst (1) surjective_pairing, subst flag) (simp add: case_prod_beta)
qed

lemma unmarshal_members_Cons:
  "upd (to_lower k) v r = Some r' \<Longrightarrow> unmarshal_members upd r ((k, v) # ms) = unmarshal_members upd r' ms"
  by (simp add: unmarshal_members_def)

lemma unmarshal_members_Nil [simp]: "unmarshal_members upd r [] = (r, True)"
  by (simp add: unmarshal_members_def)

lemma position_names:
  "to_lower ''File'' = ''file''" "to_lower ''Pos'' = ''pos''" "to_lower ''GTID'' = ''gtid''" "to_lower ''UUID'' = ''uuid''"
  "to_lower ''EndTxnID'' = ''endtxnid''" "to_lower ''SlaveIORunning'' = ''slaveiorunning''"
  "to_lower ''SlaveSQLRunning'' = ''slavesqlrunning''" "to_lower ''SecondsBehindMaster'' = ''secondsbehindmaster''"
  by code_simp+

lemma node_names:
  "to_lower ''NodeID'' = ''nodeid''" "to_lower ''InternalHost'' = ''internalhost''" "to_lower ''ExternalHost'' = ''externalhost''"
  "to_lower ''master'' = ''master''" "to_lower ''IsAlive'' = ''isalive''" "to_lower ''LatestPos'' = ''latestpos''"
  by code_simp+

lemmas dec_simps = dec_string_def dec_bool_def dec_u64_def dec_int_def

definition int_fits :: "int \<Rightarrow> bool" where
  "int_fits i \<longleftrightarrow> - (2 ^ 63) \<le> i \<and> i < 2 ^ 63"

lemma Position_members_back:
  assumes "int_fits (pos_SecondsBehindMaster p)"
  shows "unmarshal_members upd_Position zero_Position (members_Position p) = (p, True)"
proof -
  have a: "atoi (show_int (pos_SecondsBehindMaster p)) = Some (pos_SecondsBehindMaster p)"
    using assms atoi_show_int by (simp add: int_fits_def)
  show ?thesis
    by (cases p) (use a in \<open>simp add: members_Position_def unmarshal_members_def upd_Position_def position_names
      dec_simps zero_Position_def\<close>)
qed

lemma wf_Position_members: "list_all (\<lambda>m. wf_json (snd m)) (members_Position p)"
  by (simp add: members_Position_def del: wf_json.simps(1))

lemma wf_NodeStatus_members: "list_all (\<lambda>m. wf_json (snd m)) (members_NodeStatus n)"
  using wf_Position_members by (simp add: members_NodeStatus_def)

lemma NodeStatus_members_back:
  assumes "int_fits (pos_SecondsBehindMaster (ns_LatestPos n))"
  shows "unmarshal_members upd_NodeStatus zero_NodeStatus (members_NodeStatus n) = (n, True)"
  using Position_members_back [OF assms]
  by (cases n) (simp add: members_NodeStatus_def unmarshal_members_def [of upd_NodeStatus] upd_NodeStatus_def node_names
      dec_simps dec_Position_def zero_NodeStatus_def)

lemma NodeStatus_back:
  assumes "int_fits (pos_SecondsBehindMaster (ns_LatestPos n))"
  shows "unmarshal upd_NodeStatus zero_NodeStatus (marshal_NodeStatus n) = (n, True)"
  unfolding marshal_NodeStatus_def
  by (simp add: unmarshal_print wf_NodeStatus_members NodeStatus_members_back [OF assms] del: print_json.simps)

lemma marshal_NodeStatus_not_null: "parse_json (marshal_NodeStatus n) \<noteq> Some JNull"
  unfolding marshal_NodeStatus_def
  by (simp add: parse_print_json wf_NodeStatus_members del: print_json.simps)

section \<open>Registering and looking up\<close>

lemma good_registry_paths:
  assumes "good_comp nid"
  shows "good_rel (join [registryPath, nid])" "good_rel (join [refreshPath, nid])"
    "join [registryPath, nid] \<noteq> join [refreshPath, nid]"
proof -
  have r: "good_rel ''slave''" "good_rel ''binlog''" by code_simp+
  have "join [registryPath, nid] = ''slave'' @ CHR ''/'' # nid" "join [refreshPath, nid] = ''binlog'' @ CHR ''/'' # nid"
    unfolding join_def registryPath_def refreshPath_def
    by (rule path_join_rel; simp add: r good_rel_comp [OF assms])+
  then show "good_rel (join [registryPath, nid])" "good_rel (join [refreshPath, nid])"
    "join [registryPath, nid] \<noteq> join [refreshPath, nid]"
    using good_rel_append [OF r(1) good_rel_comp [OF assms]] good_rel_append [OF r(2) good_rel_comp [OF assms]] by simp_all
qed

lemma map_of_two_ranges:
  assumes "good_root r" "good_rel a" "good_rel b" "a \<noteq> b"
  shows "map_of (collect_kvs r (etcd_range e (KeyWithRootPath r a) @ etcd_range e (KeyWithRootPath r b)) []) a =
    etcd_value e (KeyWithRootPath r a)"
proof -
  have key: "etcd_get e (KeyWithRootPath r k) = Some x \<Longrightarrow> good_rel k \<Longrightarrow> trim_prefix (kv_key x) (root_prefix r) = k" for k x
    using trim_root [OF assms(1)] etcd_get_SomeD by fastforce
  show ?thesis
    using key assms(2-4) by (auto simp: map_of_collect etcd_range_def etcd_value_def map_add_def split: option.splits)
qed

lemma Node_reply:
  assumes "good_root (rootPath E)" and "good_comp nid" and "\<not> a_ctxDone w" and "n_script w = Rpc env RpcOK d1 d2 # rest"
  shows "Node E nid w = decode_node nid (etcd_value (env (n_etcd w)) (fullPathOf E (join [registryPath, nid])))
    (w\<lparr>n_script := rest, n_clock := n_clock w + int d1 + int d2, n_etcd := env (n_etcd w)\<rparr>)"
proof -
  note p = good_registry_paths [OF assms(2)]
  have "Client_MultiGet (rootPath E) False [join [registryPath, nid], join [refreshPath, nid]] w =
    Ret (Inr (collect_kvs (rootPath E) (etcd_range (env (n_etcd w)) (KeyWithRootPath (rootPath E) (join [registryPath, nid])) @
        etcd_range (env (n_etcd w)) (KeyWithRootPath (rootPath E) (join [refreshPath, nid]))) []))
      (w\<lparr>n_script := rest, n_clock := n_clock w + int d1 + int d2, n_etcd := env (n_etcd w)\<rparr>)"
    using MultiGet_reply [OF assms(1) _ assms(4), of "[join [registryPath, nid], join [refreshPath, nid]]"] p by simp
  then show ?thesis
    using assms(3) map_of_two_ranges [OF assms(1) p]
    by (simp add: Node_def andthen_def fullPathOf_def)
qed

lemma rpc_nil:
  assumes "rpc_call ctxDone f w = Ret (Inr a) w'"
  obtains env d1 d2 rest where "\<not> ctxDone" "n_script w = Rpc env RpcOK d1 d2 # rest"
    "fst (f (n_clock w + int d1) (env (n_etcd w))) = Inr a"
    "w' = w\<lparr>n_script := rest, n_clock := n_clock w + int d1 + int d2, n_etcd := snd (f (n_clock w + int d1) (env (n_etcd w)))\<rparr>"
  using assms by (cases rule: rpc_call_cases [of ctxDone f w]) (use that in auto)

lemma register_puts:
  assumes "register E key v ttl w = Ret None w'"
  shows "etcd_value (n_etcd w') (fullPathOf E key) = Some v \<and> a_ctxDone w' = a_ctxDone w \<and> \<not> a_ctxDone w"
proof -
  from assms obtain i w1 where g: "Lease_Grant (a_ctxDone w) ttl w = Ret (Inr i) w1"
    and p: "Client_Put (rootPath E) (a_ctxDone w) key v i w1 = Ret (Inr ()) w'"
    by (auto simp: register_def to_err_def elim!: andthen_RetE split: sum.splits)
  from g have "a_ctxDone w1 = a_ctxDone w" "\<not> a_ctxDone w"
    unfolding Lease_Grant_def by (auto elim!: rpc_nil)
  with p show ?thesis unfolding Client_Put_def
    by (auto simp: etcd_put_def fullPathOf_def split: if_splits elim!: rpc_nil)
qed

text \<open>
  C22: a node that registered is found by any agent of the cluster whose lookup reaches the store while
  the key is still there: the status carries the registered hosts and whether the node was master when
  it registered.
\<close>

theorem registered_node_found:
  assumes "good_root (rootPath E)" and "good_comp (e_id E)" and "Register E w = Ret None w'"
    and "rootPath F = rootPath E" and "\<not> a_ctxDone r" and "n_script r = Rpc env RpcOK d1 d2 # rest"
    and kept: "etcd_value (env (n_etcd r)) (fullPathOf E (join [registryPath, e_id E])) =
      etcd_value (n_etcd w') (fullPathOf E (join [registryPath, e_id E]))"
  shows "\<exists>n r'. NodeStatus_of F (e_id E) r = Ret (Inr n) r' \<and> ns_NodeID n = e_id E \<and>
    ns_InternalHost n = InternalServiceHost (e_cfg E) \<and> ns_ExternalHost n = ExternalServiceHost (e_cfg E) \<and>
    ns_IsMaster n = amILeader w \<and> ns_IsAlive n"
proof -
  let ?n = "zero_NodeStatus\<lparr>ns_NodeID := e_id E, ns_InternalHost := InternalServiceHost (e_cfg E),
    ns_ExternalHost := ExternalServiceHost (e_cfg E), ns_IsMaster := amILeader w\<rparr>"
  have "register E (join [registryPath, e_id E]) (marshal_NodeStatus ?n) (RegisterTTL (e_cfg E)) w = Ret None w'"
    using assms(3) by (simp add: Register_def RegisterNode_def getServerStatus_def)
  from register_puts [OF this] have v: "etcd_value (n_etcd w') (fullPathOf E (join [registryPath, e_id E])) = Some (marshal_NodeStatus ?n)"
    by auto
  have "unmarshal upd_NodeStatus zero_NodeStatus (marshal_NodeStatus ?n) = (?n, True)"
    by (rule NodeStatus_back) (simp add: zero_NodeStatus_def zero_Position_def int_fits_def)
  moreover have "fullPathOf F = fullPathOf E" by (rule ext) (simp add: fullPathOf_def assms(4))
  ultimately show ?thesis
    unfolding NodeStatus_of_def Node_reply [of F, unfolded assms(4), OF assms(1,2,5,6)]
    by (simp add: decode_node_def marshal_NodeStatus_not_null kept v)
qed

lemma ex_root: "rootPath (ex_env i) = ''/moha/c1''"
  by (simp add: rootPath_def NewClientFromCfg_rootPath_def keyWithPrefix_def ex_env_def ex_cfg_def path_clean_def)

lemma ex_root_good: "good_root ''/moha/c1''" "good_comp ''n1''" "good_comp ''n2''"
proof -
  show "good_root ''/moha/c1''" unfolding good_root_def by (rule disjI2, rule exI [of _ "''moha/c1''"]) (simp, code_simp)
qed code_simp+

lemma ex_register: "ret_value (Register (ex_env ''n1'') (ex_agent ''n1'' empty_etcd [rpc_ok, rpc_ok] [])) = Some None"
proof -
  have "KeyWithRootPath ''/moha/c1'' (join [registryPath, ''n1'']) \<noteq> []"
    by (rule good_path_neq_Nil [OF ex_root_good(1) good_registry_paths(1) [OF ex_root_good(2)]])
  then show ?thesis
    by (simp add: Register_def RegisterNode_def register_def ex_root andthen_def Lease_Grant_def Client_Put_def rpc_call_def
      rpc_ok_def lease_grant_def MaxLeaseTTL_def empty_etcd_def etcd_put_def lease_lookup_def to_err_def Let_def)
qed

theorem registered_node_found_witness:
  "\<exists>n r. NodeStatus_of (ex_env ''n2'') ''n1'' (ex_agent ''n2'' (n_etcd (final_world (Register (ex_env ''n1'')
       (ex_agent ''n1'' empty_etcd [rpc_ok, rpc_ok] [])))) [rpc_ok] []) = Ret (Inr n) r \<and> ns_ExternalHost n = ''db1.example:3306''"
  using registered_node_found [of "ex_env ''n1''" _ _ "ex_env ''n2''", unfolded ex_root ex_env_fields,
      OF ex_root_good(1,2) ret_value_Some [OF ex_register] refl,
      of "ex_agent ''n2'' (n_etcd (final_world (Register (ex_env ''n1'') (ex_agent ''n1'' empty_etcd [rpc_ok, rpc_ok] [])))) [rpc_ok] []"]
  by (simp add: rpc_ok_def) blast

end
