(* ===== verification/Agent_Leader.thy ===== *)
theory Agent_Leader
  imports Agent_Registry
begin

text \<open>
  \<open>src/agent/leader.go\<close>: the leader key and its meta data in etcd, the transactions that take, resume
  and give up leadership, the loops that keep the lease alive and that stop the process before the
  lease runs out, and the watch of a slave on the leader key. The lemmas give each transaction's effect
  on the store and the margin the lease monitor leaves.
\<close>

section \<open>Paths\<close>

definition electionPath :: string where
  "electionPath = ''election''"

definition leaderPath :: string where
  "leaderPath = ''master''"

definition termPath :: string where
  "termPath = join [electionPath, ''master'', ''term'']"

definition idPath :: string where
  "idPath = join [electionPath, ''master'', ''id'']"

definition lastUUIDPath :: string where
  "lastUUIDPath = join [electionPath, ''master'', ''last_uuid'']"

definition lastGTIDPath :: string where
  "lastGTIDPath = join [electionPath, ''master'', ''last_gtid'']"

definition lastTxnIDPath :: string where
  "lastTxnIDPath = join [electionPath, ''master'', ''last_txnid'']"

definition metaVersionPath :: string where
  "metaVersionPath = join [electionPath, ''master'', ''meta_version'']"

definition mytermPathPrefix :: string where
  "mytermPathPrefix = join [electionPath, ''terms'']"

definition spmPath :: string where
  "spmPath = ''single_point_master''"

definition myTermPath :: "agent_env \<Rightarrow> string" where
  "myTermPath E = join [mytermPathPrefix, e_id E]"

definition fullLeaderPath :: "agent_env \<Rightarrow> string" where
  "fullLeaderPath E = fullPathOf E leaderPath"

section \<open>The leader in etcd\<close>

record LeaderMeta =
  lm_name :: string
  lm_term :: u64
  lm_lastUUID :: string
  lm_lastGTID :: string
  lm_lastTxnID :: u64
  lm_version :: int

record Leader =
  ld_name :: string
  ld_kv :: "kv option"
  ld_meta :: LeaderMeta
  ld_spm :: string

definition zero_Leader :: Leader where
  "zero_Leader = \<lparr>ld_name = [], ld_kv = None,
     ld_meta = \<lparr>lm_name = [], lm_term = 0, lm_lastUUID = [], lm_lastGTID = [], lm_lastTxnID = 0, lm_version = 0\<rparr>,
     ld_spm = []\<rparr>"

definition set_meta :: "(LeaderMeta \<Rightarrow> LeaderMeta) \<Rightarrow> Leader \<Rightarrow> Leader" where
  "set_meta f ld = ld\<lparr>ld_meta := f (ld_meta ld)\<rparr>"

section \<open>Operations of the transactions\<close>

definition leaderCmp :: "agent_env \<Rightarrow> agent \<Rightarrow> cmp" where
  "leaderCmp E w = CmpValue (KeyWithRootPath (rootPath E) leaderPath) (a_leaderValue w)"

definition leaderGetOps :: "agent_env \<Rightarrow> op list" where
  "leaderGetOps E = [OpGet (fullPathOf E leaderPath), OpGet (fullPathOf E termPath), OpGet (fullPathOf E idPath),
     OpGet (fullPathOf E metaVersionPath), OpGet (fullPathOf E lastUUIDPath), OpGet (fullPathOf E lastTxnIDPath),
     OpGet (fullPathOf E lastGTIDPath)]"

text \<open>A negative lease id stands for no lease, which is lease 0 in the request.\<close>

definition leaderPutOps :: "agent_env \<Rightarrow> agent \<Rightarrow> int \<Rightarrow> u64 \<Rightarrow> op list" where
  "leaderPutOps E w leaseID term =
     (let l = (if leaseID < 0 then 0 else leaseID) in
      [OpPut (fullPathOf E leaderPath) (a_leaderValue w) l,
       OpPut (fullPathOf E termPath) (show_u64 term) 0,
       OpPut (fullPathOf E idPath) (e_id E) 0,
       OpPut (fullPathOf E metaVersionPath) (show_int globalSchemaVersion) l,
       OpPut (fullPathOf E lastTxnIDPath) (show_u64 (a_lastTxnID w)) 0,
       OpPut (fullPathOf E lastUUIDPath) (a_lastUUID w) 0,
       OpPut (fullPathOf E lastGTIDPath) (a_lastGTID w) 0])"

definition myTermGetOps :: "agent_env \<Rightarrow> op list" where
  "myTermGetOps E = [OpGet (fullPathOf E (myTermPath E))]"

definition myTermPutOps :: "agent_env \<Rightarrow> agent \<Rightarrow> bool \<Rightarrow> op list" where
  "myTermPutOps E w increment =
     [OpPut (fullPathOf E (myTermPath E)) (show_u64 (if increment then a_term w + 1 else 0)) 0]"

definition spmGetOps :: "agent_env \<Rightarrow> op list" where
  "spmGetOps E = [OpGet (fullPathOf E spmPath)]"

definition spmPutOps :: "agent_env \<Rightarrow> op list" where
  "spmPutOps E = [OpPut (fullPathOf E spmPath) (e_id E) 0]"

definition persistMyTerm :: "agent_env \<Rightarrow> error option agent_io" where
  "persistMyTerm E =
     andthen (reads a_ctxDone) (\<lambda>d.
     andthen (reads a_term) (\<lambda>t.
     andthen (Client_Put (rootPath E) d (myTermPath E) (show_u64 t) 0) (\<lambda>r. ret (to_err r))))"

section \<open>Reading the leader\<close>

definition read_leader_kv :: "agent_env \<Rightarrow> kv \<Rightarrow> Leader \<times> u64 \<Rightarrow> error + Leader \<times> u64" where
  "read_leader_kv E x = (\<lambda>(ld, myTerm).
     (let key = kv_key x; v = kv_value x in
      if key = fullPathOf E leaderPath then Inr (ld\<lparr>ld_kv := Some x, ld_name := v\<rparr>, myTerm)
      else if key = fullPathOf E termPath then
        (case atoi v of
           None \<Rightarrow> Inl (EMsg (''strconv.Atoi: parsing '' @ v))
         | Some t \<Rightarrow> Inr (set_meta (\<lambda>m. m\<lparr>lm_term := of_int t\<rparr>) ld, myTerm))
      else if key = fullPathOf E idPath then Inr (set_meta (\<lambda>m. m\<lparr>lm_name := v\<rparr>) ld, myTerm)
      else if key = fullPathOf E lastUUIDPath then Inr (set_meta (\<lambda>m. m\<lparr>lm_lastUUID := v\<rparr>) ld, myTerm)
      else if key = fullPathOf E lastGTIDPath then Inr (set_meta (\<lambda>m. m\<lparr>lm_lastGTID := v\<rparr>) ld, myTerm)
      else if key = fullPathOf E metaVersionPath then
        (case atoi v of
           None \<Rightarrow> Inr (ld, myTerm)
         | Some n \<Rightarrow> Inr (set_meta (\<lambda>m. m\<lparr>lm_version := n\<rparr>) ld, myTerm))
      else if key = fullPathOf E lastTxnIDPath then
        (case parse_uint64 v of
           None \<Rightarrow> Inr (ld, myTerm)
         | Some n \<Rightarrow> Inr (set_meta (\<lambda>m. m\<lparr>lm_lastTxnID := n\<rparr>) ld, myTerm))
      else if key = fullPathOf E spmPath then Inr (ld\<lparr>ld_spm := v\<rparr>, myTerm)
      else if key = fullPathOf E (myTermPath E) then
        (case parse_uint64 v of
           None \<Rightarrow> Inl (ENotValid (''fail to parse term '' @ v @ '' from etcd''))
         | Some n \<Rightarrow> Inr (ld, n))
      else Inr (ld, myTerm)))"

fun read_leader :: "agent_env \<Rightarrow> op_resp list \<Rightarrow> Leader \<times> u64 \<Rightarrow> error + Leader \<times> u64" where
  "read_leader E [] acc = Inr acc"
| "read_leader E (r # rs) acc =
     (case r of
        RangeResp (x # _) \<Rightarrow> (case read_leader_kv E x acc of Inl e \<Rightarrow> Inl e | Inr acc' \<Rightarrow> read_leader E rs acc')
      | _ \<Rightarrow> read_leader E rs acc)"

definition getLeaderAndMyTerm :: "agent_env \<Rightarrow> (error + Leader \<times> u64) agent_io" where
  "getLeaderAndMyTerm E =
     andthen (reads a_ctxDone) (\<lambda>d.
     andthen (Client_Txn d [] (Concatenate [leaderGetOps E, myTermGetOps E, spmGetOps E])) (\<lambda>r. case r of
       Inl e \<Rightarrow> ret (Inl e)
     | Inr (_, rs) \<Rightarrow> ret (read_leader E rs (zero_Leader, 0))))"

section \<open>Taking, resuming and giving up leadership\<close>

definition deleteLeaderKey :: "agent_env \<Rightarrow> error option agent_io" where
  "deleteLeaderKey E =
     andthen (reads a_ctxDone) (\<lambda>d.
     andthen (reads (leaderCmp E)) (\<lambda>c.
     andthen (Client_Txn d [c] [OpDelete (fullLeaderPath E), OpDelete (fullPathOf E metaVersionPath)]) (\<lambda>r. case r of
       Inl e \<Rightarrow> ret (Some e)
     | Inr (ok, _) \<Rightarrow> if ok then ret None else ret (Some (EMsg ''resign leader failed, we are not leader already'')))))"

definition updateLeaseExpireTS :: "agent_env \<Rightarrow> unit agent_io" where
  "updateLeaseExpireTS E =
     updates (\<lambda>w. w\<lparr>a_leaseExpireTS := (n_clock w + wrap64 (LeaderLeaseTTL (e_cfg E) * time_Second) +
       wrap64 (- wrap64 (ShutdownThreshold (e_cfg E) * time_Second))) div time_Second\<rparr>)"

text \<open>The result of a campaign: an error, the lease of the new leader, or none when it was lost.\<close>

definition lease_txn :: "agent_env \<Rightarrow> cmp \<Rightarrow> (int \<Rightarrow> op list) \<Rightarrow> (error + int option) agent_io" where
  "lease_txn E c ops =
     andthen (reads a_ctxDone) (\<lambda>d.
     andthen (Lease_Grant d (LeaderLeaseTTL (e_cfg E))) (\<lambda>lr. case lr of
       Inl e \<Rightarrow> ret (Inl e)
     | Inr i \<Rightarrow>
         andthen (Client_Txn d [c] (ops i)) (\<lambda>r. case r of
           Inl e \<Rightarrow> ret (Inl e)
         | Inr (ok, _) \<Rightarrow> ret (Inr (if ok then Some i else None)))))"

definition resumeLeader :: "agent_env \<Rightarrow> (error + int option) agent_io" where
  "resumeLeader E =
     andthen (reads id) (\<lambda>s.
     andthen (lease_txn E (leaderCmp E s) (\<lambda>i. leaderPutOps E s i (a_term s))) (\<lambda>r. case r of
       Inr (Some i) \<Rightarrow> andthen (updateLeaseExpireTS E) (\<lambda>_. ret (Inr (Some i)))
     | _ \<Rightarrow> ret r))"

definition campaignLeader :: "agent_env \<Rightarrow> (error + int option) agent_io" where
  "campaignLeader E =
     andthen (reads id) (\<lambda>s.
     lease_txn E (CmpCreateRevision (fullLeaderPath E) 0)
       (\<lambda>i. leaderPutOps E s i (a_term s + 1) @ myTermPutOps E s True))"

section \<open>Stopping before the lease runs out\<close>

text \<open>One wake-up of the monitor: exit, or the time until the next.\<close>

definition monitor_check :: "int agent_io" where
  "monitor_check =
     andthen (reads a_leaseExpireTS) (\<lambda>expire.
     andthen (reads n_clock) (\<lambda>t.
       let delta = expire - t div time_Second in
       if delta \<le> 0 then forceClose else ret (wrap64 (delta * time_Second))))"

text \<open>
  The monitor over its events. When the timer fires, late by some time, the keep-alive goroutine may
  have stored a new expiry meanwhile, which the event carries.
\<close>

datatype mon_event = MonTimer nat int | MonStop | MonDone

fun leaseExpireMonitorLoop :: "int \<Rightarrow> mon_event list \<Rightarrow> unit agent_io" where
  "leaseExpireMonitorLoop timer [] = (\<lambda>w. Wait w)"
| "leaseExpireMonitorLoop timer (ev # evs) =
     (case ev of
        MonTimer late expire \<Rightarrow>
          andthen (time_Sleep (timer + int late)) (\<lambda>_.
          andthen (updates (\<lambda>w. w\<lparr>a_leaseExpireTS := expire\<rparr>)) (\<lambda>_.
          andthen monitor_check (\<lambda>next. leaseExpireMonitorLoop next evs)))
      | MonStop \<Rightarrow> ret ()
      | MonDone \<Rightarrow> ret ())"

section \<open>Watching the leader\<close>

function watchLeader :: "int \<Rightarrow> agent \<Rightarrow> (agent, error option) outcome" where
  "watchLeader revision w =
     (case a_watch w of
        [] \<Rightarrow> Wait w
      | ev # rest \<Rightarrow>
          (case ev of
             WatchErr e d \<Rightarrow> Ret (Some e) (w\<lparr>a_watch := rest, n_clock := n_clock w + int d\<rparr>)
           | WatchCanceled d \<Rightarrow> Ret None (w\<lparr>a_watch := rest, n_clock := n_clock w + int d\<rparr>)
           | WatchEvents dels d \<Rightarrow>
               if True \<in> set dels then Ret None (w\<lparr>a_watch := rest, n_clock := n_clock w + int d\<rparr>)
               else watchLeader revision (w\<lparr>a_watch := rest, n_clock := n_clock w + int d\<rparr>)
           | WatchClosed c d \<Rightarrow>
               if a_ctxDone w \<or> c then
                 Ret None (w\<lparr>a_watch := rest, n_clock := n_clock w + int d, a_ctxDone := True\<rparr>)
               else watchLeader revision (w\<lparr>a_watch := rest,
                      n_clock := n_clock w + int d + 100 * time_Millisecond\<rparr>)))"
  by pat_completeness auto

termination
proof (relation "measure (\<lambda>(_, w). length (a_watch w))")
qed auto

declare watchLeader.simps [simp del]

section \<open>The keys are distinct\<close>

definition wf_env :: "agent_env \<Rightarrow> bool" where
  "wf_env E \<longleftrightarrow> good_root (rootPath E) \<and> good_comp (e_id E)"

lemma path_values:
  "leaderPath = ''master''" "termPath = ''election/master/term''" "idPath = ''election/master/id''"
  "lastUUIDPath = ''election/master/last_uuid''" "lastGTIDPath = ''election/master/last_gtid''"
  "lastTxnIDPath = ''election/master/last_txnid''" "metaVersionPath = ''election/master/meta_version''"
  "spmPath = ''single_point_master''" "mytermPathPrefix = ''election/terms''"
  by code_simp+

lemma good_paths:
  "good_rel leaderPath" "good_rel termPath" "good_rel idPath" "good_rel lastUUIDPath" "good_rel lastGTIDPath"
  "good_rel lastTxnIDPath" "good_rel metaVersionPath" "good_rel spmPath" "good_rel mytermPathPrefix"
  by code_simp+

lemma myTermPath_eq: "wf_env E \<Longrightarrow> myTermPath E = ''election/terms'' @ CHR ''/'' # e_id E"
  using good_paths(9) path_join_rel [of mytermPathPrefix "e_id E"]
  by (simp add: myTermPath_def join_def wf_env_def good_rel_comp path_values)

lemma good_myTermPath: "wf_env E \<Longrightarrow> good_rel (myTermPath E)"
  using good_rel_append [OF good_paths(9)] by (simp add: myTermPath_eq wf_env_def good_rel_comp path_values)

lemma fullPathOf_inj:
  "wf_env E \<Longrightarrow> good_rel a \<Longrightarrow> good_rel b \<Longrightarrow> fullPathOf E a = fullPathOf E b \<longleftrightarrow> a = b"
  unfolding fullPathOf_def KeyWithRootPath_def keyWithPrefix_def wf_env_def by (blast dest: path_join_root_inj)

lemma fullPathOf_neq_Nil: "wf_env E \<Longrightarrow> good_rel a \<Longrightarrow> fullPathOf E a \<noteq> []"
  by (simp add: fullPathOf_def wf_env_def good_path_neq_Nil)

lemma leader_paths_distinct:
  assumes "wf_env E"
  shows "distinct (map (fullPathOf E) [leaderPath, termPath, idPath, metaVersionPath, lastTxnIDPath,
    lastUUIDPath, lastGTIDPath, myTermPath E, spmPath])"
proof -
  have "distinct [leaderPath, termPath, idPath, metaVersionPath, lastTxnIDPath, lastUUIDPath, lastGTIDPath, myTermPath E, spmPath]"
    by (simp add: path_values myTermPath_eq [OF assms])
  moreover have "inj_on (fullPathOf E) (set [leaderPath, termPath, idPath, metaVersionPath, lastTxnIDPath, lastUUIDPath, lastGTIDPath, myTermPath E, spmPath])"
    using fullPathOf_inj [OF assms] good_paths good_myTermPath [OF assms] by (auto simp: inj_on_def)
  ultimately show ?thesis by (simp only: distinct_map)
qed

lemma leader_paths_nonempty:
  assumes "wf_env E" and "p \<in> {leaderPath, termPath, idPath, metaVersionPath, lastTxnIDPath, lastUUIDPath, lastGTIDPath, myTermPath E, spmPath}"
  shows "fullPathOf E p \<noteq> []"
  using assms good_paths good_myTermPath [OF assms(1)] fullPathOf_neq_Nil by auto

section \<open>The transactions are valid requests\<close>

lemma checkTxn_campaign:
  assumes "wf_env E"
  shows "checkTxnRequest (leaderPutOps E w i t @ myTermPutOps E w b)" "checkTxnRequest (leaderPutOps E w i t)"
    "checkTxnRequest (leaderPutOps E w i t @ myTermPutOps E w b @ spmPutOps E)"
  using leader_paths_distinct [OF assms] leader_paths_nonempty [OF assms]
  by (simp_all add: checkTxnRequest_def leaderPutOps_def myTermPutOps_def spmPutOps_def Let_def)

lemma checkTxn_delete:
  "wf_env E \<Longrightarrow> checkTxnRequest [OpDelete (fullLeaderPath E), OpDelete (fullPathOf E metaVersionPath)]"
  using leader_paths_nonempty [of E] by (simp add: checkTxnRequest_def fullLeaderPath_def)

section \<open>What the transactions do\<close>

text \<open>An rpc changes the store, the script and the clock, and nothing else of the agent.\<close>

definition net_only :: "agent \<Rightarrow> agent \<Rightarrow> bool" where
  "net_only w w' \<longleftrightarrow> net.more w' = net.more w \<and> n_clock w \<le> n_clock w'"

lemma net_only_refl: "net_only w w"
  by (simp add: net_only_def)

lemma net_only_trans: "net_only w w' \<Longrightarrow> net_only w' w'' \<Longrightarrow> net_only w w''"
  by (simp add: net_only_def)

lemma net_only_rpc: "rpc_call d f w = Ret r w' \<Longrightarrow> net_only w w'"
  by (cases rule: rpc_call_cases [of d f w]) (auto simp: net_only_def)

lemma net_only_fields:
  assumes "net_only w w'"
  shows "a_ctxDone w' = a_ctxDone w" "a_isLeader w' = a_isLeader w" "a_term w' = a_term w"
    "a_leaderValue w' = a_leaderValue w" "a_isClosed w' = a_isClosed w" "a_leaderStopCh w' = a_leaderStopCh w"
    "a_lastUUID w' = a_lastUUID w" "a_lastGTID w' = a_lastGTID w" "a_lastTxnID w' = a_lastTxnID w"
    "d_readonly w' = d_readonly w" "d_log w' = d_log w" "a_leaseExpireTS w' = a_leaseExpireTS w"
    "a_isSinglePointMaster w' = a_isSinglePointMaster w" "n_clock w \<le> n_clock w'"
    "d_sql w' = d_sql w" "d_cmds w' = d_cmds w" "a_latestPos w' = a_latestPos w" "a_uuid w' = a_uuid w"
  using assms by (cases w; cases w'; simp add: net_only_def)+

lemma Client_Txn_Inr:
  assumes "Client_Txn d cs ops w = Ret (Inr (ok, rs)) w'"
  obtains env d1 d2 rest where "\<not> d" "n_script w = Rpc env RpcOK d1 d2 # rest"
    "etcd_txn cs ops (env (n_etcd w)) = (Inr (ok, rs), n_etcd w')" "net_only w w'"
    "n_script w' = rest" "n_clock w' = n_clock w + int d1 + int d2"
proof -
  from assms obtain env d1 d2 rest where *: "\<not> d" "n_script w = Rpc env RpcOK d1 d2 # rest"
    "fst (etcd_txn cs ops (env (n_etcd w))) = Inr (ok, rs)"
    "w' = w\<lparr>n_script := rest, n_clock := n_clock w + int d1 + int d2, n_etcd := snd (etcd_txn cs ops (env (n_etcd w)))\<rparr>"
    unfolding Client_Txn_def by (elim rpc_nil)
  show thesis
    using that [of env d1 d2 rest] * assms by (auto simp: prod_eq_iff Client_Txn_def dest: net_only_rpc)
qed

text \<open>
  A won campaign or resumption: the transaction found its comparison true in a well-formed store and
  left its writes there.
\<close>

lemma lease_txn_won:
  assumes "lease_txn E c ops w = Ret (Inr (Some i)) w'" and "stable wf_etcd w"
  obtains e rs where "wf_etcd e" "etcd_txn [c] (ops i) e = (Inr (True, rs), n_etcd w')" "net_only w w'" "\<not> a_ctxDone w" "0 < i"
proof -
  from assms(1) obtain w1 rs where g: "Lease_Grant (a_ctxDone w) (LeaderLeaseTTL (e_cfg E)) w = Ret (Inr i) w1"
    and t: "Client_Txn (a_ctxDone w) [c] (ops i) w1 = Ret (Inr (True, rs)) w'"
    by (auto simp: lease_txn_def elim!: andthen_RetE split: sum.splits prod.splits if_splits)
  have st: "stable wf_etcd w1" using keeps_RetD [OF stable_wf_client(4) assms(2) g] .
  have n: "net_only w w1" using g unfolding Lease_Grant_def by (rule net_only_rpc)
  from t obtain env d1 d2 rest' where *: "\<not> a_ctxDone w" "n_script w1 = Rpc env RpcOK d1 d2 # rest'"
    "etcd_txn [c] (ops i) (env (n_etcd w1)) = (Inr (True, rs), n_etcd w')" "net_only w1 w'"
    by (rule Client_Txn_Inr)
  have "wf_etcd (env (n_etcd w1))" using st *(2) by (auto simp: stable_def rely_def)
  moreover have "0 < i"
  proof -
    from g obtain env d1 d2 rest where "n_script w = Rpc env RpcOK d1 d2 # rest"
      "fst (lease_grant (n_clock w + int d1) (LeaderLeaseTTL (e_cfg E)) (env (n_etcd w))) = Inr i"
      unfolding Lease_Grant_def by (elim rpc_nil)
    moreover from this(1) assms(2) have "wf_etcd (env (n_etcd w))" by (auto simp: stable_def rely_def)
    ultimately show ?thesis by (auto simp: lease_grant_def Let_def wf_etcd_def split: if_splits)
  qed
  ultimately show thesis using * n net_only_trans by (intro that) auto
qed

lemma txn_compare: "etcd_txn [c] ops e = (Inr (True, rs), e') \<Longrightarrow> applyCompare e c"
  by (drule etcd_txn_True) simp

lemma leaderPutOps_keys:
  "set (put_keys (leaderPutOps E w i t)) = fullPathOf E ` {leaderPath, termPath, idPath, metaVersionPath, lastTxnIDPath, lastUUIDPath, lastGTIDPath}"
  "del_keys (leaderPutOps E w i t) = []"
  by (auto simp: leaderPutOps_def Let_def)

text \<open>A transaction whose comparison is false, and stays false whatever others do, has no effect.\<close>

lemma failing_txn:
  assumes "\<And>e. P e \<Longrightarrow> \<not> applyCompare e c"
  shows "keeps (stable P) (Client_Txn d [c] ops)"
    and "stable P (w :: agent) \<Longrightarrow> Client_Txn d [c] ops w \<noteq> Ret (Inr (True, rs)) w'"
proof -
  have same: "P e \<Longrightarrow> snd (etcd_txn [c] ops e) = e" for e using assms [of e] by (simp add: etcd_txn_def)
  then show "keeps (stable P) (Client_Txn d [c] ops)"
    unfolding Client_Txn_def by (intro stable_rpc_call) simp
  show "Client_Txn d [c] ops w \<noteq> Ret (Inr (True, rs)) w'" if "stable P w"
  proof
    assume "Client_Txn d [c] ops w = Ret (Inr (True, rs)) w'"
    then obtain env d1 d2 rest where "n_script w = Rpc env RpcOK d1 d2 # rest"
      "etcd_txn [c] ops (env (n_etcd w)) = (Inr (True, rs), n_etcd w')" by (rule Client_Txn_Inr)
    moreover from this(1) that have "P (env (n_etcd w))" by (auto simp: stable_def rely_def)
    ultimately show False using txn_compare assms by blast
  qed
qed

lemma lease_txn_excluded:
  assumes c: "\<And>e. P e \<Longrightarrow> \<not> applyCompare e c" and g: "\<And>now t e. P e \<Longrightarrow> P (snd (lease_grant now t e))"
    and "stable P w"
  shows "stable P (final_world (lease_txn E c ops w))" and "lease_txn E c ops w \<noteq> Ret (Inr (Some i)) w'"
proof -
  have k: "keeps (stable P) (Lease_Grant d t :: (error + int) agent_io)" for d t
    unfolding Lease_Grant_def by (intro stable_rpc_call) (rule g)
  have "keeps (stable P) (lease_txn E c ops)"
    unfolding lease_txn_def by (intro hoare k failing_txn(1) [OF c])
  then show "stable P (final_world (lease_txn E c ops w))" using assms(3) by (rule keepsD)
  show "lease_txn E c ops w \<noteq> Ret (Inr (Some i)) w'"
  proof
    assume "lease_txn E c ops w = Ret (Inr (Some i)) w'"
    then obtain w1 rs d where gr: "Lease_Grant d (LeaderLeaseTTL (e_cfg E)) w = Ret (Inr i) w1"
      and tx: "Client_Txn d [c] (ops i) w1 = Ret (Inr (True, rs)) w'"
      by (auto simp: lease_txn_def elim!: andthen_RetE split: sum.splits prod.splits if_splits)
    show False using failing_txn(2) [where P = P, OF c keeps_RetD [OF k assms(3) gr]] tx by blast
  qed
qed

lemma leaderCmp_value:
  "applyCompare e (leaderCmp E w) \<longleftrightarrow> etcd_value e (fullLeaderPath E) = Some (a_leaderValue w)"
  unfolding leaderCmp_def compare_value by (simp add: fullLeaderPath_def fullPathOf_def)

text \<open>
  C6: a campaign that wins leaves the leader key with the agent's own value under the lease it was
  granted, with the term increased by one both in the leader's meta data and in the agent's own entry,
  and changes nothing of the agent's own state.
\<close>

theorem campaign_wins:
  assumes "wf_env E" and "stable wf_etcd w" and win: "campaignLeader E w = Ret (Inr (Some i)) w'"
  shows "0 < i \<and> etcd_held (n_etcd w') (fullLeaderPath E) = Some (a_leaderValue w, i) \<and>
    etcd_value (n_etcd w') (fullPathOf E termPath) = Some (show_u64 (a_term w + 1)) \<and>
    etcd_value (n_etcd w') (fullPathOf E idPath) = Some (e_id E) \<and>
    etcd_value (n_etcd w') (fullPathOf E (myTermPath E)) = Some (show_u64 (a_term w + 1)) \<and>
    net_only w w'"
proof -
  let ?ops = "\<lambda>i. leaderPutOps E w i (a_term w + 1) @ myTermPutOps E w True"
  from win have "lease_txn E (CmpCreateRevision (fullLeaderPath E) 0) ?ops w = Ret (Inr (Some i)) w'"
    by (simp add: campaignLeader_def)
  then obtain e rs where t: "etcd_txn [CmpCreateRevision (fullLeaderPath E) 0] (?ops i) e = (Inr (True, rs), n_etcd w')"
    and n: "net_only w w'" and i: "0 < i" using assms(2) by (rule lease_txn_won)
  have "etcd_held (n_etcd w') k = Some (v, l)" if "OpPut k v l \<in> set (?ops i)" for k v l
    using etcd_txn_put [OF t that] .
  then show ?thesis using n i
    by (simp add: etcd_value_held fullLeaderPath_def leaderPutOps_def myTermPutOps_def Let_def) blast
qed

text \<open>
  C5: while the leader key exists, whoever holds it, no campaign wins, and the agent's own requests
  leave the key as it is: its value and its lease.
\<close>

theorem campaign_excluded:
  assumes "stable (\<lambda>e. wf_etcd e \<and> etcd_held e (fullLeaderPath E) = Some (v, l)) w"
  shows "(\<forall>i w'. campaignLeader E w \<noteq> Ret (Inr (Some i)) w') \<and>
    etcd_held (n_etcd (final_world (campaignLeader E w))) (fullLeaderPath E) = Some (v, l)"
proof -
  let ?P = "\<lambda>e. wf_etcd e \<and> etcd_held e (fullLeaderPath E) = Some (v, l)"
  have c: "?P e \<Longrightarrow> \<not> applyCompare e (CmpCreateRevision (fullLeaderPath E) 0)" for e
    using create_revision_zero [of e "fullLeaderPath E"] by (auto simp: etcd_value_held)
  have g: "?P e \<Longrightarrow> ?P (snd (lease_grant now t e))" for now t e by (simp add: wf_lease_grant)
  show ?thesis using lease_txn_excluded [of ?P, OF c g assms] unfolding campaignLeader_def reads_andthen stable_def
    by blast
qed

text \<open>
  A resumption that succeeds leaves the key with the agent's value under the new lease and the meta
  data with the agent's own term; the expiry the monitor watches is the time of the answer plus the
  lease less the shutdown threshold, in whole seconds.
\<close>

theorem resume_leader:
  assumes "wf_env E" and "stable wf_etcd w" and res: "resumeLeader E w = Ret (Inr (Some i)) w'"
  shows "0 < i \<and> etcd_held (n_etcd w') (fullLeaderPath E) = Some (a_leaderValue w, i) \<and>
    etcd_value (n_etcd w') (fullPathOf E termPath) = Some (show_u64 (a_term w)) \<and>
    a_leaseExpireTS w' = (n_clock w' + wrap64 (LeaderLeaseTTL (e_cfg E) * time_Second) +
       wrap64 (- wrap64 (ShutdownThreshold (e_cfg E) * time_Second))) div time_Second"
proof -
  let ?ops = "\<lambda>i. leaderPutOps E w i (a_term w)"
  from res obtain w1 where l: "lease_txn E (leaderCmp E w) ?ops w = Ret (Inr (Some i)) w1"
    and u: "updateLeaseExpireTS E w1 = Ret () w'"
    by (auto simp: resumeLeader_def elim!: andthen_RetE split: sum.splits option.splits)
  from l obtain e rs where t: "etcd_txn [leaderCmp E w] (?ops i) e = (Inr (True, rs), n_etcd w1)"
    and i: "0 < i" using assms(2) by (rule lease_txn_won)
  have "etcd_held (n_etcd w1) (fullLeaderPath E) = Some (a_leaderValue w, i)"
    using i by (intro etcd_txn_put [OF t]) (simp add: leaderPutOps_def fullLeaderPath_def Let_def)
  moreover have "etcd_held (n_etcd w1) (fullPathOf E termPath) = Some (show_u64 (a_term w), 0)"
    by (intro etcd_txn_put [OF t]) (simp add: leaderPutOps_def Let_def)
  moreover have "w' = w1\<lparr>a_leaseExpireTS := (n_clock w1 + wrap64 (LeaderLeaseTTL (e_cfg E) * time_Second) +
       wrap64 (- wrap64 (ShutdownThreshold (e_cfg E) * time_Second))) div time_Second\<rparr>"
    using u by (simp add: updateLeaseExpireTS_def)
  ultimately show ?thesis using i by (auto simp: etcd_value_held)
qed

text \<open>
  C14: an agent whose value is not the one the leader key holds, or for which there is no leader key,
  never resumes leadership, and its attempt leaves the key, its value and its lease, as it was.
\<close>

theorem resume_excluded:
  assumes "stable (\<lambda>e. etcd_held e (fullLeaderPath E) = h) w" and "map_option fst h \<noteq> Some (a_leaderValue w)"
  shows "(\<forall>i w'. resumeLeader E w \<noteq> Ret (Inr (Some i)) w') \<and>
    etcd_held (n_etcd (final_world (resumeLeader E w))) (fullLeaderPath E) = h"
proof -
  let ?P = "\<lambda>e. etcd_held e (fullLeaderPath E) = h"
  let ?T = "lease_txn E (leaderCmp E w) (\<lambda>i. leaderPutOps E w i (a_term w))"
  have c: "?P e \<Longrightarrow> \<not> applyCompare e (leaderCmp E w)" for e
    using assms(2) by (auto simp: leaderCmp_value etcd_value_held)
  have x: "stable ?P (final_world (?T w))" "?T w \<noteq> Ret (Inr (Some i)) w'" for i w'
    using lease_txn_excluded [of ?P, OF c _ assms(1)] by simp_all
  then show ?thesis
    by (cases "?T w") (auto simp: resumeLeader_def andthen_def stable_def split: sum.splits option.splits)
qed

text \<open>
  C15: giving up leadership never takes it from another node: whatever the network does, a leader key
  with another value keeps its value and its lease, and the call does not report success.
\<close>

theorem delete_leader_key:
  assumes "stable (\<lambda>e. etcd_held e (fullLeaderPath E) = Some (v, l)) w" and "v \<noteq> a_leaderValue w"
  shows "etcd_held (n_etcd (final_world (deleteLeaderKey E w))) (fullLeaderPath E) = Some (v, l) \<and>
    (\<forall>w'. deleteLeaderKey E w \<noteq> Ret None w')"
proof -
  let ?P = "\<lambda>e. etcd_held e (fullLeaderPath E) = Some (v, l)"
  have cmp: "\<not> applyCompare e (leaderCmp E w)" if "?P e" for e
    using that assms(2) by (simp add: leaderCmp_value etcd_value_held)
  let ?T = "Client_Txn (a_ctxDone w) [leaderCmp E w] [OpDelete (fullLeaderPath E), OpDelete (fullPathOf E metaVersionPath)]"
  have st: "stable ?P (final_world (?T w))"
    using keepsD [OF failing_txn(1) [where P = ?P, OF cmp] assms(1)] .
  have "?T w \<noteq> Ret (Inr (True, rs)) w'" for rs w'
    using failing_txn(2) [where P = ?P, OF cmp assms(1)] .
  with st show ?thesis
    by (cases "?T w") (auto simp: deleteLeaderKey_def andthen_def stable_def split: sum.splits prod.splits)
qed

lemma delete_own_key:
  assumes "deleteLeaderKey E w = Ret None w'"
  shows "etcd_held (n_etcd w') (fullLeaderPath E) = None" "etcd_held (n_etcd w') (fullPathOf E metaVersionPath) = None"
    "net_only w w'" "\<not> a_ctxDone w"
proof -
  from assms obtain rs where t: "Client_Txn (a_ctxDone w) [leaderCmp E w]
      [OpDelete (fullLeaderPath E), OpDelete (fullPathOf E metaVersionPath)] w = Ret (Inr (True, rs)) w'"
    by (auto simp: deleteLeaderKey_def elim!: andthen_RetE split: sum.splits prod.splits if_splits)
  then obtain e where e: "etcd_txn [leaderCmp E w] [OpDelete (fullLeaderPath E), OpDelete (fullPathOf E metaVersionPath)] e =
      (Inr (True, rs), n_etcd w')" "net_only w w'" "\<not> a_ctxDone w" by (rule Client_Txn_Inr)
  show "etcd_held (n_etcd w') (fullLeaderPath E) = None" "etcd_held (n_etcd w') (fullPathOf E metaVersionPath) = None"
    using etcd_txn_deleted [OF e(1)] by auto
  show "net_only w w'" "\<not> a_ctxDone w" using e by auto
qed

section \<open>The margin of the lease monitor\<close>

lemma second_bounds: "t div time_Second * time_Second \<le> t" "t < (t div time_Second + 1) * time_Second"
  by (simp_all add: time_Second_def)

lemma second_less: "e \<le> t div time_Second \<longleftrightarrow> e * time_Second \<le> t"
  by (simp add: time_Second_def) linarith

definition seconds_fit :: "int \<Rightarrow> bool" where
  "seconds_fit n \<longleftrightarrow> 0 \<le> n \<and> n * time_Second < 2 ^ 63"

lemma seconds_fit_wrap: "seconds_fit n \<Longrightarrow> wrap64 (n * time_Second) = n * time_Second"
  "seconds_fit n \<Longrightarrow> wrap64 (- (n * time_Second)) = - (n * time_Second)"
  by (simp_all add: seconds_fit_def time_Second_def wrap64_id)

text \<open>A wake-up that does not end the process schedules the next one within the second that the expiry names.\<close>

lemma monitor_check_next:
  assumes "monitor_check w = Ret next w'" and "seconds_fit (a_leaseExpireTS w - n_clock w div time_Second)"
  shows "w' = w \<and> 0 < next \<and> a_leaseExpireTS w * time_Second \<le> n_clock w + next \<and>
    n_clock w + next < (a_leaseExpireTS w + 1) * time_Second"
proof -
  let ?d = "a_leaseExpireTS w - n_clock w div time_Second"
  from assms(1) have d: "0 < ?d" and w: "w' = w" and n: "next = wrap64 (?d * time_Second)"
    by (auto simp: monitor_check_def forceClose_def Let_def split: if_splits)
  have n': "next = ?d * time_Second" using n seconds_fit_wrap(1) [OF assms(2)] by simp
  have "0 < next" using d n' by (simp add: time_Second_def)
  moreover have "a_leaseExpireTS w * time_Second \<le> n_clock w + next" "n_clock w + next < (a_leaseExpireTS w + 1) * time_Second"
    using n' second_bounds [of "n_clock w"] by (simp_all add: algebra_simps)
  ultimately show ?thesis using w by simp
qed

lemma monitor_check_expired:
  "a_leaseExpireTS w * time_Second \<le> n_clock w \<Longrightarrow> monitor_check w = Exit 3 w"
  by (simp add: monitor_check_def forceClose_def Let_def second_less)

lemma monitor_check_alive:
  "n_clock w < a_leaseExpireTS w * time_Second \<Longrightarrow> \<exists>next. monitor_check w = Ret next w"
  using second_less [of "a_leaseExpireTS w" "n_clock w"] by (simp add: monitor_check_def forceClose_def Let_def)

lemma monitor_exits:
  assumes "seconds_fit (ex - (n_clock w + int late1) div time_Second) \<or> ex * time_Second \<le> n_clock w + int late1"
  obtains w' where "leaseExpireMonitorLoop 0 (MonTimer late1 ex # MonTimer late2 ex # evs) w = Exit 3 w'"
    "n_clock w' = n_clock w + int late1 \<or> n_clock w' < (ex + 1) * time_Second + int late2"
proof (cases "ex * time_Second \<le> n_clock w + int late1")
  case True
  let ?w = "w\<lparr>n_clock := n_clock w + int late1, a_leaseExpireTS := ex\<rparr>"
  have "monitor_check ?w = Exit 3 ?w" using True by (intro monitor_check_expired) simp
  then show thesis by (intro that [of ?w]) (simp_all add: time_Sleep_def andthen_def)
next
  case False
  let ?w = "w\<lparr>n_clock := n_clock w + int late1, a_leaseExpireTS := ex\<rparr>"
  obtain nxt where n: "monitor_check ?w = Ret nxt ?w" using monitor_check_alive [of ?w] False by auto
  have b: "0 < nxt" "ex * time_Second \<le> n_clock ?w + nxt" "n_clock ?w + nxt < (ex + 1) * time_Second"
    using monitor_check_next [OF n] assms False by auto
  let ?v = "?w\<lparr>n_clock := n_clock ?w + max 0 (nxt + int late2), a_leaseExpireTS := ex\<rparr>"
  have "monitor_check ?v = Exit 3 ?v" using b by (intro monitor_check_expired) simp
  with n have "leaseExpireMonitorLoop 0 (MonTimer late1 ex # MonTimer late2 ex # evs) w = Exit 3 ?v"
    by (simp add: time_Sleep_def andthen_def)
  then show thesis using b by (intro that [of ?v]) simp_all
qed

text \<open>
  C7: if the lease is not renewed again, the monitor ends the process before the lease runs out at
  the server, provided that the time the answer took, the delay of the monitor's timer and one second
  for rounding together fit into the shutdown threshold.
\<close>

theorem monitor_before_expiry:
  assumes ttl: "seconds_fit (LeaderLeaseTTL (e_cfg E))" and th: "seconds_fit (ShutdownThreshold (e_cfg E))"
    and renewed: "lease_renew applied i e = (Inr ttl, e')" "LeaderLeaseTTL (e_cfg E) \<le> ttl"
    and answer: "updateLeaseExpireTS E w = Ret () w1" "applied \<le> n_clock w"
    and margin: "n_clock w - applied + int late2 + time_Second \<le> ShutdownThreshold (e_cfg E) * time_Second"
    and wake: "0 \<le> n_clock w" "n_clock w \<le> n_clock w2" "n_clock w2 + int late1 < applied + ttl * time_Second"
  shows "\<exists>w3 l. leaseExpireMonitorLoop 0 (MonTimer late1 (a_leaseExpireTS w1) # MonTimer late2 (a_leaseExpireTS w1) # evs) w2 = Exit 3 w3 \<and>
    lease_lookup e' i = Some l \<and> n_clock w3 < l_expiry l"
proof -
  let ?ttl = "LeaderLeaseTTL (e_cfg E)" and ?th = "ShutdownThreshold (e_cfg E)"
  define ex where "ex = a_leaseExpireTS w1"
  have ex: "ex = (n_clock w + ?ttl * time_Second - ?th * time_Second) div time_Second"
    using answer(1) seconds_fit_wrap(1) [OF ttl] seconds_fit_wrap [OF th]
    by (auto simp: updateLeaseExpireTS_def ex_def)
  have hi: "ex * time_Second \<le> n_clock w + ?ttl * time_Second - ?th * time_Second"
    unfolding ex by (rule second_bounds)
  obtain l0 where l0: "lease_lookup e i = Some l0" "l_ttl l0 = ttl"
    and e': "e' = e\<lparr>e_leases := map (\<lambda>x. if l_id x = i then x\<lparr>l_expiry := applied + l_ttl x * time_Second\<rparr> else x) (e_leases e)\<rparr>"
    using renewed(1) by (auto simp: lease_renew_def split: option.splits if_splits)
  have l: "lease_lookup e' i = Some (l0\<lparr>l_expiry := applied + ttl * time_Second\<rparr>)"
    using l0 by (auto simp: lease_lookup_def e' find_map_id find_Some_iff)
  define q where "q = (n_clock w2 + int late1) div time_Second"
  have "n_clock w2 < (q + 1) * time_Second" using second_bounds(2) [of "n_clock w2 + int late1"] by (simp add: q_def)
  then have "(ex - q) * time_Second < ?ttl * time_Second"
    using hi wake(2) margin answer(2) by (simp add: algebra_simps)
  then have "seconds_fit (ex - q) \<or> ex \<le> q" using ttl by (auto simp: seconds_fit_def)
  then have "seconds_fit (ex - (n_clock w2 + int late1) div time_Second) \<or> ex * time_Second \<le> n_clock w2 + int late1"
    by (simp add: q_def second_less)
  then obtain w3 where "leaseExpireMonitorLoop 0 (MonTimer late1 ex # MonTimer late2 ex # evs) w2 = Exit 3 w3"
    "n_clock w3 = n_clock w2 + int late1 \<or> n_clock w3 < (ex + 1) * time_Second + int late2"
    by (rule monitor_exits)
  moreover have "(ex + 1) * time_Second + int late2 \<le> applied + ttl * time_Second"
    using hi margin renewed(2) by (simp add: algebra_simps time_Second_def)
  ultimately show ?thesis using l wake(3) by (fastforce simp: ex_def)
qed

section \<open>Reading back what the leader wrote\<close>

lemma get_ops_eq: "Concatenate [leaderGetOps E, myTermGetOps E, spmGetOps E] =
   map (\<lambda>k. OpGet (fullPathOf E k)) [leaderPath, termPath, idPath, metaVersionPath, lastUUIDPath, lastTxnIDPath,
     lastGTIDPath, myTermPath E, spmPath]"
  by (simp add: Concatenate_def leaderGetOps_def myTermGetOps_def spmGetOps_def)

lemma getLeaderAndMyTerm_reply:
  assumes "wf_env E" and "\<not> a_ctxDone w" and "n_script w = Rpc env RpcOK d1 d2 # rest"
  shows "getLeaderAndMyTerm E w =
    Ret (read_leader E (map (\<lambda>k. RangeResp (etcd_range (env (n_etcd w)) (fullPathOf E k)))
        [leaderPath, termPath, idPath, metaVersionPath, lastUUIDPath, lastTxnIDPath, lastGTIDPath, myTermPath E, spmPath]) (zero_Leader, 0))
      (w\<lparr>n_script := rest, n_clock := n_clock w + int d1 + int d2, n_etcd := env (n_etcd w)\<rparr>)"
proof -
  let ?ks = "[leaderPath, termPath, idPath, metaVersionPath, lastUUIDPath, lastTxnIDPath, lastGTIDPath, myTermPath E, spmPath]"
  have t: "etcd_txn [] (map (\<lambda>k. OpGet (fullPathOf E k)) ?ks) e = (Inr (True, map (\<lambda>k. RangeResp (etcd_range e (fullPathOf E k))) ?ks), e)" for e
    using leader_paths_nonempty [OF assms(1)] by (intro etcd_txn_gets) simp
  have "Client_Txn False [] (map (\<lambda>k. OpGet (fullPathOf E k)) ?ks) w =
    Ret (Inr (True, map (\<lambda>k. RangeResp (etcd_range (env (n_etcd w)) (fullPathOf E k))) ?ks))
      (w\<lparr>n_script := rest, n_clock := n_clock w + int d1 + int d2, n_etcd := env (n_etcd w)\<rparr>)"
    unfolding Client_Txn_def using assms(3) by (simp add: rpc_call_def Let_def t del: list.map)
  then show ?thesis using assms(2) by (simp add: getLeaderAndMyTerm_def get_ops_eq andthen_def del: list.map)
qed

lemma range_of_value:
  assumes "etcd_value e k = Some v"
  obtains x where "etcd_range e k = [x]" "kv_key x = k" "kv_value x = v"
proof -
  obtain x where "etcd_get e k = Some x" "kv_value x = v" using assms by (auto simp: etcd_value_def)
  then show thesis by (intro that [of x]) (auto simp: etcd_range_def dest: etcd_get_SomeD)
qed

text \<open>Each key is read into the field it belongs to.\<close>

lemma read_leader_kv_key:
  assumes "wf_env E"
  shows "kv_key x = fullPathOf E leaderPath \<Longrightarrow> read_leader_kv E x (ld, t) = Inr (ld\<lparr>ld_kv := Some x, ld_name := kv_value x\<rparr>, t)"
    and "kv_key x = fullPathOf E termPath \<Longrightarrow> atoi (kv_value x) = Some n \<Longrightarrow>
      read_leader_kv E x (ld, t) = Inr (set_meta (\<lambda>m. m\<lparr>lm_term := of_int n\<rparr>) ld, t)"
    and "kv_key x = fullPathOf E idPath \<Longrightarrow> read_leader_kv E x (ld, t) = Inr (set_meta (\<lambda>m. m\<lparr>lm_name := kv_value x\<rparr>) ld, t)"
    and "kv_key x = fullPathOf E lastUUIDPath \<Longrightarrow> read_leader_kv E x (ld, t) = Inr (set_meta (\<lambda>m. m\<lparr>lm_lastUUID := kv_value x\<rparr>) ld, t)"
    and "kv_key x = fullPathOf E lastGTIDPath \<Longrightarrow> read_leader_kv E x (ld, t) = Inr (set_meta (\<lambda>m. m\<lparr>lm_lastGTID := kv_value x\<rparr>) ld, t)"
    and "kv_key x = fullPathOf E metaVersionPath \<Longrightarrow> atoi (kv_value x) = Some n \<Longrightarrow>
      read_leader_kv E x (ld, t) = Inr (set_meta (\<lambda>m. m\<lparr>lm_version := n\<rparr>) ld, t)"
    and "kv_key x = fullPathOf E lastTxnIDPath \<Longrightarrow> parse_uint64 (kv_value x) = Some u \<Longrightarrow>
      read_leader_kv E x (ld, t) = Inr (set_meta (\<lambda>m. m\<lparr>lm_lastTxnID := u\<rparr>) ld, t)"
    and "kv_key x = fullPathOf E spmPath \<Longrightarrow> read_leader_kv E x (ld, t) = Inr (ld\<lparr>ld_spm := kv_value x\<rparr>, t)"
    and "kv_key x = fullPathOf E (myTermPath E) \<Longrightarrow> parse_uint64 (kv_value x) = Some u \<Longrightarrow> read_leader_kv E x (ld, t) = Inr (ld, u)"
  by (simp_all add: read_leader_kv_def Let_def fullPathOf_inj [OF assms] path_values good_paths [unfolded path_values]
      myTermPath_eq [OF assms] good_myTermPath [OF assms, unfolded myTermPath_eq [OF assms], simplified])

definition leader_written :: "agent_env \<Rightarrow> agent \<Rightarrow> u64 \<Rightarrow> etcd \<Rightarrow> bool" where
  "leader_written E w t e \<longleftrightarrow>
     etcd_value e (fullPathOf E leaderPath) = Some (a_leaderValue w) \<and>
     etcd_value e (fullPathOf E termPath) = Some (show_u64 t) \<and>
     etcd_value e (fullPathOf E idPath) = Some (e_id E) \<and>
     etcd_value e (fullPathOf E metaVersionPath) = Some (show_int globalSchemaVersion) \<and>
     etcd_value e (fullPathOf E lastTxnIDPath) = Some (show_u64 (a_lastTxnID w)) \<and>
     etcd_value e (fullPathOf E lastUUIDPath) = Some (a_lastUUID w) \<and>
     etcd_value e (fullPathOf E lastGTIDPath) = Some (a_lastGTID w)"

lemma campaign_written:
  assumes "campaignLeader E w = Ret (Inr (Some i)) w'" and "stable wf_etcd w"
  shows "leader_written E w (a_term w + 1) (n_etcd w') \<and>
    etcd_value (n_etcd w') (fullPathOf E (myTermPath E)) = Some (show_u64 (a_term w + 1)) \<and> net_only w w' \<and> \<not> a_ctxDone w"
proof -
  let ?ops = "\<lambda>i. leaderPutOps E w i (a_term w + 1) @ myTermPutOps E w True"
  from assms(1) have "lease_txn E (CmpCreateRevision (fullLeaderPath E) 0) ?ops w = Ret (Inr (Some i)) w'"
    by (simp add: campaignLeader_def)
  then obtain e rs where t: "etcd_txn [CmpCreateRevision (fullLeaderPath E) 0] (?ops i) e = (Inr (True, rs), n_etcd w')"
    and n: "net_only w w'" "\<not> a_ctxDone w" using assms(2) by (rule lease_txn_won)
  have "etcd_value (n_etcd w') k = Some v" if "\<exists>l. OpPut k v l \<in> set (?ops i)" for k v
    using etcd_txn_put [OF t] that by (auto simp: etcd_value_held)
  then show ?thesis using n unfolding leader_written_def
    by (simp add: leaderPutOps_def myTermPutOps_def Let_def) blast
qed

lemma read_leader_written:
  assumes "wf_env E" and "leader_written E w t e" and "unat t < 2 ^ 63"
    and "etcd_value e (fullPathOf E (myTermPath E)) = Some (show_u64 t)"
    and "etcd_value e (fullPathOf E spmPath) = None"
  shows "\<exists>x. read_leader E (map (\<lambda>k. RangeResp (etcd_range e (fullPathOf E k)))
        [leaderPath, termPath, idPath, metaVersionPath, lastUUIDPath, lastTxnIDPath, lastGTIDPath, myTermPath E, spmPath]) (zero_Leader, 0) =
    Inr (\<lparr>ld_name = a_leaderValue w, ld_kv = Some x,
      ld_meta = \<lparr>lm_name = e_id E, lm_term = t, lm_lastUUID = a_lastUUID w, lm_lastGTID = a_lastGTID w,
        lm_lastTxnID = a_lastTxnID w, lm_version = globalSchemaVersion\<rparr>, ld_spm = []\<rparr>, t)"
proof -
  have at: "atoi (show_u64 t) = Some (int (unat t))" "atoi (show_int globalSchemaVersion) = Some globalSchemaVersion"
    using assms(3) by (simp_all add: show_u64_def atoi_show_nat atoi_show_int globalSchemaVersion_def)
  from assms(2) [unfolded leader_written_def] obtain x1 x2 x3 x4 x5 x6 x7 where
    r: "etcd_range e (fullPathOf E leaderPath) = [x1]" "etcd_range e (fullPathOf E termPath) = [x2]"
      "etcd_range e (fullPathOf E idPath) = [x3]" "etcd_range e (fullPathOf E metaVersionPath) = [x4]"
      "etcd_range e (fullPathOf E lastTxnIDPath) = [x5]" "etcd_range e (fullPathOf E lastUUIDPath) = [x6]"
      "etcd_range e (fullPathOf E lastGTIDPath) = [x7]"
    and k: "kv_key x1 = fullPathOf E leaderPath" "kv_key x2 = fullPathOf E termPath" "kv_key x3 = fullPathOf E idPath"
      "kv_key x4 = fullPathOf E metaVersionPath" "kv_key x5 = fullPathOf E lastTxnIDPath"
      "kv_key x6 = fullPathOf E lastUUIDPath" "kv_key x7 = fullPathOf E lastGTIDPath"
    and v: "kv_value x1 = a_leaderValue w" "kv_value x2 = show_u64 t" "kv_value x3 = e_id E"
      "kv_value x4 = show_int globalSchemaVersion" "kv_value x5 = show_u64 (a_lastTxnID w)"
      "kv_value x6 = a_lastUUID w" "kv_value x7 = a_lastGTID w"
    by (elim conjE range_of_value) blast
  obtain x8 where x8: "etcd_range e (fullPathOf E (myTermPath E)) = [x8]" "kv_key x8 = fullPathOf E (myTermPath E)" "kv_value x8 = show_u64 t"
    using assms(4) by (rule range_of_value)
  have x9: "etcd_range e (fullPathOf E spmPath) = []" using assms(5) by (auto simp: etcd_range_def etcd_value_def split: option.splits)
  have ut: "of_int (int (unat t)) = t" by simp
  show ?thesis
    by (intro exI [of _ x1]) (simp add: r k v x8 x9 read_leader_kv_key [OF assms(1)] zero_Leader_def set_meta_def at ut)
qed

lemma stable_held_txn:
  assumes "k \<notin> set (put_keys ops)" and "k \<notin> set (del_keys ops)"
  shows "keeps (stable (\<lambda>e. etcd_held e k = h)) (Client_Txn d cs ops :: _ agent_io)"
  unfolding Client_Txn_def
proof (rule stable_rpc_call)
  show "etcd_held (snd (etcd_txn cs ops e)) k = h" if "etcd_held e k = h" for now :: int and e
    using that etcd_txn_other [OF _ assms, of cs e "fst (etcd_txn cs ops e)" "snd (etcd_txn cs ops e)"] by simp
qed

lemma campaign_keeps_spm:
  assumes "wf_env E"
  shows "keeps (stable (\<lambda>e. etcd_held e (fullPathOf E spmPath) = h)) (campaignLeader E)"
proof -
  have "keeps (stable (\<lambda>e. etcd_held e (fullPathOf E spmPath) = h)) (Lease_Grant d t :: _ agent_io)" for d t
    unfolding Lease_Grant_def by (intro stable_rpc_call) simp
  moreover have "keeps (stable (\<lambda>e. etcd_held e (fullPathOf E spmPath) = h))
      (Client_Txn d cs (leaderPutOps E s i t @ myTermPutOps E s b) :: _ agent_io)" for d cs s i t b
    using leader_paths_distinct [OF assms]
    by (intro stable_held_txn) (auto simp: leaderPutOps_def myTermPutOps_def Let_def)
  ultimately show ?thesis unfolding campaignLeader_def lease_txn_def by (intro hoare) auto
qed

text \<open>
  what a won campaign wrote is what a later read of the leader by the same agent returns, as long
  as nobody wrote in between: the agent as leader, its term, the last transaction of the former master,
  and its own term.
\<close>

theorem campaign_read_back:
  assumes "wf_env E" and "stable wf_etcd w" and "stable (\<lambda>e. etcd_held e (fullPathOf E spmPath) = None) w"
    and "campaignLeader E w = Ret (Inr (Some i)) w'" and "unat (a_term w + 1) < 2 ^ 63"
    and "n_script r = Rpc env RpcOK d1 d2 # rest" and "\<not> a_ctxDone r"
    and "\<And>k. etcd_value (env (n_etcd r)) k = etcd_value (n_etcd w') k"
  shows "\<exists>x r'. getLeaderAndMyTerm E r = Ret (Inr (\<lparr>ld_name = a_leaderValue w, ld_kv = Some x,
      ld_meta = \<lparr>lm_name = e_id E, lm_term = a_term w + 1, lm_lastUUID = a_lastUUID w, lm_lastGTID = a_lastGTID w,
        lm_lastTxnID = a_lastTxnID w, lm_version = globalSchemaVersion\<rparr>, ld_spm = []\<rparr>, a_term w + 1)) r'"
proof -
  from campaign_written [OF assms(4,2)] have wr: "leader_written E w (a_term w + 1) (env (n_etcd r))"
    and my: "etcd_value (env (n_etcd r)) (fullPathOf E (myTermPath E)) = Some (show_u64 (a_term w + 1))"
    using assms(8) by (auto simp: leader_written_def)
  have "etcd_value (env (n_etcd r)) (fullPathOf E spmPath) = None"
    using keeps_RetD [OF campaign_keeps_spm [OF assms(1)] assms(3,4)] assms(8) by (simp add: stable_def etcd_value_held)
  with read_leader_written [OF assms(1) wr assms(5) my]
  show ?thesis unfolding getLeaderAndMyTerm_reply [OF assms(1,7,6)] by blast
qed

section \<open>Examples\<close>

lemma ex_env_wf: "wf_env (ex_env ''n1'')" "wf_env (ex_env ''n2'')"
  using ex_root_good by (simp_all add: wf_env_def ex_root)

lemma lease_txn_runs:
  assumes "\<not> a_ctxDone w" and "n_script w = Rpc id RpcOK a b # Rpc id RpcOK c d # rest"
    and "LeaderLeaseTTL (e_cfg E) \<le> MaxLeaseTTL" and i: "i = e_next (n_etcd w)"
    and "checkTxnRequest (ops i)" and "applyCompare (n_etcd w) cm"
    and l: "\<And>k v j. OpPut k v j \<in> set (ops i) \<Longrightarrow> j = 0 \<or> j = i"
  shows "ret_value (lease_txn E cm ops w) = Some (Inr (Some i))"
proof -
  let ?g = "snd (lease_grant (n_clock w + int a) (LeaderLeaseTTL (e_cfg E)) (n_etcd w))"
  have "op_lease_ok ?g x" if "x \<in> set (ops i)" for x
    using l that assms(3) by (cases x) (auto simp: lease_grant_def lease_lookup_def Let_def i)
  then have ok: "list_all (op_lease_ok ?g) (ops i)" by (simp add: list_all_iff)
  have cm: "applyCompare ?g cm" using assms(3,6) by (cases cm) (simp_all add: lease_grant_def Let_def etcd_get_def)
  have "fst (lease_grant (n_clock w + int a) (LeaderLeaseTTL (e_cfg E)) (n_etcd w)) = Inr i"
    using assms(3) by (simp add: lease_grant_def Let_def i)
  then show ?thesis
    using assms(1,2,5) ok cm
    by (simp add: lease_txn_def andthen_def Lease_Grant_def Client_Txn_def rpc_call_def etcd_txn_def split_beta Let_def)
qed

lemma campaign_runs:
  assumes "wf_env E" and "\<not> a_ctxDone w" and "n_script w = Rpc id RpcOK a b # Rpc id RpcOK c d # rest"
    and "LeaderLeaseTTL (e_cfg E) \<le> MaxLeaseTTL" and "wf_etcd (n_etcd w)" and "etcd_value (n_etcd w) (fullLeaderPath E) = None"
  shows "ret_value (campaignLeader E w) = Some (Inr (Some (e_next (n_etcd w))))"
proof -
  have "0 < e_next (n_etcd w)" using assms(5) by (simp add: wf_etcd_def)
  then have "j = 0 \<or> j = e_next (n_etcd w)"
    if "OpPut k v j \<in> set (leaderPutOps E w (e_next (n_etcd w)) (a_term w + 1) @ myTermPutOps E w True)" for k v j
    using that by (auto simp: leaderPutOps_def myTermPutOps_def Let_def)
  then show ?thesis
    unfolding campaignLeader_def reads_andthen id_apply
    by (intro lease_txn_runs [OF assms(2,3,4) refl] checkTxn_campaign(1) [OF assms(1)])
      (use assms(6) in \<open>auto simp: etcd_value_def\<close>)
qed

lemma ex_env_ttl: "LeaderLeaseTTL (e_cfg (ex_env i)) \<le> MaxLeaseTTL"
  by (simp add: ex_env_def ex_cfg_def MaxLeaseTTL_def)

lemma ex_env_paths: "fullPathOf (ex_env i) = fullPathOf (ex_env j)" "fullLeaderPath (ex_env i) = fullLeaderPath (ex_env j)"
  by (rule ext, simp_all add: fullLeaderPath_def fullPathOf_def rootPath_def ex_env_def)

lemma ex_campaign:
  "ret_value (campaignLeader (ex_env ''n1'') (ex_agent ''n1'' empty_etcd (rpc_ok # rpc_ok # evs) [])) = Some (Inr (Some 1))"
  using campaign_runs [OF ex_env_wf(1) _ _ ex_env_ttl, of "ex_agent ''n1'' empty_etcd (rpc_ok # rpc_ok # evs) []"]
  by (simp add: ex_agent_def rpc_ok_def empty_etcd_def etcd_value_def etcd_get_def wf_etcd_def)

lemma ex_agent_stable: "P e \<Longrightarrow> list_all (\<lambda>r. r = rpc_ok) rpcs \<Longrightarrow> stable P (ex_agent i e rpcs sqls)"
  by (rule stable_quiet) (auto simp: ex_agent_def list_all_iff)

theorem campaign_wins_witness:
  "etcd_held (n_etcd (final_world (campaignLeader (ex_env ''n1'') (ex_agent ''n1'' empty_etcd [rpc_ok, rpc_ok] []))))
     (fullLeaderPath (ex_env ''n1'')) = Some (''n1'', 1)"
proof -
  have s: "stable wf_etcd (ex_agent ''n1'' empty_etcd [rpc_ok, rpc_ok] [])"
    by (rule ex_agent_stable) (simp_all add: wf_empty_etcd)
  from campaign_wins [OF ex_env_wf(1) s ret_value_Some [OF ex_campaign]] show ?thesis by simp
qed

text \<open>A store in which the node \<open>n1\<close> is the leader.\<close>

definition ex_led :: etcd where
  "ex_led = snd (etcd_txn [] [OpPut (fullLeaderPath (ex_env ''n1'')) ''n1'' 1] (snd (lease_grant 0 10 empty_etcd)))"

lemma ex_led_eq: "ex_led = \<lparr>e_kvs = [\<lparr>kv_key = fullLeaderPath (ex_env ''n1''), kv_value = ''n1'', kv_create = 2, kv_mod = 2,
    kv_version = 1, kv_lease = 1\<rparr>], e_rev = 2, e_leases = [\<lparr>l_id = 1, l_ttl = 10, l_expiry = 10 * time_Second\<rparr>], e_next = 2, e_minTTL = 2\<rparr>"
  using fullPathOf_neq_Nil [OF ex_env_wf(1) good_paths(1)]
  by (simp add: ex_led_def etcd_txn_def checkTxnRequest_def lease_grant_def empty_etcd_def lease_lookup_def MaxLeaseTTL_def
    store_put_def etcd_get_def commit_rev_def fullLeaderPath_def)

lemma ex_led: "wf_etcd ex_led" "etcd_held ex_led (fullLeaderPath (ex_env i)) = Some (''n1'', 1)" "e_next ex_led = 2"
  unfolding ex_led_eq ex_env_paths(2) [of i "''n1''"]
  by (simp_all add: wf_etcd_def lease_lookup_def etcd_held_def etcd_get_def)

theorem campaign_excluded_witness:
  "etcd_held (n_etcd (final_world (campaignLeader (ex_env ''n2'') (ex_agent ''n2'' ex_led [rpc_ok, rpc_ok] []))))
     (fullLeaderPath (ex_env ''n2'')) = Some (''n1'', 1)"
  using campaign_excluded [of "ex_env ''n2''" "''n1''" 1 "ex_agent ''n2'' ex_led [rpc_ok, rpc_ok] []"]
  by (simp add: ex_agent_stable ex_led)

lemma ex_resume:
  "ret_value (resumeLeader (ex_env ''n1'') (ex_agent ''n1'' ex_led [rpc_ok, rpc_ok] [])) = Some (Inr (Some 2))"
proof -
  let ?w = "ex_agent ''n1'' ex_led [rpc_ok, rpc_ok] []"
  have "ret_value (lease_txn (ex_env ''n1'') (leaderCmp (ex_env ''n1'') ?w) (\<lambda>i. leaderPutOps (ex_env ''n1'') ?w i (a_term ?w)) ?w) = Some (Inr (Some 2))"
    by (rule lease_txn_runs [OF _ _ ex_env_ttl _ checkTxn_campaign(2) [OF ex_env_wf(1)]])
      (auto simp: rpc_ok_def ex_led leaderCmp_value etcd_value_held leaderPutOps_def Let_def simp del: applyCompare.simps)
  from ret_value_Some [OF this] show ?thesis
    by (simp add: resumeLeader_def andthen_Ret updateLeaseExpireTS_def)
qed

theorem resume_leader_witness:
  "etcd_held (n_etcd (final_world (resumeLeader (ex_env ''n1'') (ex_agent ''n1'' ex_led [rpc_ok, rpc_ok] []))))
     (fullLeaderPath (ex_env ''n1'')) = Some (''n1'', 2)"
proof -
  have s: "stable wf_etcd (ex_agent ''n1'' ex_led [rpc_ok, rpc_ok] [])" by (rule ex_agent_stable) (simp_all add: ex_led)
  from resume_leader [OF ex_env_wf(1) s ret_value_Some [OF ex_resume]] show ?thesis by simp
qed

theorem resume_excluded_witness:
  "etcd_held (n_etcd (final_world (resumeLeader (ex_env ''n2'') (ex_agent ''n2'' ex_led [rpc_ok, rpc_ok] []))))
     (fullLeaderPath (ex_env ''n2'')) = Some (''n1'', 1)"
  using resume_excluded [of "ex_env ''n2''" "Some (''n1'', 1)" "ex_agent ''n2'' ex_led [rpc_ok, rpc_ok] []"]
  by (simp add: ex_agent_stable ex_led)

theorem delete_leader_key_witness:
  "etcd_held (n_etcd (final_world (deleteLeaderKey (ex_env ''n2'') (ex_agent ''n2'' ex_led [rpc_ok] []))))
     (fullLeaderPath (ex_env ''n2'')) = Some (''n1'', 1)"
  using delete_leader_key [of "ex_env ''n2''" "''n1''" 1 "ex_agent ''n2'' ex_led [rpc_ok] []"]
  by (simp add: ex_agent_stable ex_led)

theorem monitor_before_expiry_witness:
  "\<exists>w. leaseExpireMonitorLoop 0 [MonTimer 5 (7 :: int), MonTimer 1000 7] ((ex_agent ''n1'' ex_led [] [])\<lparr>a_leaseExpireTS := 7\<rparr>) = Exit 3 w"
proof -
  let ?w = "ex_agent ''n1'' ex_led [] []" and ?E = "ex_env ''n1''"
  have f: "seconds_fit 10" "seconds_fit 3" by (simp_all add: seconds_fit_def time_Second_def)
  have r: "\<exists>e'. lease_renew 0 1 ex_led = (Inr 10, e')"
    by (simp add: lease_renew_def ex_led_eq lease_lookup_def time_Second_def)
  then obtain e' where r: "lease_renew 0 1 ex_led = (Inr 10, e')" by blast
  have u: "updateLeaseExpireTS ?E ?w = Ret () (?w\<lparr>a_leaseExpireTS := 7\<rparr>)"
    using seconds_fit_wrap(1) [OF f(1)] seconds_fit_wrap [OF f(2)]
    by (simp add: updateLeaseExpireTS_def ex_agent_def time_Second_def)
  show ?thesis
    using monitor_before_expiry [of ?E 0 1 ex_led 10 e' ?w _ 1000 "?w\<lparr>a_leaseExpireTS := 7\<rparr>" 5 "[]", unfolded ex_env_fields, OF f r _ u]
    by (simp add: time_Second_def) blast
qed

theorem campaign_read_back_witness:
  "\<exists>x r. getLeaderAndMyTerm (ex_env ''n1'') (ex_agent ''n1'' (n_etcd (final_world (campaignLeader (ex_env ''n1'')
      (ex_agent ''n1'' empty_etcd [rpc_ok, rpc_ok] [])))) [rpc_ok] []) =
    Ret (Inr (\<lparr>ld_name = ''n1'', ld_kv = Some x, ld_meta = \<lparr>lm_name = ''n1'', lm_term = 1, lm_lastUUID = [], lm_lastGTID = [],
        lm_lastTxnID = 0, lm_version = globalSchemaVersion\<rparr>, ld_spm = []\<rparr>, 1)) r"
proof -
  let ?w = "ex_agent ''n1'' empty_etcd [rpc_ok, rpc_ok] []"
  have s: "stable wf_etcd ?w" "stable (\<lambda>e. etcd_held e (fullPathOf (ex_env ''n1'') spmPath) = None) ?w"
    by (rule ex_agent_stable; simp add: wf_empty_etcd)
      (rule ex_agent_stable, simp_all add: empty_etcd_def etcd_held_def etcd_get_def)
  show ?thesis
    using campaign_read_back [OF ex_env_wf(1) s ret_value_Some [OF ex_campaign],
        where r = "ex_agent ''n1'' (n_etcd (final_world (campaignLeader (ex_env ''n1'') ?w))) [rpc_ok] []"]
    by (simp add: rpc_ok_def) (simp add: ex_agent_def ex_env_def)
qed

end
