(* ===== verification/Agent_Election.thy ===== *)
theory Agent_Election
  imports Agent_Leader "HOL-Library.Product_Lexorder" "HOL-Library.Multiset"
begin

text \<open>
  \<open>src/agent/campaign.go\<close>: every node uploads how far its log reaches, as \<open>election/nodes/<id>\<close>, and
  compares its own log with those of the others. A node that finds a later one waits before it campaigns
  for the leader key, and a node that finds all others in an earlier term is the single point.
\<close>

section \<open>The log of a node\<close>

record LogForElection =
  lf_Term :: u64
  lf_LastUUID :: string
  lf_LastGTID :: string
  lf_EndTxnID :: u64
  lf_Version :: int

definition zero_LogForElection :: LogForElection where
  "zero_LogForElection = \<lparr>lf_Term = 0, lf_LastUUID = [], lf_LastGTID = [], lf_EndTxnID = 0, lf_Version = 0\<rparr>"

definition members_LogForElection :: "LogForElection \<Rightarrow> (string \<times> json) list" where
  "members_LogForElection l =
     [(''term'', JNum (show_u64 (lf_Term l))), (''last_uuid'', JStr (lf_LastUUID l)), (''last_gtid'', JStr (lf_LastGTID l)),
      (''end_txn_id'', JNum (show_u64 (lf_EndTxnID l))), (''version'', JNum (show_int (lf_Version l)))]"

definition marshal_LogForElection :: "LogForElection \<Rightarrow> string" where
  "marshal_LogForElection l = print_json (JObj (members_LogForElection l))"

definition upd_LogForElection :: "string \<Rightarrow> json \<Rightarrow> LogForElection \<Rightarrow> LogForElection option" where
  "upd_LogForElection k v l =
     (if k = ''term'' then dec_u64 v (\<lambda>x. l\<lparr>lf_Term := x\<rparr>) l
      else if k = ''last_uuid'' then dec_string v (\<lambda>x. l\<lparr>lf_LastUUID := x\<rparr>) l
      else if k = ''last_gtid'' then dec_string v (\<lambda>x. l\<lparr>lf_LastGTID := x\<rparr>) l
      else if k = ''end_txn_id'' then dec_u64 v (\<lambda>x. l\<lparr>lf_EndTxnID := x\<rparr>) l
      else if k = ''version'' then dec_int v (\<lambda>x. l\<lparr>lf_Version := x\<rparr>) l
      else Some l)"

section \<open>Loading and uploading\<close>

definition set_log :: "repl_info \<Rightarrow> agent \<Rightarrow> agent" where
  "set_log i w = (case i of (masterUUID, executedGTID, endTxnID) \<Rightarrow>
     w\<lparr>a_lastUUID := masterUUID, a_lastGTID := executedGTID, a_lastTxnID := endTxnID\<rparr>)"

definition loadSlaveLogFromMySQL :: "agent_env \<Rightarrow> error option agent_io" where
  "loadSlaveLogFromMySQL E =
     andthen (sm_LoadReplicationInfoOfSlave (e_sm E)) (\<lambda>r. case r of
       Inl e \<Rightarrow> ret (Some e)
     | Inr i \<Rightarrow> andthen (updates (set_log i)) (\<lambda>_. ret None))"

definition loadMasterLogFromMySQL :: "agent_env \<Rightarrow> error option agent_io" where
  "loadMasterLogFromMySQL E =
     andthen (sm_LoadReplicationInfoOfMaster (e_sm E)) (\<lambda>r. case r of
       Inl e \<Rightarrow> ret (Some e)
     | Inr i \<Rightarrow> andthen (updates (set_log i)) (\<lambda>_. ret None))"

definition nodes_path :: string where
  "nodes_path = join [electionPath, ''nodes'']"

definition node_path :: "string \<Rightarrow> string" where
  "node_path i = join [electionPath, ''nodes'', i]"

definition uploadLogForElection :: "agent_env \<Rightarrow> LogForElection \<Rightarrow> error option agent_io" where
  "uploadLogForElection E electionLog =
     andthen (reads a_ctxDone) (\<lambda>d.
     andthen (Client_Put (rootPath E) d (node_path (e_id E)) (marshal_LogForElection electionLog) 0) (\<lambda>r.
     ret (to_err r)))"

definition log_of :: "agent \<Rightarrow> LogForElection" where
  "log_of w = \<lparr>lf_Term = a_term w + 1, lf_LastUUID = a_lastUUID w, lf_LastGTID = a_lastGTID w,
     lf_EndTxnID = a_lastTxnID w, lf_Version = globalSchemaVersion\<rparr>"

text \<open>
  A slave uploads its log even if it could not be read: then the fields are the zero values of the
  results. A former master does not.
\<close>

definition uploadLogForElectionAsSlave :: "agent_env \<Rightarrow> error option agent_io" where
  "uploadLogForElectionAsSlave E =
     andthen (sm_LoadReplicationInfoOfSlave (e_sm E)) (\<lambda>r.
     andthen (updates (set_log (case r of Inl _ \<Rightarrow> ([], [], 0) | Inr i \<Rightarrow> i))) (\<lambda>_.
     andthen (reads log_of) (uploadLogForElection E)))"

definition uploadLogForElectionAsFormerMaster :: "agent_env \<Rightarrow> error option agent_io" where
  "uploadLogForElectionAsFormerMaster E =
     andthen (sm_LoadReplicationInfoOfMaster (e_sm E)) (\<lambda>r. case r of
       Inl e \<Rightarrow> ret (Some e)
     | Inr i \<Rightarrow>
         andthen (updates (set_log i)) (\<lambda>_.
         andthen (reads log_of) (uploadLogForElection E)))"

section \<open>The logs of all nodes\<close>

text \<open>The characters that \<open>strings.TrimLeft\<close> takes off the front of a key.\<close>

definition node_cutset :: string where
  "node_cutset = join [electionPath, ''nodes/'']"

definition add_log :: "string \<times> string \<Rightarrow> (string \<times> LogForElection) list \<Rightarrow> (string \<times> LogForElection) list" where
  "add_log kv r =
     (case kv of (k, v) \<Rightarrow>
        (case unmarshal upd_LogForElection zero_LogForElection v of (l, ok) \<Rightarrow>
           if ok then AList.update (trim_left k node_cutset) l r else r))"

definition getAllLogsForElection :: "agent_env \<Rightarrow> (error + (string \<times> LogForElection) list) agent_io" where
  "getAllLogsForElection E =
     andthen (reads a_ctxDone) (\<lambda>d.
     andthen (Client_PrefixGet (rootPath E) d nodes_path) (\<lambda>r. case r of
       Inl e \<Rightarrow> ret (Inl e)
     | Inr kvs \<Rightarrow> ret (Inr (fold add_log (e_range E kvs) []))))"

fun compare_logs :: "string \<Rightarrow> LogForElection \<Rightarrow> u64 \<Rightarrow> bool \<Rightarrow> (string \<times> LogForElection) list \<Rightarrow> bool \<times> bool" where
  "compare_logs me myLog endTxnID isSinglePoint [] = (True, isSinglePoint)"
| "compare_logs me myLog endTxnID isSinglePoint ((serverID, l) # logs) =
     (if me = serverID then compare_logs me myLog endTxnID isSinglePoint logs
      else if lf_Term myLog < lf_Term l then (False, False)
      else if lf_Term myLog > lf_Term l then compare_logs me myLog endTxnID isSinglePoint logs
      else if lf_Version l \<ge> 2 then
        (if endTxnID < lf_EndTxnID l then (False, False) else compare_logs me myLog endTxnID False logs)
      else case GetTxnIDFromGTIDStr (lf_LastGTID l) (lf_LastUUID l) of
          Inl _ \<Rightarrow> compare_logs me myLog endTxnID False logs
        | Inr anotherTxnID \<Rightarrow>
            if endTxnID < of_int anotherTxnID then (False, False) else compare_logs me myLog endTxnID False logs)"

definition isLatestLog :: "agent_env \<Rightarrow> (string \<times> LogForElection) list \<Rightarrow> bool \<times> bool" where
  "isLatestLog E logs =
     (case map_of logs (e_id E) of
        None \<Rightarrow> (False, False)
      | Some myLog \<Rightarrow>
          if lf_Version myLog \<ge> 2 then compare_logs (e_id E) myLog (lf_EndTxnID myLog) True logs
          else case GetTxnIDFromGTIDStr (lf_LastGTID myLog) (lf_LastUUID myLog) of
              Inl _ \<Rightarrow> (False, False)
            | Inr mysqlEndTxnID \<Rightarrow> compare_logs (e_id E) myLog (of_int mysqlEndTxnID) True logs)"


section \<open>What the comparison decides\<close>

text \<open>How far a log reaches: newer versions carry it, older ones are read from the GTID set.\<close>

definition log_txn :: "LogForElection \<Rightarrow> u64 option" where
  "log_txn l =
     (if lf_Version l \<ge> 2 then Some (lf_EndTxnID l)
      else case GetTxnIDFromGTIDStr (lf_LastGTID l) (lf_LastUUID l) of Inl _ \<Rightarrow> None | Inr n \<Rightarrow> Some (of_int n))"

definition later_log :: "LogForElection \<Rightarrow> LogForElection \<Rightarrow> u64 \<Rightarrow> bool" where
  "later_log l my t \<longleftrightarrow>
     lf_Term my < lf_Term l \<or> lf_Term my = lf_Term l \<and> (case log_txn l of None \<Rightarrow> False | Some t' \<Rightarrow> t < t')"

definition others :: "string \<Rightarrow> (string \<times> LogForElection) list \<Rightarrow> LogForElection set" where
  "others me logs = {l. \<exists>i. (i, l) \<in> set logs \<and> i \<noteq> me}"

lemma others_simps [simp]:
  "others me [] = {}" "others me ((i, l) # logs) = (if i = me then others me logs else insert l (others me logs))"
  by (auto simp: others_def)

lemma later_log_term:
  "lf_Term my < lf_Term l \<Longrightarrow> later_log l my t" "lf_Term l < lf_Term my \<Longrightarrow> \<not> later_log l my t"
  by (auto simp: later_log_def)

lemma compare_logs_spec:
  "compare_logs me my t sp logs =
     (if \<exists>l \<in> others me logs. later_log l my t then (False, False)
      else (True, sp \<and> (\<forall>l \<in> others me logs. lf_Term l < lf_Term my)))"
proof (induction logs arbitrary: sp)
  case (Cons p logs)
  obtain i l where p: "p = (i, l)" by (cases p)
  consider "i = me" | "i \<noteq> me" "lf_Term my < lf_Term l" | "i \<noteq> me" "lf_Term l < lf_Term my" | "i \<noteq> me" "lf_Term l = lf_Term my"
    by (metis linorder_neqE)
  then show ?case
  proof cases
    case 4
    then have "compare_logs me my t sp (p # logs) =
        (case log_txn l of None \<Rightarrow> compare_logs me my t False logs
         | Some t' \<Rightarrow> if t < t' then (False, False) else compare_logs me my t False logs)"
      by (simp add: p log_txn_def split: sum.split)
    also have "\<dots> = (if \<exists>l \<in> others me (p # logs). later_log l my t then (False, False) else (True, False))"
    proof -
      have "later_log l my t \<longleftrightarrow> (case log_txn l of None \<Rightarrow> False | Some t' \<Rightarrow> t < t')" using 4 by (simp add: later_log_def)
      with 4 Cons.IH [of False] show ?thesis by (cases "log_txn l") (simp_all add: p)
    qed
    finally show ?thesis using 4 by (simp add: p)
  qed (use Cons.IH [of sp] in \<open>auto simp: p later_log_term\<close>)
qed simp

lemma isLatestLog_cases:
  "isLatestLog E logs =
     (case map_of logs (e_id E) of
        None \<Rightarrow> (False, False)
      | Some my \<Rightarrow> (case log_txn my of None \<Rightarrow> (False, False) | Some t \<Rightarrow> compare_logs (e_id E) my t True logs))"
  by (auto simp: isLatestLog_def log_txn_def split: option.splits sum.splits)

text \<open>
  C8: the loop over the logs decides what it is meant to decide: the node has the latest log exactly if its
  own log is there and readable and no other log has a later term, or the same term and a later
  transaction; and it is alone in its term exactly if every other log has an earlier one.
\<close>

theorem isLatestLog_spec:
  "isLatestLog E logs =
     (case map_of logs (e_id E) of
        None \<Rightarrow> (False, False)
      | Some my \<Rightarrow>
          (case log_txn my of
             None \<Rightarrow> (False, False)
           | Some t \<Rightarrow>
               if \<exists>l \<in> others (e_id E) logs. later_log l my t then (False, False)
               else (True, \<forall>l \<in> others (e_id E) logs. lf_Term l < lf_Term my)))"
  unfolding isLatestLog_cases compare_logs_spec by (simp split: option.split)

text \<open>
  The order in which the logs are compared does not matter.
\<close>

lemma others_cong: "set logs = set logs' \<Longrightarrow> others me logs = others me logs'"
  by (simp add: others_def)

lemma isLatestLog_order:
  assumes "set logs = set logs'" and "distinct (map fst logs)" and "distinct (map fst logs')"
  shows "isLatestLog E logs = isLatestLog E logs'"
proof -
  have "map_of logs = map_of logs'" using assms by (simp add: map_of_inject_set)
  then show ?thesis by (simp add: isLatestLog_cases compare_logs_spec others_cong [OF assms(1)] split: option.split)
qed

lemma isLatestLog_True:
  assumes "fst (isLatestLog E logs)"
  obtains my t where "map_of logs (e_id E) = Some my" "log_txn my = Some t"
    "\<And>l. l \<in> others (e_id E) logs \<Longrightarrow> \<not> later_log l my t"
  using assms that by (auto simp: isLatestLog_cases compare_logs_spec split: option.splits if_splits)

definition log_rank :: "LogForElection \<Rightarrow> nat \<times> nat" where
  "log_rank l = (unat (lf_Term l), case log_txn l of None \<Rightarrow> 0 | Some t \<Rightarrow> unat t)"

lemma later_log_rank:
  assumes "log_txn l = Some s" and "log_txn my = Some t"
  shows "later_log l my t \<longleftrightarrow> log_rank my < log_rank l"
  using assms by (simp add: later_log_def log_rank_def word_less_nat_alt word_unat_eq_iff) linarith

lemma ex_highest_log:
  fixes f :: "'b \<Rightarrow> nat \<times> nat"
  assumes "logs \<noteq> []"
  shows "\<exists>p \<in> set logs. \<forall>q \<in> set logs. f (snd q) \<le> f (snd p)"
proof -
  have "Max ((\<lambda>q. f (snd q)) ` set logs) \<in> (\<lambda>q. f (snd q)) ` set logs" using assms by (intro Max_in) auto
  then obtain p where "p \<in> set logs" "f (snd p) = Max ((\<lambda>q. f (snd q)) ` set logs)" by auto
  then show ?thesis by (intro bexI [of _ p]) simp_all
qed

lemma other_log_mem: "map_of logs j = Some l \<Longrightarrow> j \<noteq> i \<Longrightarrow> l \<in> others i logs"
  by (auto simp: others_def dest: map_of_SomeD)



section \<open>What was uploaded is what the others read\<close>

lemma log_names:
  "to_lower ''term'' = ''term''" "to_lower ''last_uuid'' = ''last_uuid''" "to_lower ''last_gtid'' = ''last_gtid''"
  "to_lower ''end_txn_id'' = ''end_txn_id''" "to_lower ''version'' = ''version''"
  by code_simp+

lemma LogForElection_back:
  assumes "int_fits (lf_Version l)"
  shows "unmarshal upd_LogForElection zero_LogForElection (marshal_LogForElection l) = (l, True)"
proof -
  have a: "atoi (show_int (lf_Version l)) = Some (lf_Version l)" using assms atoi_show_int by (simp add: int_fits_def)
  have wf: "list_all (\<lambda>m. wf_json (snd m)) (members_LogForElection l)"
    by (simp add: members_LogForElection_def del: wf_json.simps(1))
  have "unmarshal_members upd_LogForElection zero_LogForElection (members_LogForElection l) = (l, True)"
    by (cases l) (use a in \<open>simp add: members_LogForElection_def unmarshal_members_def upd_LogForElection_def log_names
      dec_simps zero_LogForElection_def\<close>)
  then show ?thesis unfolding marshal_LogForElection_def by (simp add: unmarshal_print wf del: print_json.simps)
qed

lemma trim_left_hd: "trim_left s cs = c # t \<Longrightarrow> c \<notin> set cs"
  unfolding trim_left_def by (metis hd_dropWhile list.distinct(1) list.sel(1))

lemma fold_add_log_keys:
  "fst ` set (fold add_log xs r) \<subseteq> fst ` set r \<union> range (\<lambda>k. trim_left k node_cutset)"
proof (induction xs arbitrary: r)
  case (Cons x xs)
  have "fst ` set (add_log x r) \<subseteq> insert (trim_left (fst x) node_cutset) (fst ` set r)"
    by (cases x) (auto simp only: add_log_def split_beta dom_update fst_conv snd_conv split: if_split)
  with Cons.IH [of "add_log x r"] show ?case by simp blast
qed simp

text \<open>
  a node whose id begins with one of the letters of \<open>election/nodes\<close> never finds that it has the latest
  log, nor that it is the single point, whatever logs are in the store: the cut set of \<open>TrimLeft\<close> takes the beginning of its id off as well, so that it
  does not find its own log.
\<close>

theorem never_latest:
  assumes "e_id E = c # t" and "c \<in> set ''election/nodes''" and "getAllLogsForElection E w = Ret (Inr logs) w'"
  shows "isLatestLog E logs = (False, False)"
proof -
  have cut: "node_cutset = ''election/nodes''" by code_simp
  obtain xs where "logs = fold add_log xs []"
    using assms(3) by (auto simp: getAllLogsForElection_def elim!: andthen_RetE split: sum.splits)
  moreover have "e_id E \<noteq> trim_left k node_cutset" for k
    using trim_left_hd [of k node_cutset c t] assms(1,2) by (auto simp: cut)
  ultimately have "e_id E \<notin> fst ` set logs" using fold_add_log_keys [of xs "[]"] by auto
  then have "map_of logs (e_id E) = None" by (simp add: map_of_eq_None_iff)
  then show ?thesis by (simp add: isLatestLog_def)
qed

lemma fold_add_log_other: "(\<And>x. x \<in> set xs \<Longrightarrow> trim_left (fst x) node_cutset \<noteq> i) \<Longrightarrow> map_of (fold add_log xs r) i = map_of r i"
proof (induction xs arbitrary: r)
  case (Cons x xs)
  have "map_of (add_log x r) i = map_of r i"
    using Cons.prems [of x] by (cases x) (auto simp: add_log_def update_conv split: prod.splits)
  with Cons show ?case by simp
qed simp

lemma fold_add_log_unique:
  assumes "(k, v) \<in> set xs" and "trim_left k node_cutset = i" and "unmarshal upd_LogForElection zero_LogForElection v = (l, True)"
    and "\<And>x. x \<in> set xs \<Longrightarrow> trim_left (fst x) node_cutset = i \<Longrightarrow> x = (k, v)"
  shows "map_of (fold add_log xs r) i = Some l"
  using assms(1,4)
proof (induction xs arbitrary: r)
  case (Cons x xs)
  have hit: "map_of (add_log (k, v) r) i = Some l" for r using assms(2,3) by (simp add: add_log_def update_conv)
  show ?case
  proof (cases "(k, v) \<in> set xs")
    case True
    with Cons show ?thesis by simp
  next
    case False
    with Cons.prems have x: "x = (k, v)" by simp
    have "trim_left (fst y) node_cutset \<noteq> i" if "y \<in> set xs" for y using Cons.prems(2) [of y] False that by auto
    with hit x show ?thesis by (simp add: fold_add_log_other)
  qed
qed simp

lemma good_node_path:
  assumes "good_comp i"
  shows "node_path i = ''election/nodes/'' @ i" and "good_rel (node_path i)"
proof -
  have r: "good_rel ''election''" "good_rel ''nodes''" "good_rel ''election/nodes''" by code_simp+
  have "node_path i = ''election/nodes'' @ CHR ''/'' # i"
    unfolding node_path_def join_def electionPath_def by (subst path_join_rel3) (simp_all add: r good_rel_comp [OF assms])
  then show "node_path i = ''election/nodes/'' @ i" "good_rel (node_path i)"
    using good_rel_append [OF r(3) good_rel_comp [OF assms]] by simp_all
qed

lemma good_nodes_path: "nodes_path = ''election/nodes''" "good_rel nodes_path"
  by code_simp+

lemma PrefixGet_reply:
  assumes "KeyWithRootPath root p \<noteq> []" and "n_script w = Rpc env RpcOK d1 d2 # rest"
  shows "Client_PrefixGet root False p w =
    Ret (Inr (collect_kvs root (etcd_range_prefix (env (n_etcd w)) (KeyWithRootPath root p)) []))
      (w\<lparr>n_script := rest, n_clock := n_clock w + int d1 + int d2, n_etcd := env (n_etcd w)\<rparr>)"
  using assms by (simp add: Client_PrefixGet_def andthen_def rpc_call_def range_req_def Let_def)

text \<open>No other key below \<open>election/nodes\<close> is read as the id of the node.\<close>

definition sole_id :: "agent_env \<Rightarrow> etcd \<Rightarrow> bool" where
  "sole_id E e \<longleftrightarrow> (\<forall>x \<in> set (e_kvs e). prefix (fullPathOf E nodes_path) (kv_key x) \<longrightarrow>
     trim_left (trim_prefix (kv_key x) (root_prefix (rootPath E))) node_cutset = e_id E \<longrightarrow>
     kv_key x = fullPathOf E (node_path (e_id E)))"

lemma collect_mem:
  "(k, v) \<in> set (collect_kvs root kvs []) \<Longrightarrow> \<exists>x \<in> set kvs. trim_prefix (kv_key x) (root_prefix root) = k \<and> kv_value x = v"
proof -
  assume "(k, v) \<in> set (collect_kvs root kvs [])"
  then have "map_of (collect_kvs root kvs []) k = Some v" by (intro map_of_is_SomeI distinct_collect) simp_all
  then show ?thesis by (auto simp: map_of_collect dest!: map_of_SomeD)
qed


lemma uploaded_key:
  assumes "uploadLogForElection E l w = Ret None w'"
  shows "etcd_value (n_etcd w') (fullPathOf E (node_path (e_id E))) = Some (marshal_LogForElection l)" and "net_only w w'"
proof -
  from assms have p: "Client_Put (rootPath E) (a_ctxDone w) (node_path (e_id E)) (marshal_LogForElection l) 0 w = Ret (Inr ()) w'"
    by (auto simp: uploadLogForElection_def to_err_def elim!: andthen_RetE split: sum.splits)
  then show "net_only w w'" unfolding Client_Put_def by (rule net_only_rpc)
  from p show "etcd_value (n_etcd w') (fullPathOf E (node_path (e_id E))) = Some (marshal_LogForElection l)"
    unfolding Client_Put_def by (auto simp: etcd_put_def fullPathOf_def split: if_splits elim!: rpc_nil)
qed

lemma nodes_prefix:
  assumes "wf_env E"
  shows "prefix (fullPathOf E nodes_path) (fullPathOf E (node_path (e_id E)))"
    and "trim_prefix (fullPathOf E (node_path (e_id E))) (root_prefix (rootPath E)) = node_path (e_id E)"
proof -
  have g: "good_root (rootPath E)" "good_rel (node_path (e_id E))" using assms good_node_path by (auto simp: wf_env_def)
  show "prefix (fullPathOf E nodes_path) (fullPathOf E (node_path (e_id E)))"
    unfolding fullPathOf_def KeyWithRootPath_def keyWithPrefix_def path_join_root [OF g] path_join_root [OF g(1) good_nodes_path(2)]
    using good_node_path(1) [of "e_id E"] assms by (simp add: good_nodes_path wf_env_def)
  show "trim_prefix (fullPathOf E (node_path (e_id E))) (root_prefix (rootPath E)) = node_path (e_id E)"
    unfolding fullPathOf_def by (rule trim_root [OF g])
qed

lemma read_logs:
  assumes "wf_env E" and "wf_etcd e" and "sole_id E e" and "hd (e_id E) \<notin> set ''election/nodes''"
    and "etcd_value e (fullPathOf E (node_path (e_id E))) = Some (marshal_LogForElection l)" and "int_fits (lf_Version l)"
    and xs: "mset xs = mset (collect_kvs (rootPath E) (etcd_range_prefix e (fullPathOf E nodes_path)) [])"
  shows "map_of (fold add_log xs []) (e_id E) = Some l"
proof -
  let ?i = "e_id E" and ?p = "node_path (e_id E)" and ?kvs = "etcd_range_prefix e (fullPathOf E nodes_path)"
  have i: "good_comp ?i" using assms(1) by (simp add: wf_env_def)
  have cut: "node_cutset = ''election/nodes''" by code_simp
  obtain c t where ct: "?i = c # t" using i by (cases ?i) (auto simp: good_comp_def)
  have trim: "trim_left ?p node_cutset = ?i"
    using assms(4) ct unfolding good_node_path(1) [OF i] cut trim_left_def by simp
  from assms(5) obtain x where x: "etcd_get e (fullPathOf E ?p) = Some x" "kv_value x = marshal_LogForElection l"
    by (auto simp: etcd_value_def)
  have key: "y = x" if "y \<in> set (e_kvs e)" "kv_key y = fullPathOf E ?p" for y
    using kv_get_sorted [OF wf_etcdD(1) [OF assms(2)] that(1)] x(1) that(2) by (simp add: etcd_get_def)
  have mem: "x \<in> set ?kvs"
    using etcd_get_SomeD [OF x(1)] nodes_prefix(1) [OF assms(1)] by (auto simp: etcd_range_prefix_def)
  have sole: "k = ?p \<and> v = marshal_LogForElection l"
    if "(k, v) \<in> set (collect_kvs (rootPath E) ?kvs [])" "trim_left k node_cutset = ?i" for k v
  proof -
    from collect_mem [OF that(1)] obtain y where y: "y \<in> set ?kvs" "trim_prefix (kv_key y) (root_prefix (rootPath E)) = k" "kv_value y = v"
      by blast
    then have "kv_key y = fullPathOf E ?p" using assms(3) that(2) by (auto simp: sole_id_def etcd_range_prefix_def)
    with y key x(2) nodes_prefix(2) [OF assms(1)] show ?thesis by (auto simp: etcd_range_prefix_def)
  qed
  have "map_of (collect_kvs (rootPath E) ?kvs []) ?p \<noteq> None"
    using mem etcd_get_SomeD [OF x(1)] nodes_prefix(2) [OF assms(1)]
    by (auto simp: map_of_collect map_of_eq_None_iff image_iff intro!: bexI [of _ x])
  then obtain v where "(?p, v) \<in> set (collect_kvs (rootPath E) ?kvs [])" by (auto dest: map_of_SomeD)
  with sole [OF this trim] have "(?p, marshal_LogForElection l) \<in> set xs"
    using mset_eq_setD [OF xs] by simp
  then show ?thesis
    by (rule fold_add_log_unique [OF _ trim LogForElection_back [OF assms(6)]])
      (use sole mset_eq_setD [OF xs] in \<open>auto\<close>)
qed



section \<open>Examples\<close>

definition ex_log :: "u64 \<Rightarrow> u64 \<Rightarrow> LogForElection" where
  "ex_log t n = \<lparr>lf_Term = t, lf_LastUUID = ''u'', lf_LastGTID = ''u:1-5'', lf_EndTxnID = n, lf_Version = 2\<rparr>"

lemma ex_log_txn [simp]: "log_txn (ex_log t n) = Some n" "lf_Term (ex_log t n) = t"
  by (simp_all add: log_txn_def ex_log_def)

definition ex_logs :: "(string \<times> LogForElection) list" where
  "ex_logs = [(''m1'', ex_log 5 9), (''m2'', ex_log 5 7), (''m3'', ex_log 4 20)]"

theorem isLatestLog_spec_witness:
  "isLatestLog (ex_env ''m1'') ex_logs = (True, False) \<and> isLatestLog (ex_env ''m2'') ex_logs = (False, False)"
  unfolding isLatestLog_spec by (simp add: ex_logs_def later_log_def)


lemma ex_wf_env: "wf_env (ex_env ''m1'')" "wf_env (ex_env ''m2'')"
proof -
  have "good_comp ''m1''" "good_comp ''m2''" by code_simp+
  then show "wf_env (ex_env ''m1'')" "wf_env (ex_env ''m2'')" using ex_root_good(1) by (simp_all add: wf_env_def ex_root)
qed

definition ex_uploaded :: "string \<Rightarrow> string \<Rightarrow> etcd" where
  "ex_uploaded k v = snd (etcd_put k v 0 empty_etcd)"

lemma ex_uploaded_eq: "k \<noteq> [] \<Longrightarrow> ex_uploaded k v = \<lparr>e_kvs = [\<lparr>kv_key = k, kv_value = v, kv_create = 2, kv_mod = 2,
    kv_version = 1, kv_lease = 0\<rparr>], e_rev = 2, e_leases = [], e_next = 1, e_minTTL = 2\<rparr>"
  by (simp add: ex_uploaded_def etcd_put_def store_put_def empty_etcd_def etcd_get_def)

lemma ex_nodes_neq: "KeyWithRootPath ''/moha/c1'' nodes_path \<noteq> []"
  using ex_root_good(1) good_nodes_path(2) by (simp add: good_path_neq_Nil)

theorem never_latest_witness:
  "isLatestLog (ex_env ''n1'') (fold add_log (collect_kvs ''/moha/c1'' (etcd_range_prefix (ex_uploaded (fullPathOf (ex_env ''n1'')
     (node_path ''n1'')) (marshal_LogForElection (ex_log 5 9))) (KeyWithRootPath ''/moha/c1'' nodes_path)) []) []) = (False, False)"
proof -
  let ?e = "ex_uploaded (fullPathOf (ex_env ''n1'') (node_path ''n1'')) (marshal_LogForElection (ex_log 5 9))"
  have "\<exists>r. getAllLogsForElection (ex_env ''n1'') (ex_agent ''n1'' ?e [rpc_ok] []) = Ret (Inr (fold add_log (collect_kvs ''/moha/c1''
     (etcd_range_prefix ?e (KeyWithRootPath ''/moha/c1'' nodes_path)) []) [])) r"
    using PrefixGet_reply [OF ex_nodes_neq, of "ex_agent ''n1'' ?e [rpc_ok] []"]
    by (simp add: getAllLogsForElection_def ex_root andthen_Ret rpc_ok_def)
  then show ?thesis using never_latest [of "ex_env ''n1''" "CHR ''n''" "''1''"] by fastforce
qed

lemma ex_upload:
  assumes "wf_env (ex_env i)"
  shows "\<exists>l w. uploadLogForElectionAsSlave (ex_env i) (ex_agent i empty_etcd [rpc_ok] [sql_ok]) = Ret None w \<and>
    n_etcd w = ex_uploaded (fullPathOf (ex_env i) (node_path i)) l"
proof -
  have "fullPathOf (ex_env i) (node_path i) \<noteq> []"
    using assms fullPathOf_neq_Nil [OF assms] good_node_path(2) by (simp add: wf_env_def)
  then have "KeyWithRootPath ''/moha/c1'' (node_path i) \<noteq> []" by (simp add: fullPathOf_def ex_root)
  then show ?thesis
    by (simp add: uploadLogForElectionAsSlave_def uploadLogForElection_def mysqlSM_LoadReplicationInfoOfSlave_def GetSlaveStatus_def
      db_Query_def sql_call_def sql_ok_def andthen_def Client_Put_def rpc_call_def rpc_ok_def etcd_put_def ex_uploaded_def fullPathOf_def
      ex_root set_log_def to_err_def split: prod.split) blast
qed



end
