(* ===== verification/Frames.thy ===== *)
theory Frames
  imports Agent_State
begin

text \<open>
  Frame conditions. A preorder on worlds that every step of a program respects is respected by the
  program: the locale \<open>frame\<close> proves this once for the combinators of the execution monad, and is
  interpreted for what the database is told, and for the role the agent believes it has.
\<close>

definition moves :: "('w \<Rightarrow> 'w \<Rightarrow> bool) \<Rightarrow> ('w, 'a) io \<Rightarrow> bool" where
  "moves R m \<longleftrightarrow> (\<forall>w. R w (final_world (m w)))"

lemma movesD: "moves R m \<Longrightarrow> R w (final_world (m w))"
  by (simp add: moves_def)

lemma moves_RetD: "moves R m \<Longrightarrow> m w = Ret a w' \<Longrightarrow> R w w'"
  by (auto dest: movesD [of R m w])

locale frame =
  fixes R :: "'w \<Rightarrow> 'w \<Rightarrow> bool"
  assumes refl: "R w w" and trans: "R u v \<Longrightarrow> R v w \<Longrightarrow> R u w"
begin

lemma moves_ret: "moves R (ret a)"
  and moves_reads: "moves R (reads f)"
  and moves_os_Exit: "moves R (os_Exit c)"
  and moves_go_panic: "moves R go_panic"
  and moves_wait: "moves R (\<lambda>w. Wait w)"
  by (simp_all add: moves_def refl)

lemma moves_updates: "(\<And>w. R w (f w)) \<Longrightarrow> moves R (updates f)"
  by (simp add: moves_def)

lemma moves_andthen:
  assumes "moves R m" and "\<And>a. moves R (f a)"
  shows "moves R (andthen m f)"
  unfolding moves_def
proof
  fix w show "R w (final_world (andthen m f w))"
    using movesD [OF assms(1), of w] movesD [OF assms(2)]
    by (cases "m w") (auto simp: andthen_def intro: trans)
qed

lemma moves_if: "(b \<Longrightarrow> moves R m) \<Longrightarrow> (\<not> b \<Longrightarrow> moves R n) \<Longrightarrow> moves R (if b then m else n)"
  by simp

lemma moves_case_sum:
  "(\<And>e. moves R (f e)) \<Longrightarrow> (\<And>a. moves R (g a)) \<Longrightarrow> moves R (case x of Inl e \<Rightarrow> f e | Inr a \<Rightarrow> g a)"
  by (cases x) auto

lemma moves_case_option:
  "moves R m \<Longrightarrow> (\<And>a. moves R (g a)) \<Longrightarrow> moves R (case x of None \<Rightarrow> m | Some a \<Rightarrow> g a)"
  by (cases x) auto

lemma moves_case_prod: "(\<And>a b. moves R (f a b)) \<Longrightarrow> moves R (case x of (a, b) \<Rightarrow> f a b)"
  by (cases x) auto

lemma moves_deferred:
  assumes "moves R m" and "moves R d"
  shows "moves R (deferred d m)"
  unfolding moves_def
proof
  fix w
  have d: "moves R (andthen d (\<lambda>_. ret a))" "moves R (andthen d (\<lambda>_. go_panic))" for a
    by (intro moves_andthen assms moves_ret moves_go_panic)+
  have m: "R w (final_world (m w))" by (rule movesD [OF assms(1)])
  show "R w (final_world (deferred d m w))"
  proof (cases "m w")
    case (Ret a w')
    with m trans [OF _ movesD [OF d(1) [of a], of w']] show ?thesis by (simp add: deferred_def)
  next
    case (Panic w')
    with m trans [OF _ movesD [OF d(2), of w']] show ?thesis by (simp add: deferred_def)
  qed (use m in \<open>simp_all add: deferred_def\<close>)
qed

lemmas intros = moves_ret moves_reads moves_os_Exit moves_go_panic moves_wait moves_updates moves_andthen
  moves_if moves_case_sum moves_case_option moves_case_prod moves_deferred

end

section \<open>Loops\<close>

lemma moves_spin:
  assumes "frame R" and "\<And>w t. 0 \<le> t \<Longrightarrow> R w (w\<lparr>n_clock := n_clock w + t\<rparr>)" and "moves R f"
  shows "moves R (spin n d f)"
  unfolding moves_def
proof
  fix w show "R w (final_world (spin n d f w))"
  proof (induction n arbitrary: w)
    case 0
    then show ?case using frame.refl [OF assms(1)] by simp
  next
    case (Suc n)
    have f: "R w (final_world (f w))" using movesD [OF assms(3)] .
    have s: "R v (v\<lparr>n_clock := n_clock v + max 0 d\<rparr>)" for v using assms(2) by simp
    show ?case
    proof (cases "f w")
      case (Ret r w')
      with f s [of w'] Suc.IH show ?thesis
        by (cases r) (auto simp: time_Sleep_def intro: frame.trans [OF assms(1)])
    qed (use f in auto)
  qed
qed

section \<open>Database work and requests\<close>

text \<open>
  A preorder that is respected by each single exchange with the operating system and with the database, as
  long as the statement does not open MySQL for writing, is respected by all the operations of a service
  manager built from them; by the operations of the etcd client, if it is respected by each exchange with
  etcd; and by the one that sets the database read-only, if storing that is allowed as well.
\<close>

locale local_frame = frame R for R :: "'z dbnet_scheme \<Rightarrow> 'z dbnet_scheme \<Rightarrow> bool" +
  assumes clock_step: "n_clock w \<le> c \<Longrightarrow> R w (w\<lparr>n_clock := c\<rparr>)"
    and sql_step: "\<not> opens_db stmt \<Longrightarrow> n_clock w \<le> c \<Longrightarrow> R w (w\<lparr>d_sql := q, d_log := (stmt, b) # d_log w, n_clock := c\<rparr>)"
    and cmd_step: "n_clock w \<le> c \<Longrightarrow> R w (w\<lparr>d_cmds := cs, d_cmdlog := l, n_clock := c\<rparr>)"
begin

lemma moves_sql: "\<not> opens_db s \<Longrightarrow> moves R (sql_call s)"
proof -
  assume s: "\<not> opens_db s"
  have "R w (w\<lparr>d_log := (s, b) # d_log w\<rparr>)" for w b
    using sql_step [OF s, where w = w and c = "n_clock w" and q = "d_sql w"] by simp
  then show ?thesis using sql_step [OF s] by (auto simp: moves_def sql_call_def split: list.split sql_reply.split)
qed

lemma moves_cmd: "moves R (run_command c)"
proof -
  have "R w (w\<lparr>d_cmdlog := l\<rparr>)" for w l
    using cmd_step [where w = w and c = "n_clock w" and cs = "d_cmds w"] by simp
  then show ?thesis using cmd_step by (auto simp: moves_def run_command_def split: list.split cmd_reply.split)
qed

lemma moves_sleep: "moves R (time_Sleep d)"
  unfolding time_Sleep_def by (intro moves_updates clock_step) simp

lemma moves_spin_all: "moves R f \<Longrightarrow> moves R (spin_all d f)"
proof -
  assume "moves R f"
  then have "moves R (spin n d f)" for n
    by (rule moves_spin [OF frame_axioms, rotated]) (simp add: clock_step)
  then show ?thesis by (simp add: moves_def spin_all_def)
qed

lemmas local_steps = intros moves_sql moves_cmd moves_sleep moves_spin_all

lemma moves_locker: "moves R m \<Longrightarrow> moves R (with_locker m)"
  unfolding with_locker_def locker_op_def by (intro local_steps)

lemma moves_err_io: "moves R m \<Longrightarrow> moves R (err_io m)"
  unfolding err_io_def by (intro local_steps)

lemma moves_mysql:
  "moves R GetSlaveStatus" "moves R GetMasterStatus" "moves R mysql_GetServerUUID" "moves R mysql_PromoteToMaster"
  "moves R (mysql_RedirectMaster u p h q)" "moves R mysql_SetReadOnly" "moves R ReloadConf" "moves R GetCurrentLSN"
  "moves R GetLastReplayLSN" "moves R Checkpoint" "moves R GetRunningDDLCount"
  unfolding db_primitives by (intro local_steps; simp add: opens_db_def change_master_sql_def ddlcount_sql_def)+

lemmas sm_unfold = mysqlSM_LoadMasterStatusFromDB_def mysqlSM_LoadSlaveStatusFromDB_def
  mysqlSM_LoadReplicationInfoOfSlave_def mysqlSM_LoadReplicationInfoOfMaster_def
  pgSM_PromoteToMaster_def pgSM_RedirectMaster_def pg_start_def pgSM_LoadMasterStatusFromDB_def
  pgSM_LoadSlaveStatusFromDB_def pgSM_LoadReplicationInfoOfSlave_def pgSM_LoadReplicationInfoOfMaster_def

lemma moves_sm:
  "moves R (sm_PromoteToMaster sm)" "moves R (sm_RedirectMaster sm h q)"
  "moves R (sm_LoadMasterStatusFromDB sm)" "moves R (sm_LoadSlaveStatusFromDB sm p)"
  "moves R (sm_LoadReplicationInfoOfSlave sm)" "moves R (sm_LoadReplicationInfoOfMaster sm)" "moves R (sm_GetServerUUID sm)"
  by (cases sm; simp; (unfold sm_unfold)?; intro local_steps moves_mysql moves_locker)+

end

locale exchange_frame = local_frame R for R :: "'z dbnet_scheme \<Rightarrow> 'z dbnet_scheme \<Rightarrow> bool" +
  assumes etcd_step: "n_clock w \<le> c \<Longrightarrow> R w (w\<lparr>n_script := s, n_clock := c, n_etcd := e\<rparr>)"
begin

lemma moves_rpc: "moves R (rpc_call d f)"
  using etcd_step by (auto simp: moves_def rpc_call_def Let_def refl split: list.split rpc_event.split rpc_status.split)

lemmas steps = local_steps moves_rpc

lemma moves_client:
  "moves R (Client_Put r d k v l)" "moves R (Client_PrefixGet r d k)" "moves R (Client_MultiGet r d ks)"
  "moves R (Client_Delete r d k b)" "moves R (Client_Txn d cs ops)" "moves R (Lease_Grant d t)"
  "moves R (Lease_KeepAliveOnce d i)"
  unfolding Client_Put_def Client_PrefixGet_def Client_MultiGet_def Client_Delete_def Client_Txn_def Lease_Grant_def
    Lease_KeepAliveOnce_def by (intro steps; simp split: list.split; intro conjI allI impI steps)+

lemmas all_steps = steps moves_mysql moves_sm moves_client moves_err_io

end

locale flag_frame = local_frame R for R :: "'z dbnet_scheme \<Rightarrow> 'z dbnet_scheme \<Rightarrow> bool" +
  assumes flag_step: "R w (w\<lparr>d_readonly := 1\<rparr>)"
begin

lemma moves_store: "moves R (store_readonly 1 e)"
  by (auto simp: moves_def store_readonly_def refl flag_step)

lemma moves_SetReadOnly: "moves R (sm_SetReadOnly sm)"
  by (cases sm; simp; unfold mysqlSM_SetReadOnly_def pgSM_SetReadOnly_def; intro local_steps moves_mysql moves_store)

end

locale db_frame = exchange_frame R + flag_frame R for R :: "'z dbnet_scheme \<Rightarrow> 'z dbnet_scheme \<Rightarrow> bool"
begin

lemmas ro_steps = all_steps moves_SetReadOnly

end

text \<open>One that also does not mind the database being opened is respected by every operation on it.\<close>

locale open_frame = flag_frame R for R :: "'z dbnet_scheme \<Rightarrow> 'z dbnet_scheme \<Rightarrow> bool" +
  assumes any_sql: "n_clock w \<le> c \<Longrightarrow> R w (w\<lparr>d_sql := q, d_log := (stmt, b) # d_log w, n_clock := c\<rparr>)"
    and any_flag: "R w (w\<lparr>d_readonly := v\<rparr>)"
begin

lemma moves_any_sql: "moves R (sql_call s)"
proof -
  have "R w (w\<lparr>d_log := (s, b) # d_log w\<rparr>)" for w b
    using any_sql [where w = w and c = "n_clock w" and q = "d_sql w"] by simp
  then show ?thesis using any_sql by (auto simp: moves_def sql_call_def split: list.split sql_reply.split)
qed

lemma moves_any_store: "moves R (store_readonly v e)"
  by (auto simp: moves_def store_readonly_def refl any_flag)

lemma moves_rw:
  "moves R (sm_SetReadWrite sm)" "moves R (sm_SetReadOnlyManually sm)"
  by (cases sm; simp; unfold mysqlSM_SetReadOnlyManually_def pgSM_SetReadOnlyManually_def rollbackReadOnly_def mysqlSM_SetReadOnly_def
      pgSM_SetReadWrite_def mysqlSM_SetReadWrite_def mysql_SetReadWrite_def KillProcess_def pgSM_SetReadOnly_def db_Exec_def db_Query_def;
    intro intros moves_mysql moves_cmd moves_any_sql moves_any_store)+

end

section \<open>What the database is told\<close>

text \<open>
  A step is tame if it does not make the agent take its database for writable, and does not send MySQL
  anything that opens it.
\<close>

definition tame :: "'z dbnet_scheme \<Rightarrow> 'z dbnet_scheme \<Rightarrow> bool" where
  "tame w w' \<longleftrightarrow> (IsReadOnly w \<longrightarrow> IsReadOnly w') \<and> (log_closed w \<longrightarrow> log_closed w')"

interpretation tame: db_frame tame
  by unfold_locales (auto simp: tame_def IsReadOnly_def db_closed_Cons)

section \<open>The state of the process\<close>

text \<open>Requests and statements leave the fields of the process alone.\<close>

definition same_agent :: "agent \<Rightarrow> agent \<Rightarrow> bool" where
  "same_agent w w' \<longleftrightarrow> dbnet.more w' = dbnet.more w"

interpretation same_agent: db_frame same_agent
  by unfold_locales (auto simp: same_agent_def)

interpretation same_agent_open: open_frame same_agent
  by unfold_locales (auto simp: same_agent_def)

lemma same_agent_fields:
  assumes "same_agent w w'"
  shows "a_ctxDone w' = a_ctxDone w" "a_isLeader w' = a_isLeader w" "a_term w' = a_term w"
    "a_leaderValue w' = a_leaderValue w" "a_isClosed w' = a_isClosed w" "a_leaderStopCh w' = a_leaderStopCh w"
    "a_lastUUID w' = a_lastUUID w" "a_lastGTID w' = a_lastGTID w" "a_lastTxnID w' = a_lastTxnID w"
    "a_leaseExpireTS w' = a_leaseExpireTS w" "a_isSinglePointMaster w' = a_isSinglePointMaster w"
    "a_latestPos w' = a_latestPos w" "a_uuid w' = a_uuid w" "a_onlyFollow w' = a_onlyFollow w"
  using assms by (cases w; cases w'; simp add: same_agent_def)+

text \<open>Nothing but the read-only operations touches the agent's flag.\<close>

definition same_flag :: "'z dbnet_scheme \<Rightarrow> 'z dbnet_scheme \<Rightarrow> bool" where
  "same_flag w w' \<longleftrightarrow> d_readonly w' = d_readonly w"

interpretation same_flag: exchange_frame same_flag
  by unfold_locales (auto simp: same_flag_def)

section \<open>Time\<close>

definition clock_mono :: "'z dbnet_scheme \<Rightarrow> 'z dbnet_scheme \<Rightarrow> bool" where
  "clock_mono w w' \<longleftrightarrow> n_clock w \<le> n_clock w'"

interpretation clock_mono: db_frame clock_mono
  by unfold_locales (auto simp: clock_mono_def)


lemma tame_fields [simp]:
  "d_readonly w' = d_readonly w \<Longrightarrow> d_log w' = d_log w \<Longrightarrow> tame w w'"
  by (simp add: tame_def IsReadOnly_def)

end
