(* ===== verification/Agent_Master.thy ===== *)
theory Agent_Master
  imports Agent_Election Frames
begin

text \<open>
  The parts of \<open>src/agent/server.go\<close> around becoming a master or a slave: the checks before a campaign and
  before following a leader, promotion, redirection to a new master, and the refreshing of the binlog position.
\<close>

section \<open>The binlog position\<close>

definition updateBinlogPos :: "agent_env \<Rightarrow> error option agent_io" where
  "updateBinlogPos E =
     andthen (reads amILeader) (\<lambda>leader.
     if leader then
       andthen (sm_LoadMasterStatusFromDB (e_sm E)) (\<lambda>r. case r of
         Inl e \<Rightarrow> ret (Some e)
       | Inr pos \<Rightarrow>
           andthen (updates (\<lambda>w. w\<lparr>a_latestPos := (a_latestPos w)\<lparr>pos_File := pos_File pos, pos_Pos := pos_Pos pos,
             pos_GTID := pos_GTID pos, pos_SecondsBehindMaster := 0, pos_SlaveIORunning := False,
             pos_SlaveSQLRunning := False\<rparr>\<rparr>)) (\<lambda>_. ret None))
     else
       andthen (reads a_latestPos) (\<lambda>p.
       andthen (sm_LoadSlaveStatusFromDB (e_sm E) p) (\<lambda>r. case r of
         Inl e \<Rightarrow> ret (Some e)
       | Inr pos \<Rightarrow>
           andthen (updates (\<lambda>w. w\<lparr>a_latestPos := (a_latestPos w)\<lparr>pos_File := pos_File pos, pos_Pos := pos_Pos pos,
             pos_GTID := pos_GTID pos, pos_SlaveSQLRunning := pos_SlaveSQLRunning pos, pos_SlaveIORunning := pos_SlaveIORunning pos,
             pos_SecondsBehindMaster := pos_SecondsBehindMaster pos\<rparr>\<rparr>)) (\<lambda>_. ret None))))"

section \<open>Promotion and redirection\<close>

definition switch_path :: "agent_env \<Rightarrow> u64 \<Rightarrow> string" where
  "switch_path E t = join [''switch'', show_u64 (t - 1), e_id E]"

definition uploadPromotionBinlog :: "agent_env \<Rightarrow> error option agent_io" where
  "uploadPromotionBinlog E =
     andthen (reads a_latestPos) (\<lambda>p.
     andthen (sm_LoadSlaveStatusFromDB (e_sm E) p) (\<lambda>r. case r of
       Inl e \<Rightarrow> ret (Some e)
     | Inr currentPos \<Rightarrow>
         andthen (reads id) (\<lambda>s.
         andthen (Client_Put (rootPath E) (a_ctxDone s) (switch_path E (a_term s)) (marshal_Position currentPos) 0) (\<lambda>r.
         ret (to_err r)))))"

text \<open>Errors of the promotion itself and of the upload are only logged.\<close>

definition promoteToMaster :: "agent_env \<Rightarrow> error option agent_io" where
  "promoteToMaster E =
     andthen (reads amILeader) (\<lambda>leader.
     if leader then sm_SetReadWrite (e_sm E)
     else
       andthen setIsLeaderToTrue (\<lambda>_.
       andthen (sm_PromoteToMaster (e_sm E)) (\<lambda>_.
       andthen (uploadPromotionBinlog E) (\<lambda>_.
       sm_SetReadWrite (e_sm E)))))"

fun redirect_loop :: "nat \<Rightarrow> agent_env \<Rightarrow> string \<Rightarrow> string \<Rightarrow> error option \<Rightarrow> error option agent_io" where
  "redirect_loop n E masterHost masterPort None = ret None"
| "redirect_loop 0 E masterHost masterPort (Some e) = ret (Some e)"
| "redirect_loop (Suc n) E masterHost masterPort (Some e) =
     andthen (if e \<noteq> EBadConn then time_Sleep (100 * time_Millisecond) else ret ()) (\<lambda>_.
     andthen (sm_RedirectMaster (e_sm E) masterHost masterPort) (redirect_loop n E masterHost masterPort))"

definition becomeSlave :: "agent_env \<Rightarrow> string \<Rightarrow> string \<Rightarrow> error option agent_io" where
  "becomeSlave E masterHost masterPort =
     andthen (sm_RedirectMaster (e_sm E) masterHost masterPort) (redirect_loop 10 E masterHost masterPort)"

definition doChangeMaster :: "agent_env \<Rightarrow> Leader \<Rightarrow> error option agent_io" where
  "doChangeMaster E leader =
     (if isSameLeader E (ld_name leader) then promoteToMaster E
      else
        andthen (NodeStatus_of E (ld_name leader)) (\<lambda>r. case r of
          Inl e \<Rightarrow> ret (Some e)
        | Inr newLeader \<Rightarrow>
            (case parseHost (ns_InternalHost newLeader) of
               Inl e \<Rightarrow> ret (Some e)
             | Inr (masterHost, masterPort) \<Rightarrow>
                 andthen setIsLeaderToFalse (\<lambda>_. becomeSlave E masterHost masterPort))))"

section \<open>Before a campaign\<close>

definition isPreviousMaster :: "agent_env \<Rightarrow> Leader \<Rightarrow> agent \<Rightarrow> bool" where
  "isPreviousMaster E leader w \<longleftrightarrow>
     a_term w = lm_term (ld_meta leader) \<and> e_id E = lm_name (ld_meta leader) \<or>
     a_term w = lm_term (ld_meta leader) - 1 \<and> getUUID w = lm_lastUUID (ld_meta leader)"

definition preCampaign :: "agent_env \<Rightarrow> bool \<Rightarrow> bool agent_io" where
  "preCampaign E isFormerMaster =
     andthen (time_Sleep (CampaignWaitTime (e_cfg E))) (\<lambda>_.
     andthen (if isFormerMaster then uploadLogForElectionAsFormerMaster E else uploadLogForElectionAsSlave E) (\<lambda>_.
     andthen (time_Sleep (CampaignWaitTime (e_cfg E))) (\<lambda>_.
     andthen (spin_all (100 * time_Millisecond) (getAllLogsForElection E)) (\<lambda>logs.
     (case isLatestLog E logs of (isLatest, isSinglePoint) \<Rightarrow>
        andthen (if \<not> isLatest then time_Sleep (CampaignWaitTime (e_cfg E)) else ret ()) (\<lambda>_.
        andthen (if isFormerMaster then time_Sleep (500 * time_Millisecond) else ret ()) (\<lambda>_.
        ret isSinglePoint)))))))"

section \<open>Before following a leader\<close>

text \<open>The checks of \<open>preWatch\<close> that need no call, on the state after the log was loaded.\<close>

definition watch_check :: "agent_env \<Rightarrow> Leader \<Rightarrow> agent \<Rightarrow> error option" where
  "watch_check E leader w =
     (if lm_version (ld_meta leader) \<ge> 2 then
        (if lm_lastTxnID (ld_meta leader) < a_lastTxnID w then Some (ENotValid ''current server has later TxnID'') else None)
      else if a_lastUUID w \<noteq> lm_lastUUID (ld_meta leader) then Some (ENotValid ''current server has different leader UUID'')
      else case GetTxnIDFromGTIDStr (a_lastGTID w) (a_lastUUID w) of
          Inl e \<Rightarrow> Some e
        | Inr myTxnID \<Rightarrow>
            (case GetTxnIDFromGTIDStr (lm_lastGTID (ld_meta leader)) (lm_lastUUID (ld_meta leader)) of
               Inl e \<Rightarrow> Some e
             | Inr latestTxnID \<Rightarrow>
                 if latestTxnID < myTxnID then Some (ENotValid ''current server has later GTID'') else None))"

definition load_log :: "agent_env \<Rightarrow> Leader \<Rightarrow> error option agent_io" where
  "load_log E leader =
     andthen (reads id) (\<lambda>s.
     if a_lastUUID s = [] then
       (if isPreviousMaster E leader s then loadMasterLogFromMySQL E else loadSlaveLogFromMySQL E)
     else ret None)"

definition watch_by_log :: "agent_env \<Rightarrow> Leader \<Rightarrow> error option agent_io" where
  "watch_by_log E leader =
     andthen (load_log E leader) (\<lambda>err.
     if err \<noteq> None then ret err
     else
       andthen (reads (watch_check E leader)) (\<lambda>err.
       if err \<noteq> None then ret err
       else
         andthen (updates (\<lambda>w. if a_term w = lm_term (ld_meta leader) - 1 then w\<lparr>a_term := lm_term (ld_meta leader)\<rparr> else w)) (\<lambda>_.
         ret None)))"

definition preWatch_body :: "agent_env \<Rightarrow> Leader \<Rightarrow> error option agent_io" where
  "preWatch_body E leader =
     andthen (reads a_term) (\<lambda>t.
     if t = 0 then andthen (updates (\<lambda>w. w\<lparr>a_term := lm_term (ld_meta leader)\<rparr>)) (\<lambda>_. ret None)
     else if t < lm_term (ld_meta leader) - 1 then
       ret (Some (ENotValid ''current server is behind current term for more than one term''))
     else if t = lm_term (ld_meta leader) then ret None
     else watch_by_log E leader)"

text \<open>The deferred call persists the term when there was no error, and ignores its own error.\<close>

definition preWatch :: "agent_env \<Rightarrow> Leader \<Rightarrow> error option agent_io" where
  "preWatch E leader =
     andthen (preWatch_body E leader) (\<lambda>err.
     if err = None then andthen (persistMyTerm E) (\<lambda>_. ret None) else ret err)"


section \<open>Following never opens the database\<close>

lemma tame_close_chan: "(\<And>w. tame w (put w)) \<Longrightarrow> moves tame (close_chan get put)"
  unfolding close_chan_def by (intro tame.ro_steps) (simp split: chan.split add: tame.ro_steps)

lemma tame_decode_node: "moves tame (decode_node i v)"
  unfolding decode_node_def by (intro tame.ro_steps)

lemmas tame_unfold = register_def RegisterNode_def Register_def Node_def NodeStatus_of_def RefreshNode_def
  persistMyTerm_def getLeaderAndMyTerm_def deleteLeaderKey_def updateLeaseExpireTS_def lease_txn_def resumeLeader_def
  campaignLeader_def loadSlaveLogFromMySQL_def loadMasterLogFromMySQL_def uploadLogForElection_def
  uploadLogForElectionAsSlave_def uploadLogForElectionAsFormerMaster_def getAllLogsForElection_def
  uploadPromotionBinlog_def preCampaign_def load_log_def watch_by_log_def preWatch_body_def preWatch_def setIsLeaderToFalse_def
  setIsLeaderToTrue_def loadUUID_def setServiceReadonlyOrShutdown_def forceClose_def

lemma tame_set_log [simp]: "d_readonly (set_log i w) = d_readonly w" "d_log (set_log i w) = d_log w"
  by (simp_all add: set_log_def split: prod.split)

lemma tame_agent:
  "moves tame (NodeStatus_of E i)" "moves tame (Register E)" "moves tame (persistMyTerm E)" "moves tame (getLeaderAndMyTerm E)"
  "moves tame (deleteLeaderKey E)" "moves tame (resumeLeader E)" "moves tame (campaignLeader E)"
  "moves tame (uploadPromotionBinlog E)" "moves tame (preCampaign E b)" "moves tame (preWatch E l)"
  "moves tame setIsLeaderToFalse" "moves tame setIsLeaderToTrue" "moves tame (loadUUID E)" "moves tame (setServiceReadonlyOrShutdown E)"
  unfolding tame_unfold by (intro tame.ro_steps tame_decode_node; simp)+


lemma moves_redirect_loop:
  assumes "exchange_frame R"
  shows "moves R (redirect_loop n E h q err)"
proof -
  note steps = exchange_frame.all_steps [OF assms]
  show ?thesis
  proof (induction n E h q err rule: redirect_loop.induct)
    case (3 n E h q e)
    show ?case unfolding redirect_loop.simps by (intro steps 3)
  qed (simp_all only: redirect_loop.simps steps)
qed

lemma moves_becomeSlave: "exchange_frame R \<Longrightarrow> moves R (becomeSlave E h q)"
  unfolding becomeSlave_def
  by (intro exchange_frame.all_steps moves_redirect_loop) simp_all

lemmas tame_becomeSlave = moves_becomeSlave [OF tame.exchange_frame_axioms]
  and same_agent_becomeSlave = moves_becomeSlave [OF same_agent.exchange_frame_axioms]

lemma setIsLeaderToFalse_off: "setIsLeaderToFalse w = Ret b w' \<Longrightarrow> \<not> amILeader w'"
  by (auto simp: setIsLeaderToFalse_def amILeader_def elim!: andthen_RetE split: if_splits)

lemma tame_doChangeMaster: "ld_name leader \<noteq> e_id E \<Longrightarrow> moves tame (doChangeMaster E leader)"
  unfolding doChangeMaster_def isSameLeader_def by (simp, intro tame.ro_steps tame_agent tame_becomeSlave)

text \<open>
  C12: an agent that turns to another node as its leader never opens its own database on the way: it
  does not send MySQL an opening statement and does not take itself for writable, whatever fails; and once
  it has turned, it does not take itself for the leader any more.
\<close>

theorem follow_keeps_closed:
  assumes "ld_name leader \<noteq> e_id E"
  shows "moves tame (andthen (preWatch E leader) (\<lambda>err. if err \<noteq> None then ret err else doChangeMaster E leader)) \<and>
    (\<forall>w w'. doChangeMaster E leader w = Ret None w' \<longrightarrow> \<not> amILeader w')"
proof (intro conjI allI impI)
  show "moves tame (andthen (preWatch E leader) (\<lambda>err. if err \<noteq> None then ret err else doChangeMaster E leader))"
    by (intro tame.ro_steps tame_agent tame_doChangeMaster assms)
next
  fix w w' assume "doChangeMaster E leader w = Ret None w'"
  then obtain w1 w2 b h q where "setIsLeaderToFalse w1 = Ret b w2" "becomeSlave E h q w2 = Ret None w'"
    using assms by (auto simp: doChangeMaster_def isSameLeader_def elim!: andthen_RetE split: sum.splits)
  then show "\<not> amILeader w'"
    using moves_RetD [OF same_agent_becomeSlave] setIsLeaderToFalse_off by (fastforce simp: amILeader_def same_agent_fields)
qed

text \<open>Whatever promotion does before it opens the database keeps the flag and the role.\<close>

lemma moves_uploadPromotionBinlog: "exchange_frame R \<Longrightarrow> moves R (uploadPromotionBinlog E)"
  unfolding uploadPromotionBinlog_def by (intro exchange_frame.all_steps) simp_all

lemma promote_parts:
  assumes "promoteToMaster E w = Ret r w'"
  obtains w1 where "sm_SetReadWrite (e_sm E) w1 = Ret r w'" "amILeader w1" "d_readonly w1 = d_readonly w"
proof (cases "amILeader w")
  case True
  with assms that show ?thesis by (simp add: promoteToMaster_def)
next
  case False
  with assms obtain a b w2 w3 where p: "sm_PromoteToMaster (e_sm E) (w\<lparr>a_isLeader := 1\<rparr>) = Ret a w2"
    and u: "uploadPromotionBinlog E w2 = Ret b w3" and "sm_SetReadWrite (e_sm E) w3 = Ret r w'"
    by (auto simp: promoteToMaster_def setIsLeaderToTrue_def elim!: andthen_RetE)
  moreover have "same_agent (w\<lparr>a_isLeader := 1\<rparr>) w3"
    by (rule same_agent.trans [OF moves_RetD [OF same_agent.moves_sm(1) p] moves_RetD [OF moves_uploadPromotionBinlog [OF same_agent.exchange_frame_axioms] u]])
  moreover have "same_flag (w\<lparr>a_isLeader := 1\<rparr>) w3"
    by (rule same_flag.trans [OF moves_RetD [OF same_flag.moves_sm(1) p] moves_RetD [OF moves_uploadPromotionBinlog [OF same_flag.exchange_frame_axioms] u]])
  ultimately show ?thesis using that by (simp add: amILeader_def same_agent_fields same_flag_def)
qed

lemma promote_error: "promoteToMaster E w = Ret (Some e) w' \<Longrightarrow> IsReadOnly w' = IsReadOnly w"
  by (erule promote_parts) (auto dest!: svc.setRW_err simp: IsReadOnly_def)

text \<open>
  C20: promotion makes the agent take itself for the leader in any case; if it succeeds the database is
  writable, and if it fails the agent's view of the database is what it was.
\<close>

theorem promote_spec:
  assumes "promoteToMaster E w = Ret r w'"
  shows "amILeader w' \<and> (r = None \<longrightarrow> \<not> IsReadOnly w') \<and> (r \<noteq> None \<longrightarrow> IsReadOnly w' = IsReadOnly w)"
proof -
  from assms obtain w1 where rw: "sm_SetReadWrite (e_sm E) w1 = Ret r w'" and l: "amILeader w1" by (rule promote_parts)
  from moves_RetD [OF same_agent_open.moves_rw(1) rw] l have "amILeader w'" by (simp add: amILeader_def same_agent_fields)
  with rw assms show ?thesis by (cases r) (auto dest: svc.setRW_nil promote_error)
qed

section \<open>Who may follow\<close>

lemma persistMyTerm_same: "moves same_agent (persistMyTerm E)"
  unfolding persistMyTerm_def by (intro same_agent.ro_steps)

lemmas load_repl_term = same_agent_fields(3) [OF moves_RetD [OF same_agent.moves_sm(5)]]
  same_agent_fields(3) [OF moves_RetD [OF same_agent.moves_sm(6)]]

lemma load_log_term: "load_log E leader w = Ret r w' \<Longrightarrow> a_term w' = a_term w"
  by (auto simp: load_log_def loadMasterLogFromMySQL_def loadSlaveLogFromMySQL_def set_log_def load_repl_term
    elim!: andthen_RetE split: if_splits sum.splits prod.splits)

text \<open>
  C11: a node is allowed to follow a leader only if it is new, or is in the leader's term already, or is not
  more than one term behind and its own log ends no later than the log the leader was elected with; it
  then is in the leader's term, except if it was ahead of it.
\<close>

theorem preWatch_allows:
  assumes "preWatch E leader w = Ret None w'"
  defines "T \<equiv> lm_term (ld_meta leader)"
  shows "a_term w' = (if a_term w = 0 \<or> a_term w = T - 1 then T else a_term w) \<and>
    (a_term w = 0 \<or> a_term w = T \<or>
     T - 1 \<le> a_term w \<and> watch_check E leader w' = None \<and>
       (lm_version (ld_meta leader) \<ge> 2 \<longrightarrow> a_lastTxnID w' \<le> lm_lastTxnID (ld_meta leader)))"
proof -
  from assms(1) obtain w1 where b: "preWatch_body E leader w = Ret None w1" and p: "\<exists>x. persistMyTerm E w1 = Ret x w'"
    by (auto simp: preWatch_def elim!: andthen_RetE split: if_splits)
  have s: "same_agent w1 w'" using p moves_RetD [OF persistMyTerm_same] by blast
  have c: "watch_check E leader (x\<lparr>a_term := t\<rparr>) = watch_check E leader x" for x t by (simp add: watch_check_def)
  have cs: "watch_check E leader w' = watch_check E leader w1" using s by (simp add: watch_check_def same_agent_fields)
  have chk: "lm_version (ld_meta leader) \<ge> 2 \<longrightarrow> a_lastTxnID x \<le> lm_lastTxnID (ld_meta leader)"
    if "watch_check E leader x = None" for x
    using that by (auto simp: watch_check_def not_less split: if_splits)
  show ?thesis
  proof (cases "a_term w = 0 \<or> a_term w = T")
    case True
    then have "w1 = (if a_term w = 0 then w\<lparr>a_term := T\<rparr> else w)"
      using b by (auto simp: preWatch_body_def T_def split: if_splits)
    with True s show ?thesis by (auto simp: same_agent_fields)
  next
    case False
    have le: "T - 1 \<le> a_term w"
    proof (rule ccontr)
      assume "\<not> T - 1 \<le> a_term w"
      then have "a_term w < T - 1" by simp
      with False b show "False" by (simp add: preWatch_body_def T_def)
    qed
    have "\<not> a_term w < T - 1" using le by simp
    with False b have "watch_by_log E leader w = Ret None w1" by (simp add: preWatch_body_def T_def)
    then obtain w2 where w2: "load_log E leader w = Ret None w2" "watch_check E leader w2 = None"
      "w1 = (if a_term w2 = T - 1 then w2\<lparr>a_term := T\<rparr> else w2)"
      unfolding watch_by_log_def by (auto simp: T_def elim!: andthen_RetE split: if_splits)
    then have "watch_check E leader w1 = None" by (simp add: c)
    with w2 chk [of w1] s load_log_term [OF w2(1)] cs le False show ?thesis by (simp add: same_agent_fields)
  qed
qed

text \<open>
  a leader record without a term stops a node instead of being followed: the term before it wraps
  around, so that a node in any term of its own but the last is refused before anything is read, and the
  refusal is one that closes the agent.
\<close>

theorem preWatch_term_zero:
  assumes "lm_term (ld_meta leader) = 0" and "a_term w \<noteq> 0" and "a_term w \<noteq> - 1"
  shows "\<exists>m. preWatch E leader w = Ret (Some (ENotValid m)) w"
proof -
  have "a_term w < - 1" using assms(3) by (simp add: word_order.not_eq_extremum)
  with assms show ?thesis by (simp add: preWatch_def preWatch_body_def andthen_def)
qed


section \<open>Examples\<close>

definition ex_leader :: "u64 \<Rightarrow> u64 \<Rightarrow> Leader" where
  "ex_leader t n = \<lparr>ld_name = ''n1'', ld_kv = None, ld_meta = \<lparr>lm_name = ''n1'', lm_term = t, lm_lastUUID = ''u'',
     lm_lastGTID = ''u:1-8'', lm_lastTxnID = n, lm_version = 2\<rparr>, ld_spm = []\<rparr>"

definition ex_follower :: agent where
  "ex_follower = (ex_agent ''n2'' empty_etcd [rpc_ok] [])\<lparr>a_term := 4, a_lastUUID := ''u'', a_lastTxnID := 7\<rparr>"

theorem follow_keeps_closed_witness:
  "moves tame (andthen (preWatch (ex_env ''n2'') (ex_leader 5 9)) (\<lambda>err. if err \<noteq> None then ret err
     else doChangeMaster (ex_env ''n2'') (ex_leader 5 9)))"
  using follow_keeps_closed [of "ex_leader 5 9" "ex_env ''n2''"] by (simp add: ex_leader_def)

theorem promote_spec_witness:
  "\<exists>w. promoteToMaster (ex_env ''n1'') ((ex_agent ''n1'' empty_etcd [] [sql_ok, sql_ok])\<lparr>a_isLeader := 1\<rparr>) = Ret None w \<and> \<not> IsReadOnly w"
proof -
  have "\<exists>w. promoteToMaster (ex_env ''n1'') ((ex_agent ''n1'' empty_etcd [] [sql_ok, sql_ok])\<lparr>a_isLeader := 1\<rparr>) = Ret None w"
    by (simp add: promoteToMaster_def amILeader_def mysqlSM_SetReadWrite_def mysql_SetReadWrite_def db_Exec_def sql_call_def andthen_def
      sql_ok_def store_readonly_def)
  then show ?thesis using promote_spec by blast
qed

theorem preWatch_allows_witness:
  "\<exists>w. preWatch (ex_env ''n2'') (ex_leader 5 9) ex_follower = Ret None w \<and> a_term w = 5 \<and> a_lastTxnID w \<le> 9"
proof -
  have "\<exists>w. preWatch (ex_env ''n2'') (ex_leader 5 9) ex_follower = Ret None w"
    by (simp add: preWatch_def preWatch_body_def watch_by_log_def load_log_def watch_check_def persistMyTerm_def ex_leader_def
      ex_follower_def andthen_def Client_Put_def rpc_call_def rpc_ok_def Let_def)
  then show ?thesis using preWatch_allows [of "ex_env ''n2''" "ex_leader 5 9" ex_follower]
    by (auto simp: ex_leader_def ex_follower_def)
qed

theorem preWatch_term_zero_witness:
  "\<exists>m. preWatch (ex_env ''n2'') (ex_leader 0 9) ex_follower = Ret (Some (ENotValid m)) ex_follower"
  using preWatch_term_zero [of "ex_leader 0 9" ex_follower "ex_env ''n2''"] by (simp add: ex_leader_def ex_follower_def)

end
