(* ===== verification/Agent_Single_Point.thy ===== *)
theory Agent_Single_Point
  imports Agent_Master
begin

text \<open>
  \<open>src/agent/single_point.go\<close>: a node that finds itself alone in its term holds the leader key without a
  lease, and stays writable until another agent registers.
\<close>

section \<open>The leader key without a lease\<close>

definition spm_txn :: "agent_env \<Rightarrow> cmp \<Rightarrow> op list \<Rightarrow> (error + bool) agent_io" where
  "spm_txn E c thenOps =
     andthen (reads a_ctxDone) (\<lambda>d.
     andthen (Client_Txn d [c] thenOps) (\<lambda>r. ret (case r of Inl e \<Rightarrow> Inl e | Inr (ok, _) \<Rightarrow> Inr ok)))"

definition campaignLeaderAsSinglePoint :: "agent_env \<Rightarrow> (error + bool) agent_io" where
  "campaignLeaderAsSinglePoint E =
     andthen (reads id) (\<lambda>s.
     spm_txn E (CmpCreateRevision (fullLeaderPath E) 0)
       (Concatenate [leaderPutOps E s (- 1) (a_term s + 1), myTermPutOps E s True, spmPutOps E]))"

definition resumeLeaderAsSinglePoint :: "agent_env \<Rightarrow> (error + bool) agent_io" where
  "resumeLeaderAsSinglePoint E =
     andthen (reads id) (\<lambda>s.
     spm_txn E (leaderCmp E s)
       (Concatenate [leaderPutOps E s (- 1) (a_term s), myTermPutOps E s False, spmPutOps E]))"

section \<open>Waiting for another agent\<close>

definition pollAllRegisteredAgents :: "agent_env \<Rightarrow> (error + (string \<times> string) list) agent_io" where
  "pollAllRegisteredAgents E = andthen (reads a_ctxDone) (\<lambda>d. Client_PrefixGet (rootPath E) d registryPath)"

text \<open>
  The loop has no end of its own: the bound on its rounds, of which each makes at least one request, is
  what the script of the network can answer.
\<close>

fun slave_loop :: "nat \<Rightarrow> agent_env \<Rightarrow> unit agent_io" where
  "slave_loop 0 E = (\<lambda>w. Wait w)"
| "slave_loop (Suc n) E =
     andthen (spin_all (5 * time_Second) (pollAllRegisteredAgents E)) (\<lambda>allAgents.
     if length allAgents > 1 then
       andthen (time_Sleep (wrap64 (RegisterTTL (e_cfg E) * time_Second))) (\<lambda>_.
       andthen (pollAllRegisteredAgents E) (\<lambda>r. case r of
         Inl _ \<Rightarrow> slave_loop n E
       | Inr again \<Rightarrow>
           if length again > 1 then ret ()
           else andthen (time_Sleep (5 * time_Second)) (\<lambda>_. slave_loop n E)))
     else andthen (time_Sleep (5 * time_Second)) (\<lambda>_. slave_loop n E))"

definition waitUntilSlaveAppears :: "agent_env \<Rightarrow> unit agent_io" where
  "waitUntilSlaveAppears E =
     andthen (time_Sleep (wrap64 (RegisterTTL (e_cfg E) * time_Second))) (\<lambda>_.
     (\<lambda>w. slave_loop (Suc (length (n_script w))) E w))"

definition removeSPMFromEtcd :: "agent_env \<Rightarrow> error option agent_io" where
  "removeSPMFromEtcd E =
     andthen (reads a_ctxDone) (\<lambda>d.
     andthen (Client_Delete (rootPath E) d spmPath False) (\<lambda>r. ret (to_err r)))"

section \<open>The single point master\<close>

definition spm_reign :: "agent_env \<Rightarrow> unit agent_io" where
  "spm_reign E =
     andthen setIsSPMToTrue (\<lambda>_.
     deferred setIsSPMToFalse (
       andthen (waitUntilSlaveAppears E) (\<lambda>_.
       spin_all time_Second (err_io (sm_SetReadOnly (e_sm E))))))"

definition becomeSinglePointMaster :: "agent_env \<Rightarrow> bool \<Rightarrow> unit agent_io" where
  "becomeSinglePointMaster E resume =
     andthen (if resume then setIsLeaderToTrue else ret ()) (\<lambda>_.
     andthen (spin_all (100 * time_Millisecond)
         (if resume then resumeLeaderAsSinglePoint E else campaignLeaderAsSinglePoint E)) (\<lambda>campaignSuccess.
     if \<not> campaignSuccess then ret ()
     else
       deferred (removeSPMFromEtcd E) (
         andthen (promoteToMaster E) (\<lambda>err.
         if err \<noteq> None then andthen (sm_SetReadOnly (e_sm E)) (\<lambda>_. ret ())
         else spm_reign E))))"


section \<open>Who holds the key\<close>

lemma Concatenate3: "Concatenate [a, b, c] = a @ b @ c"
  by (simp add: Concatenate_def)

lemma spm_txn_won:
  assumes "spm_txn E c ops w = Ret (Inr True) w'"
  obtains e rs where "etcd_txn [c] ops e = (Inr (True, rs), n_etcd w')" "net_only w w'"
proof -
  from assms obtain rs where "Client_Txn (a_ctxDone w) [c] ops w = Ret (Inr (True, rs)) w'"
    by (auto simp: spm_txn_def elim!: andthen_RetE split: sum.splits prod.splits)
  then show thesis by (rule Client_Txn_Inr) (rule that)
qed

lemma spm_txn_excluded:
  assumes "\<And>e. P e \<Longrightarrow> \<not> applyCompare e c" and "stable P w"
  shows "stable P (final_world (spm_txn E c ops w))" and "spm_txn E c ops w \<noteq> Ret (Inr True) w'"
proof -
  have "keeps (stable P) (spm_txn E c ops)" unfolding spm_txn_def by (intro hoare failing_txn(1) [OF assms(1)])
  then show "stable P (final_world (spm_txn E c ops w))" using assms(2) by (rule keepsD)
  show "spm_txn E c ops w \<noteq> Ret (Inr True) w'"
    using failing_txn(2) [where P = P, OF assms]
    by (auto simp: spm_txn_def elim!: andthen_RetE split: sum.splits prod.splits)
qed

text \<open>
  C16: the single point master takes the key only when nobody holds it, and resumes it only if the key
  holds its own value; an attempt that may not succeed leaves the key, its value and its lease as it was.
\<close>

theorem single_point_excluded:
  assumes "stable (\<lambda>e. wf_etcd e \<and> etcd_held e (fullLeaderPath E) = Some (v, l)) w"
  shows "(\<forall>w'. campaignLeaderAsSinglePoint E w \<noteq> Ret (Inr True) w') \<and>
    etcd_held (n_etcd (final_world (campaignLeaderAsSinglePoint E w))) (fullLeaderPath E) = Some (v, l) \<and>
    (v \<noteq> a_leaderValue w \<longrightarrow> (\<forall>w'. resumeLeaderAsSinglePoint E w \<noteq> Ret (Inr True) w') \<and>
      etcd_held (n_etcd (final_world (resumeLeaderAsSinglePoint E w))) (fullLeaderPath E) = Some (v, l))"
proof -
  let ?P = "\<lambda>e. wf_etcd e \<and> etcd_held e (fullLeaderPath E) = Some (v, l)"
  have c: "?P e \<Longrightarrow> \<not> applyCompare e (CmpCreateRevision (fullLeaderPath E) 0)" for e
    using create_revision_zero [of e "fullLeaderPath E"] by (auto simp: etcd_value_held)
  have r: "v \<noteq> a_leaderValue w \<Longrightarrow> ?P e \<Longrightarrow> \<not> applyCompare e (leaderCmp E w)" for e
    by (simp add: leaderCmp_value etcd_value_held)
  show ?thesis
    unfolding campaignLeaderAsSinglePoint_def resumeLeaderAsSinglePoint_def reads_andthen id_apply
    using spm_txn_excluded [where P = ?P, OF c assms] spm_txn_excluded [where P = ?P, OF r assms]
    by (auto simp: stable_def)
qed

text \<open>
  C17: a node that wins the campaign of the single point holds the key without a lease, so that it never
  runs out; it is recorded as the single point master, and the term is increased by one.
\<close>

theorem single_point_wins:
  assumes "campaignLeaderAsSinglePoint E w = Ret (Inr True) w'"
  shows "etcd_held (n_etcd w') (fullLeaderPath E) = Some (a_leaderValue w, 0) \<and>
    etcd_value (n_etcd w') (fullPathOf E spmPath) = Some (e_id E) \<and>
    etcd_value (n_etcd w') (fullPathOf E termPath) = Some (show_u64 (a_term w + 1)) \<and>
    etcd_value (n_etcd w') (fullPathOf E (myTermPath E)) = Some (show_u64 (a_term w + 1)) \<and> net_only w w'"
proof -
  let ?ops = "leaderPutOps E w (- 1) (a_term w + 1) @ myTermPutOps E w True @ spmPutOps E"
  from assms have "spm_txn E (CmpCreateRevision (fullLeaderPath E) 0) ?ops w = Ret (Inr True) w'"
    by (simp add: campaignLeaderAsSinglePoint_def Concatenate3)
  then obtain e rs where t: "etcd_txn [CmpCreateRevision (fullLeaderPath E) 0] ?ops e = (Inr (True, rs), n_etcd w')"
    and n: "net_only w w'" by (rule spm_txn_won)
  have "etcd_held (n_etcd w') k = Some (x, l)" if "OpPut k x l \<in> set ?ops" for k x l using etcd_txn_put [OF t that] .
  then show ?thesis using n
    by (simp add: etcd_value_held fullLeaderPath_def leaderPutOps_def myTermPutOps_def spmPutOps_def Let_def) blast
qed

text \<open>
  a single point master that resumes its reign loses its own term: the record of it in the store is
  set to zero, with which a node is taken for a new one that may follow any leader.
\<close>

theorem single_point_resume_term:
  assumes "resumeLeaderAsSinglePoint E w = Ret (Inr True) w'"
  shows "etcd_value (n_etcd w') (fullPathOf E (myTermPath E)) = Some ''0''"
proof -
  let ?ops = "leaderPutOps E w (- 1) (a_term w) @ myTermPutOps E w False @ spmPutOps E"
  from assms have "spm_txn E (leaderCmp E w) ?ops w = Ret (Inr True) w'"
    by (simp add: resumeLeaderAsSinglePoint_def Concatenate3)
  then obtain e rs where t: "etcd_txn [leaderCmp E w] ?ops e = (Inr (True, rs), n_etcd w')" by (rule spm_txn_won)
  have "show_u64 0 = ''0''" by code_simp
  then have "etcd_held (n_etcd w') (fullPathOf E (myTermPath E)) = Some (''0'', 0)"
    by (intro etcd_txn_put [OF t]) (simp add: myTermPutOps_def)
  then show ?thesis by (simp add: etcd_value_held)
qed

section \<open>The end of the reign\<close>

lemma spin_RetD: "spin n d f w = Ret a w' \<Longrightarrow> \<exists>v. f v = Ret (Inr a) w'"
proof (induction n arbitrary: w)
  case (Suc n)
  then show ?case by (auto simp: time_Sleep_def split: outcome.splits sum.splits)
qed simp

lemma readonly_spin: "spin_all d (err_io (sm_SetReadOnly sm)) w = Ret u w' \<Longrightarrow> IsReadOnly w'"
  by (auto simp: spin_all_def err_io_def elim!: andthen_RetE split: option.splits dest!: spin_RetD dest: svc.setRO_nil)

lemma setIsSPMToFalse_off: "setIsSPMToFalse w = Ret b w' \<Longrightarrow> \<not> amISPM w' \<and> d_readonly w' = d_readonly w"
  by (auto simp: setIsSPMToFalse_def amISPM_def elim!: andthen_RetE split: if_splits)

lemma reign_ends: "spm_reign E w = Ret u w' \<Longrightarrow> IsReadOnly w' \<and> \<not> amISPM w'"
  by (auto simp: spm_reign_def IsReadOnly_def elim!: andthen_RetE deferred_RetE dest!: setIsSPMToFalse_off
    dest: readonly_spin [unfolded IsReadOnly_def])


lemma tame_spm:
  "moves tame (campaignLeaderAsSinglePoint E)" "moves tame (resumeLeaderAsSinglePoint E)" "moves tame (removeSPMFromEtcd E)"
  unfolding campaignLeaderAsSinglePoint_def resumeLeaderAsSinglePoint_def removeSPMFromEtcd_def spm_txn_def
  by (intro tame.ro_steps)+

lemma spm_readonly:
  assumes "becomeSinglePointMaster E resume w = Ret u w'" and "IsReadOnly w"
  shows "IsReadOnly w'"
proof -
  let ?c = "if resume then resumeLeaderAsSinglePoint E else campaignLeaderAsSinglePoint E"
  from assms(1) obtain w0 ok w1 where a: "(if resume then setIsLeaderToTrue else ret ()) w = Ret () w0"
    and s: "spin_all (100 * time_Millisecond) ?c w0 = Ret ok w1"
    and r: "(if \<not> ok then ret () else deferred (removeSPMFromEtcd E) (andthen (promoteToMaster E) (\<lambda>err.
         if err \<noteq> None then andthen (sm_SetReadOnly (e_sm E)) (\<lambda>_. ret ()) else spm_reign E))) w1 = Ret u w'"
    by (auto simp: becomeSinglePointMaster_def elim!: andthen_RetE split del: if_split)
  have "moves tame (spin_all (100 * time_Millisecond) ?c)" by (intro tame.ro_steps tame_spm)
  then have "tame w0 w1" using s by (rule moves_RetD)
  moreover have "d_readonly w0 = d_readonly w" using a by (auto simp: setIsLeaderToTrue_def split: if_splits)
  ultimately have w1: "IsReadOnly w1" using assms(2) by (simp add: tame_def IsReadOnly_def)
  show ?thesis
  proof (cases ok)
    case True
    with r obtain err w2 w3 b where p: "promoteToMaster E w1 = Ret err w2"
      and q: "(if err \<noteq> None then andthen (sm_SetReadOnly (e_sm E)) (\<lambda>_. ret ()) else spm_reign E) w2 = Ret u w3"
      and d: "removeSPMFromEtcd E w3 = Ret b w'"
      by (auto elim!: andthen_RetE deferred_RetE split del: if_split)
    have "IsReadOnly w3"
    proof (cases err)
      case None
      with q reign_ends show ?thesis by auto
    next
      case (Some e)
      with promote_error p w1 have "IsReadOnly w2" by simp
      moreover have "moves tame (andthen (sm_SetReadOnly (e_sm E)) (\<lambda>_. ret ()))" by (intro tame.ro_steps)
      ultimately show ?thesis using q Some by (auto dest!: moves_RetD simp: tame_def)
    qed
    with moves_RetD [OF tame_spm(3) d] show ?thesis by (simp add: tame_def)
  qed (use r w1 in simp)
qed


section \<open>The bound of the loop\<close>

lemma slave_loop_mono: "slave_loop n E w = Ret u w' \<Longrightarrow> slave_loop (n + k) E w = Ret u w'"
proof (induction n arbitrary: w)
  case (Suc n)
  then show ?case
    by (auto elim!: andthen_RetE simp: andthen_Ret split: if_splits sum.splits)
qed simp


lemma poll_script:
  assumes "pollAllRegisteredAgents E w = Ret r w'"
  shows "length (n_script w') \<le> length (n_script w)" and "r = Inr x \<Longrightarrow> length (n_script w') < length (n_script w)"
  using assms
  by (auto simp: pollAllRegisteredAgents_def Client_PrefixGet_def rpc_call_def Let_def elim!: andthen_RetE
    split: if_splits list.splits rpc_event.splits rpc_status.splits sum.splits)

lemma spin_script:
  assumes "\<And>v r v'. f v = Ret r v' \<Longrightarrow> length (n_script v') \<le> length (n_script v)"
    and "\<And>v a v'. f v = Ret (Inr a) v' \<Longrightarrow> length (n_script v') < length (n_script v)"
  shows "spin n d f w = Ret a w' \<Longrightarrow> length (n_script w') < length (n_script w)"
proof (induction n arbitrary: w)
  case (Suc n)
  then show ?case
    using assms(1) [of w] assms(2) [of w]
    by (fastforce simp: time_Sleep_def split: outcome.splits sum.splits)
qed simp

lemma poll_spin_script:
  "spin_all d (pollAllRegisteredAgents E) w = Ret a w' \<Longrightarrow> length (n_script w') < length (n_script w)"
  unfolding spin_all_def by (rule spin_script) (auto dest: poll_script)



section \<open>Examples\<close>

lemma spm_txn_runs:
  assumes "\<not> a_ctxDone w" and "n_script w = Rpc id RpcOK a b # rest" and "checkTxnRequest ops"
    and "\<And>k v j. OpPut k v j \<in> set ops \<Longrightarrow> j = 0"
  shows "ret_value (spm_txn E cm ops w) = Some (Inr (applyCompare (n_etcd w) cm))"
proof -
  have "op_lease_ok (n_etcd w) x" if "x \<in> set ops" for x using assms(4) that by (cases x) auto
  then have "list_all (op_lease_ok (n_etcd w)) ops" by (simp add: list_all_iff)
  then show ?thesis
    using assms(1-3) by (simp add: spm_txn_def andthen_def Client_Txn_def rpc_call_def etcd_txn_def split_beta Let_def)
qed

lemma ex_spm_campaign:
  assumes "wf_env (ex_env i)"
  shows "ret_value (campaignLeaderAsSinglePoint (ex_env i) (ex_agent i e (rpc_ok # rpcs) sqls)) =
    Some (Inr (applyCompare e (CmpCreateRevision (fullLeaderPath (ex_env i)) 0)))"
  unfolding campaignLeaderAsSinglePoint_def reads_andthen id_apply Concatenate3
  by (subst spm_txn_runs [OF _ _ checkTxn_campaign(3) [OF assms]])
    (auto simp: rpc_ok_def leaderPutOps_def myTermPutOps_def spmPutOps_def Let_def)

lemma ex_spm_resume:
  assumes "wf_env (ex_env i)"
  shows "ret_value (resumeLeaderAsSinglePoint (ex_env i) (ex_agent i e (rpc_ok # rpcs) sqls)) =
    Some (Inr (etcd_value e (fullLeaderPath (ex_env i)) = Some i))"
  unfolding resumeLeaderAsSinglePoint_def reads_andthen id_apply Concatenate3
  by (subst spm_txn_runs [OF _ _ checkTxn_campaign(3) [OF assms]])
    (auto simp: rpc_ok_def leaderPutOps_def myTermPutOps_def spmPutOps_def Let_def leaderCmp_value simp del: applyCompare.simps)

theorem single_point_excluded_witness:
  "etcd_held (n_etcd (final_world (campaignLeaderAsSinglePoint (ex_env ''n2'') (ex_agent ''n2'' ex_led [rpc_ok] []))))
     (fullLeaderPath (ex_env ''n2'')) = Some (''n1'', 1) \<and>
   etcd_held (n_etcd (final_world (resumeLeaderAsSinglePoint (ex_env ''n2'') (ex_agent ''n2'' ex_led [rpc_ok] []))))
     (fullLeaderPath (ex_env ''n2'')) = Some (''n1'', 1)"
  using single_point_excluded [of "ex_env ''n2''" "''n1''" 1 "ex_agent ''n2'' ex_led [rpc_ok] []"]
  by (simp add: ex_agent_stable ex_led)

theorem single_point_wins_witness:
  "etcd_held (n_etcd (final_world (campaignLeaderAsSinglePoint (ex_env ''n1'') (ex_agent ''n1'' empty_etcd [rpc_ok] []))))
     (fullLeaderPath (ex_env ''n1'')) = Some (''n1'', 0)"
proof -
  have "ret_value (campaignLeaderAsSinglePoint (ex_env ''n1'') (ex_agent ''n1'' empty_etcd [rpc_ok] [])) = Some (Inr True)"
    using ex_spm_campaign [OF ex_env_wf(1)] by (simp add: empty_etcd_def etcd_get_def)
  from single_point_wins [OF ret_value_Some [OF this]] show ?thesis by simp
qed

theorem single_point_resume_term_witness:
  "etcd_value (n_etcd (final_world (resumeLeaderAsSinglePoint (ex_env ''n1'') (ex_agent ''n1'' ex_led [rpc_ok] []))))
     (fullPathOf (ex_env ''n1'') (myTermPath (ex_env ''n1''))) = Some ''0''"
proof -
  have "ret_value (resumeLeaderAsSinglePoint (ex_env ''n1'') (ex_agent ''n1'' ex_led [rpc_ok] [])) = Some (Inr True)"
    using ex_spm_resume [OF ex_env_wf(1)] by (simp add: etcd_value_held ex_led)
  from single_point_resume_term [OF ret_value_Some [OF this]] show ?thesis by simp
qed


definition ex_two :: etcd where
  "ex_two = \<lparr>e_kvs = map (\<lambda>k. \<lparr>kv_key = k, kv_value = ''x'', kv_create = 2, kv_mod = 2, kv_version = 1, kv_lease = 0\<rparr>)
     [''/moha/c1/slave/n1'', ''/moha/c1/slave/n2''], e_rev = 2, e_leases = [], e_next = 1, e_minTTL = 2\<rparr>"

lemma ex_poll: "\<exists>kvs. length kvs = 2 \<and> pollAllRegisteredAgents (ex_env i) ((ex_agent i ex_two (rpc_ok # rpcs) [])\<lparr>n_clock := c\<rparr>) =
    Ret (Inr kvs) ((ex_agent i ex_two rpcs [])\<lparr>n_clock := c + 2\<rparr>)"
proof -
  have k: "KeyWithRootPath ''/moha/c1'' registryPath = ''/moha/c1/slave''" by code_simp
  have "length (collect_kvs ''/moha/c1'' (etcd_range_prefix ex_two ''/moha/c1/slave'') []) = 2" by code_simp
  then show ?thesis
    by (simp add: pollAllRegisteredAgents_def ex_root Client_PrefixGet_def rpc_call_def andthen_def rpc_ok_def range_req_def Let_def k)
      (simp add: ex_agent_def)
qed


end
