(* ===== verification/Agent_Http.thy ===== *)
theory Agent_Http
  imports Agent_Single_Point
begin

text \<open>
  \<open>src/agent/http.go\<close>, the requests an operator can send to an agent, and \<open>Close\<close> of \<open>src/agent/server.go\<close>.
  The handlers run in goroutines of their own; here each is one step of the process.
\<close>

section \<open>Closing the server\<close>

text \<open>Closing the connection pool and shutting down the HTTP server have no state in the model.\<close>

definition Close :: "agent_env \<Rightarrow> unit agent_io" where
  "Close E =
     andthen (reads a_isClosed) (\<lambda>c.
     if c \<noteq> 0 then ret ()
     else
       andthen (updates (\<lambda>w. w\<lparr>a_isClosed := 1\<rparr>)) (\<lambda>_.
       andthen (setServiceReadonlyOrShutdown E) (\<lambda>_.
       andthen (Unregister E) (\<lambda>_.
       andthen (updates (\<lambda>w. w\<lparr>a_ctxDone := True\<rparr>)) (\<lambda>_.
       andthen (deleteLeaderKey E) (\<lambda>_.
       close_chan a_shutdownCh (\<lambda>w. w\<lparr>a_shutdownCh := ClosedChan\<rparr>)))))))"

section \<open>Requests\<close>

datatype http_reply = HttpOK string | HttpTeapot

definition MasterCheck :: "agent_env \<Rightarrow> http_reply agent_io" where
  "MasterCheck E = andthen (reads amILeader) (\<lambda>b. ret (if b then HttpOK ''ok'' else HttpTeapot))"

definition SlaveCheck :: "agent_env \<Rightarrow> http_reply agent_io" where
  "SlaveCheck E = andthen (reads (\<lambda>w. \<not> amILeader w \<or> amISPM w)) (\<lambda>b. ret (if b then HttpOK ''ok'' else HttpTeapot))"

definition nl :: string where
  "nl = [CHR 0x0A]"

definition ChangeMaster :: "agent_env \<Rightarrow> http_reply agent_io" where
  "ChangeMaster E =
     andthen (reads amILeader) (\<lambda>leader.
     if leader then
       andthen (setServiceReadonlyOrShutdown E) (\<lambda>_.
       andthen (deleteLeaderKey E) (\<lambda>_.
       andthen (time_Sleep (500 * time_Millisecond)) (\<lambda>_.
       andthen (close_chan a_leaderStopCh (\<lambda>w. w\<lparr>a_leaderStopCh := ClosedChan\<rparr>)) (\<lambda>_.
       ret (HttpOK (''current node is leader and has given up leader successfully'' @ nl))))))
     else ret (HttpOK (''current node is not leader, change master should be applied on leader'' @ nl)))"

definition SetReadOnly :: "agent_env \<Rightarrow> http_reply agent_io" where
  "SetReadOnly E =
     andthen (reads amILeader) (\<lambda>leader.
     if leader then
       andthen (sm_SetReadOnlyManually (e_sm E)) (\<lambda>(success, err). ret (HttpOK (case err of
         Some e \<Rightarrow> ''set current node readonly fail'' @ nl @ ''error when set current node readonly'' @ error_msg e @ nl
       | None \<Rightarrow> if success then ''set current node readonly success'' @ nl else ''set current node readonly fail'' @ nl)))
     else ret (HttpOK (''set current node readonly fail'' @ nl @ ''current node is not leader, so no need to set readonly'' @ nl)))"

definition SetReadWrite :: "agent_env \<Rightarrow> http_reply agent_io" where
  "SetReadWrite E =
     andthen (reads amILeader) (\<lambda>leader.
     if leader then
       andthen (sm_SetReadWrite (e_sm E)) (\<lambda>err. ret (HttpOK (case err of
         Some e \<Rightarrow> ''set current node readwrite fail'' @ nl @ ''error when set current node readwrite'' @ error_msg e @ nl
       | None \<Rightarrow> ''set current node readwrite success'' @ nl)))
     else ret (HttpOK (''set current node readwrite fail'' @ nl @ ''current node is not leader, so no need to set readwrite'' @ nl)))"

text \<open>The values of the query parameter, and how the whole query prints.\<close>

definition SetOnlyFollow :: "string list option \<Rightarrow> string \<Rightarrow> agent_env \<Rightarrow> http_reply agent_io" where
  "SetOnlyFollow operation query E =
     (case operation of
        Some (o1 # _) \<Rightarrow>
          if o1 = ''true'' then
            andthen (updates (\<lambda>w. w\<lparr>a_onlyFollow := True\<rparr>)) (\<lambda>_. ret (HttpOK ''set onlyFollow to true''))
          else if o1 = ''false'' then
            andthen (updates (\<lambda>w. w\<lparr>a_onlyFollow := False\<rparr>)) (\<lambda>_. ret (HttpOK ''set onlyFollow to false''))
          else ret (HttpOK (''set onlyFollow operation is undefined '' @ o1))
      | _ \<Rightarrow> ret (HttpOK (''has no onlyFollow in query '' @ query @ '' '')))"

definition members_agentStatus :: "agentStatus \<Rightarrow> (string \<times> json) list" where
  "members_agentStatus s =
     [(''id'', JStr (as_ID s)), (''master'', JBool (as_Master s)), (''only_follow'', JBool (as_OnlyFollow s)),
      (''io_thread_ok'', JBool (as_IOThreadOK s)), (''sql_thread_ok'', JBool (as_SQLThreadOK s)), (''readonly'', JBool (as_Readonly s)),
      (''seconds_behind_master'', JNum (show_int (as_SecondsBehindMaster s))), (''term'', JNum (show_u64 (as_Term s))),
      (''single_point_master'', JBool (as_SinglePointMaster s))]"

definition Status :: "agent_env \<Rightarrow> http_reply agent_io" where
  "Status E =
     andthen (reads (getServerStatus E)) (\<lambda>s. ret (HttpOK (print_json (JObj (members_agentStatus s)) @ nl)))"

text \<open>The routes of \<open>initHTTPServer\<close>, with the query of the request.\<close>

definition http_route :: "string \<Rightarrow> string list option \<Rightarrow> string \<Rightarrow> agent_env \<Rightarrow> http_reply agent_io option" where
  "http_route p operation query E =
     map_of [(''/changeMaster'', ChangeMaster E), (''/setReadOnly'', SetReadOnly E), (''/setReadWrite'', SetReadWrite E),
       (''/setOnlyFollow'', SetOnlyFollow operation query E), (''/masterCheck'', MasterCheck E), (''/slaveCheck'', SlaveCheck E),
       (''/status'', Status E)] p"

text \<open>What \<open>url.Parse\<close> makes of the listen address is the argument: an error or the port.\<close>

definition initHTTPServer :: "(string \<Rightarrow> error + string) \<Rightarrow> agent_env \<Rightarrow> error + string" where
  "initHTTPServer url_port E =
     (case url_port (ListenAddr (e_cfg E)) of Inl e \<Rightarrow> Inl e | Inr port \<Rightarrow> Inr ('':'' @ port))"


section \<open>Giving up leadership\<close>

lemma readonly_shutdown: "setServiceReadonlyOrShutdown E w = Ret u w' \<Longrightarrow> IsReadOnly w'"
  unfolding setServiceReadonlyOrShutdown_def forceClose_def by (rule svc.readonly_or_exit)

lemma close_chan_Ret: "close_chan get put w = Ret u w' \<longleftrightarrow> get w = OpenChan \<and> w' = put w"
  by (auto simp: close_chan_def go_panic_def split: chan.splits)

lemma deleteLeaderKey_moves: "db_frame R \<Longrightarrow> moves R (deleteLeaderKey E)"
  unfolding deleteLeaderKey_def by (intro exchange_frame.all_steps) (simp_all add: db_frame_def)

lemma setServiceReadonly_moves: "db_frame R \<Longrightarrow> moves R (setServiceReadonlyOrShutdown E)"
  unfolding setServiceReadonlyOrShutdown_def forceClose_def by (intro db_frame.ro_steps) simp_all

text \<open>
  C13: a leader that is asked to change the master and answers has closed its database before: the agent takes
  it for read-only, MySQL has acknowledged the statements that close it, and the loop that keeps the lease
  alive is told to stop. The node still takes itself for the leader, though.
\<close>

theorem ChangeMaster_hands_over:
  assumes "ChangeMaster E w = Ret r w'" and "amILeader w" and "e_sm E = MysqlSM n u p"
  shows "IsReadOnly w' \<and> log_closed w' \<and> a_leaderStopCh w' = ClosedChan \<and> amILeader w'"
proof -
  from assms(1,2) obtain w1 x w2 where a: "setServiceReadonlyOrShutdown E w = Ret () w1" and d: "deleteLeaderKey E w1 = Ret x w2"
    and w': "w' = w2\<lparr>n_clock := n_clock w2 + 500 * time_Millisecond, a_leaderStopCh := ClosedChan\<rparr>"
    by (auto simp: ChangeMaster_def close_chan_Ret time_Sleep_def time_Millisecond_def elim!: andthen_RetE)
  have "same_agent w w2"
    using same_agent.trans [OF moves_RetD [OF setServiceReadonly_moves [OF same_agent.db_frame_axioms] a]
      moves_RetD [OF deleteLeaderKey_moves [OF same_agent.db_frame_axioms] d]] .
  moreover have "tame w1 w2" using moves_RetD [OF deleteLeaderKey_moves [OF tame.db_frame_axioms] d] .
  moreover have "log_closed w1"
  proof -
    from a obtain v where "mysqlSM_SetReadOnly w = Ret None w1"
      by (auto simp: setServiceReadonlyOrShutdown_def forceClose_def assms(3) elim!: andthen_RetE split: if_splits)
    then show ?thesis by (rule mysql_closing.setRO_closes)
  qed
  ultimately show ?thesis
    using readonly_shutdown [OF a] assms(2) by (simp add: w' tame_def amILeader_def same_agent_fields IsReadOnly_def)
qed

text \<open>
  without a keep-alive loop to stop, as in the single point mode of a node that never held a lease or
  whose loop was stopped before, the request never answers: the node closes its database, gives up the key
  and panics.
\<close>

theorem ChangeMaster_without_loop:
  assumes "amILeader w" and "a_leaderStopCh w \<noteq> OpenChan"
  shows "ChangeMaster E w \<noteq> Ret r w'"
proof
  assume "ChangeMaster E w = Ret r w'"
  with assms(1) obtain w1 x w2 where a: "setServiceReadonlyOrShutdown E w = Ret () w1" and d: "deleteLeaderKey E w1 = Ret x w2"
    and c: "a_leaderStopCh w2 = OpenChan"
    by (auto simp: ChangeMaster_def close_chan_Ret time_Sleep_def elim!: andthen_RetE)
  have "same_agent w w2"
    using same_agent.trans [OF moves_RetD [OF setServiceReadonly_moves [OF same_agent.db_frame_axioms] a]
      moves_RetD [OF deleteLeaderKey_moves [OF same_agent.db_frame_axioms] d]] .
  with c assms(2) show False by (simp add: same_agent_fields)
qed

section \<open>Closing\<close>

lemma delete_canceled: "a_ctxDone w \<Longrightarrow> deleteLeaderKey E w = Ret (Some ECanceled) w"
  by (simp add: deleteLeaderKey_def Client_Txn_def andthen_def)

text \<open>
  Closing twice is closing once.
\<close>

lemma Close_again: "a_isClosed w \<noteq> 0 \<Longrightarrow> Close E w = Ret () w"
  by (simp add: Close_def)

section \<open>Examples\<close>

lemma ex_readonly_runs:
  "d_sql w = sql_ok # sql_ok # q \<Longrightarrow> \<exists>l. mysqlSM_SetReadOnly w = Ret None (w\<lparr>d_sql := q, d_log := l, n_clock := 2 + n_clock w, d_readonly := 1\<rparr>)"
  "d_sql w = sql_ok # sql_ok # q \<Longrightarrow> \<exists>l. mysqlSM_SetReadWrite w = Ret None (w\<lparr>d_sql := q, d_log := l, n_clock := 2 + n_clock w, d_readonly := 0\<rparr>)"
  by (simp_all add: mysqlSM_SetReadOnly_def mysql_SetReadOnly_def mysqlSM_SetReadWrite_def mysql_SetReadWrite_def db_Exec_def sql_call_def
    andthen_def sql_ok_def store_readonly_def) blast+

lemma ex_delete_runs:
  assumes "n_script w = rpc_ok # rest" and "\<not> a_ctxDone w"
  shows "\<exists>x e. deleteLeaderKey E w = Ret x (w\<lparr>n_script := rest, n_clock := 2 + n_clock w, n_etcd := e\<rparr>)"
  using assms by (simp add: deleteLeaderKey_def Client_Txn_def rpc_call_def andthen_def rpc_ok_def Let_def split: sum.split prod.split) blast

lemma ex_ChangeMaster:
  assumes "d_sql w = sql_ok # sql_ok # q" "n_script w = [rpc_ok]" "\<not> a_ctxDone w" "a_isLeader w = 1" "a_leaderStopCh w = OpenChan"
  shows "\<exists>r w'. ChangeMaster (ex_env i) w = Ret r w' \<and> d_sql w' = q \<and> a_leaderStopCh w' = ClosedChan \<and> a_isLeader w' = 1 \<and>
    a_isClosed w' = a_isClosed w"
proof -
  obtain l where ro: "mysqlSM_SetReadOnly w = Ret None (w\<lparr>d_sql := q, d_log := l, n_clock := 2 + n_clock w, d_readonly := 1\<rparr>)" (is "_ = Ret None ?w")
    using ex_readonly_runs(1) [OF assms(1)] by blast
  obtain x e where d: "deleteLeaderKey (ex_env i) ?w = Ret x (?w\<lparr>n_script := [], n_clock := 2 + n_clock ?w, n_etcd := e\<rparr>)"
    using ex_delete_runs [of ?w "[]" "ex_env i"] assms(2,3) by auto
  show ?thesis
    using assms ro d by (simp add: ChangeMaster_def amILeader_def setServiceReadonlyOrShutdown_def andthen_def time_Sleep_def close_chan_def)
qed

theorem ChangeMaster_hands_over_witness:
  "\<exists>r w. ChangeMaster (ex_env ''n1'') ((ex_agent ''n1'' ex_led [rpc_ok] [sql_ok, sql_ok])\<lparr>a_isLeader := 1, a_leaderStopCh := OpenChan\<rparr>) = Ret r w \<and>
     IsReadOnly w \<and> log_closed w"
proof -
  let ?w = "(ex_agent ''n1'' ex_led [rpc_ok] [sql_ok, sql_ok])\<lparr>a_isLeader := 1, a_leaderStopCh := OpenChan\<rparr>"
  obtain r w where c: "ChangeMaster (ex_env ''n1'') ?w = Ret r w" using ex_ChangeMaster [of ?w "[]" "''n1''"] by auto
  then show ?thesis using ChangeMaster_hands_over [OF c] by (auto simp: amILeader_def)
qed

theorem ChangeMaster_without_loop_witness:
  "\<nexists>r w. ChangeMaster (ex_env ''n1'') ((ex_agent ''n1'' ex_led [rpc_ok] [sql_ok, sql_ok])\<lparr>a_isLeader := 1\<rparr>) = Ret r w"
  using ChangeMaster_without_loop [of "(ex_agent ''n1'' ex_led [rpc_ok] [sql_ok, sql_ok])\<lparr>a_isLeader := 1\<rparr>"]
  by (simp add: amILeader_def ex_agent_def)

end
