(* ===== verification/Agent_Server.thy ===== *)
theory Agent_Server
  imports Agent_Http
begin

text \<open>
  The goroutines of \<open>src/agent/server.go\<close>: the loop that writes to the supervisor's event descriptor, the
  heartbeat, the binlog monitor, the loop that keeps the lease alive (\<open>src/agent/leader.go\<close>), the leader loop
  and \<open>Start\<close>. What a goroutine meets while it waits is a list of events; a list that is used up is a
  goroutine that waits for ever.
\<close>

section \<open>The event descriptor\<close>

definition writeFD :: "unit agent_io" where
  "writeFD = updates (\<lambda>w. w\<lparr>a_eventfd := snd (WriteToEventfd 1 (a_eventfd w))\<rparr>)"

definition resetWriteFDLoop :: "unit agent_io" where
  "resetWriteFDLoop =
     andthen (andthen (reads a_fdStopCh) (\<lambda>c.
       if c \<noteq> NilChan then close_chan a_fdStopCh (\<lambda>w. w\<lparr>a_fdStopCh := ClosedChan\<rparr>) else ret ())) (\<lambda>_.
     updates (\<lambda>w. w\<lparr>a_fdStopCh := OpenChan\<rparr>))"

datatype fd_event = FdTick | FdStop

fun fd_loop :: "fd_event list \<Rightarrow> unit agent_io" where
  "fd_loop [] = (\<lambda>w. Wait w)"
| "fd_loop (FdTick # evs) = andthen (time_Sleep time_Second) (\<lambda>_. andthen writeFD (\<lambda>_. fd_loop evs))"
| "fd_loop (FdStop # evs) = andthen (reads a_fdStopCh) (\<lambda>c. if c = ClosedChan then ret () else fd_loop evs)"

definition startWriteFDLoop :: "fd_event list \<Rightarrow> unit agent_io" where
  "startWriteFDLoop evs = andthen resetWriteFDLoop (\<lambda>_. fd_loop evs)"

section \<open>Heartbeat\<close>

definition ready_to_register :: "agent \<Rightarrow> bool" where
  "ready_to_register w \<longleftrightarrow>
     amILeader w \<or> pos_SlaveIORunning (a_latestPos w) \<and> pos_SlaveSQLRunning (a_latestPos w) \<and>
       pos_SecondsBehindMaster (a_latestPos w) < 60"

text \<open>While the loop sleeps the other goroutines change the state of the server.\<close>

fun register_wait :: "(agent \<Rightarrow> agent) list \<Rightarrow> unit agent_io" where
  "register_wait fs = andthen (reads ready_to_register) (\<lambda>b.
     if b then ret ()
     else case fs of
       [] \<Rightarrow> (\<lambda>w. Wait w)
     | f # rest \<Rightarrow> andthen (time_Sleep time_Second) (\<lambda>_. andthen (updates f) (\<lambda>_. register_wait rest)))"

declare register_wait.simps [simp del]

definition startHeartbeatLoop :: "agent_env \<Rightarrow> (agent \<Rightarrow> agent) list \<Rightarrow> hb_event list \<Rightarrow> error list agent_io" where
  "startHeartbeatLoop E fs evs =
     andthen (register_wait fs) (\<lambda>_.
     andthen (spin_all time_Second (err_io (Register E))) (\<lambda>_.
     Heartbeat E evs))"

section \<open>The binlog monitor\<close>

text \<open>A function whose deferred call recovers from a panic: it always returns through that call.\<close>

definition recovering :: "('w, unit) io \<Rightarrow> ('w, unit) io \<Rightarrow> ('w, unit) io" where
  "recovering d m = (\<lambda>w. case m w of
       Ret a w' \<Rightarrow> d w'
     | Panic w' \<Rightarrow> d w'
     | Exit c w' \<Rightarrow> Exit c w'
     | Wait w' \<Rightarrow> Wait w')"

definition fetchBinlogInterval :: int where
  "fetchBinlogInterval = time_Second"

text \<open>Each event is what the others do before the monitor runs on, and whether it takes the timer.\<close>

fun binlog_loop :: "agent_env \<Rightarrow> ((agent \<Rightarrow> agent) \<times> bool) list \<Rightarrow> unit agent_io" where
  "binlog_loop E [] = (\<lambda>w. Wait w)"
| "binlog_loop E ((f, timer) # evs) =
     andthen (updates f) (\<lambda>_.
     if timer then
       andthen (time_Sleep fetchBinlogInterval) (\<lambda>_.
       andthen (DoWithRetry (updateBinlogPos E) 0 (go_div fetchBinlogInterval 2)) (\<lambda>_. binlog_loop E evs))
     else andthen (reads a_ctxDone) (\<lambda>d. if d then ret () else binlog_loop E evs))"

definition startBinlogMonitorLoop :: "agent_env \<Rightarrow> ((agent \<Rightarrow> agent) \<times> bool) list \<Rightarrow> unit agent_io" where
  "startBinlogMonitorLoop E evs = recovering (Close E) (binlog_loop E evs)"

section \<open>Keeping the lease\<close>

text \<open>
  While a leader keeps its lease, the ticker fires, the lease monitor wakes up, requests are served and the
  process is asked to close; \<open>ReignEnd\<close> is the moment its loop takes the closed channel or the
  finished context. The time passed since the event before comes with each.
\<close>

datatype reign_event =
    ReignTick nat
  | ReignMonitor nat
  | ReignChangeMaster nat
  | ReignSetReadOnly nat
  | ReignSetReadWrite nat
  | ReignClose nat
  | ReignEnd nat

definition keepalive_tick :: "agent_env \<Rightarrow> int \<Rightarrow> unit agent_io" where
  "keepalive_tick E leaderLeaseID =
     andthen (reads a_ctxDone) (\<lambda>d.
     andthen (spin_all (100 * time_Millisecond) (Lease_KeepAliveOnce d leaderLeaseID)) (\<lambda>_.
     updateLeaseExpireTS E))"

definition keepalive_end :: "agent_env \<Rightarrow> unit agent_io" where
  "keepalive_end E = andthen (reads a_isClosed) (\<lambda>c. if c \<noteq> 1 then setServiceReadonlyOrShutdown E else ret ())"

definition told_to_stop :: "agent \<Rightarrow> bool" where
  "told_to_stop w \<longleftrightarrow> a_leaderStopCh w = ClosedChan \<or> a_ctxDone w"

text \<open>The HTTP server recovers from a panic of a handler.\<close>

definition served :: "http_reply agent_io \<Rightarrow> unit agent_io" where
  "served m = recovering (ret ()) (andthen m (\<lambda>_. ret ()))"

fun reign_step :: "agent_env \<Rightarrow> int \<Rightarrow> reign_event \<Rightarrow> unit agent_io" where
  "reign_step E i (ReignTick d) = andthen (time_Sleep (int d)) (\<lambda>_. keepalive_tick E i)"
| "reign_step E i (ReignMonitor d) = andthen (time_Sleep (int d)) (\<lambda>_. andthen monitor_check (\<lambda>_. ret ()))"
| "reign_step E i (ReignChangeMaster d) = andthen (time_Sleep (int d)) (\<lambda>_. served (ChangeMaster E))"
| "reign_step E i (ReignSetReadOnly d) = andthen (time_Sleep (int d)) (\<lambda>_. served (SetReadOnly E))"
| "reign_step E i (ReignSetReadWrite d) = andthen (time_Sleep (int d)) (\<lambda>_. served (SetReadWrite E))"
| "reign_step E i (ReignClose d) = andthen (time_Sleep (int d)) (\<lambda>_. Close E)"
| "reign_step E i (ReignEnd d) = time_Sleep (int d)"

text \<open>The loop over some events; the result is whether it has ended.\<close>

fun keepalive_some :: "agent_env \<Rightarrow> int \<Rightarrow> reign_event list \<Rightarrow> bool agent_io" where
  "keepalive_some E i [] = ret False"
| "keepalive_some E i (ev # evs) =
     andthen (reign_step E i ev) (\<lambda>_.
     andthen (reads told_to_stop) (\<lambda>stop.
     if stop \<and> (case ev of ReignEnd _ \<Rightarrow> True | _ \<Rightarrow> False) then andthen (keepalive_end E) (\<lambda>_. ret True)
     else keepalive_some E i evs))"

definition keepLeaderAliveLoop :: "agent_env \<Rightarrow> int \<Rightarrow> reign_event list \<Rightarrow> unit agent_io" where
  "keepLeaderAliveLoop E i evs =
     andthen (keepalive_some E i evs) (\<lambda>finished. if finished then ret () else (\<lambda>w. Wait w))"

section \<open>The leader loop\<close>

datatype loop_next = Again | Stop

definition make_leaderStopCh :: "unit agent_io" where
  "make_leaderStopCh = updates (\<lambda>w. w\<lparr>a_leaderStopCh := OpenChan\<rparr>)"

text \<open>
  The loop runs on beside the goroutine that keeps the lease: \<open>early\<close> is what happens before it opens the
  database, \<open>late\<close> what happens while it waits for that goroutine. A goroutine told to stop by the loop
  ends before the loop goes on.
\<close>

definition stop_keepalive :: "agent_env \<Rightarrow> bool \<Rightarrow> unit agent_io" where
  "stop_keepalive E ended =
     andthen (close_chan a_leaderStopCh (\<lambda>w. w\<lparr>a_leaderStopCh := ClosedChan\<rparr>)) (\<lambda>_.
     if ended then ret () else keepalive_end E)"

definition await_keepalive :: "agent_env \<Rightarrow> int \<Rightarrow> bool \<Rightarrow> reign_event list \<Rightarrow> loop_next agent_io" where
  "await_keepalive E i ended late =
     andthen (if ended then ret () else keepLeaderAliveLoop E i late) (\<lambda>_. ret Again)"

definition open_resumed :: "agent_env \<Rightarrow> error option agent_io" where
  "open_resumed E = andthen setIsLeaderToTrue (\<lambda>_. sm_SetReadWrite (e_sm E))"

definition lead_resumed :: "agent_env \<Rightarrow> int \<Rightarrow> reign_event list \<Rightarrow> reign_event list \<Rightarrow> loop_next agent_io" where
  "lead_resumed E i early late =
     andthen make_leaderStopCh (\<lambda>_.
     andthen (keepalive_some E i early) (\<lambda>ended.
     andthen (open_resumed E) (\<lambda>err.
     if err \<noteq> None then
       andthen (sm_SetReadOnly (e_sm E)) (\<lambda>_.
       andthen (stop_keepalive E ended) (\<lambda>_. ret Again))
     else await_keepalive E i ended late)))"

definition resume_iter :: "agent_env \<Rightarrow> Leader \<Rightarrow> reign_event list \<Rightarrow> reign_event list \<Rightarrow> loop_next agent_io" where
  "resume_iter E leader early late =
     andthen (updates (\<lambda>w. w\<lparr>a_term := lm_term (ld_meta leader), a_lastGTID := lm_lastGTID (ld_meta leader),
       a_lastUUID := lm_lastUUID (ld_meta leader), a_lastTxnID := lm_lastTxnID (ld_meta leader)\<rparr>)) (\<lambda>_.
     if ld_spm leader = e_id E then andthen (becomeSinglePointMaster E True) (\<lambda>_. ret Again)
     else
       andthen (resumeLeader E) (\<lambda>r. case r of
         Inl e \<Rightarrow> andthen (time_Sleep (200 * time_Millisecond)) (\<lambda>_. ret Again)
       | Inr None \<Rightarrow> ret Again
       | Inr (Some i) \<Rightarrow> lead_resumed E i early late))"

definition follow_iter :: "agent_env \<Rightarrow> Leader \<Rightarrow> loop_next agent_io" where
  "follow_iter E leader =
     andthen (preWatch E leader) (\<lambda>err.
     if err \<noteq> None then andthen (Close E) (\<lambda>_. ret Stop)
     else
       andthen (doChangeMaster E leader) (\<lambda>err.
       if err \<noteq> None then andthen (time_Sleep (100 * time_Millisecond)) (\<lambda>_. ret Again)
       else
         (case ld_kv leader of
            None \<Rightarrow> go_panic
          | Some x \<Rightarrow>
              andthen (watchLeader (kv_mod x)) (\<lambda>err.
              andthen (if err \<noteq> None then watchLeader 0 else ret None) (\<lambda>_. ret Again)))))"

definition lead_elected :: "agent_env \<Rightarrow> int \<Rightarrow> reign_event list \<Rightarrow> reign_event list \<Rightarrow> loop_next agent_io" where
  "lead_elected E i early late =
     andthen (updateLeaseExpireTS E) (\<lambda>_.
     andthen (updates (\<lambda>w. w\<lparr>a_term := a_term w + 1\<rparr>)) (\<lambda>_.
     andthen make_leaderStopCh (\<lambda>_.
     andthen (keepalive_some E i early) (\<lambda>ended.
     andthen (promoteToMaster E) (\<lambda>err.
     if err \<noteq> None then
       andthen (setServiceReadonlyOrShutdown E) (\<lambda>_.
       andthen (stop_keepalive E ended) (\<lambda>_.
       andthen (time_Sleep (100 * time_Millisecond)) (\<lambda>_. ret Again)))
     else await_keepalive E i ended late)))))"

definition campaign_iter :: "agent_env \<Rightarrow> Leader \<Rightarrow> reign_event list \<Rightarrow> reign_event list \<Rightarrow> loop_next agent_io" where
  "campaign_iter E leader early late =
     andthen (reads (isOnlyFollow E)) (\<lambda>only.
     if only then andthen (time_Sleep time_Second) (\<lambda>_. ret Again)
     else
       andthen (if lm_term (ld_meta leader) \<noteq> 0 then andthen (reads (isPreviousMaster E leader)) (preCampaign E) else ret False)
         (\<lambda>isSinglePoint.
       if isSinglePoint then andthen (becomeSinglePointMaster E False) (\<lambda>_. ret Again)
       else
         andthen (campaignLeader E) (\<lambda>r. case r of
           Inl e \<Rightarrow> andthen (deleteLeaderKey E) (\<lambda>_. ret Again)
         | Inr None \<Rightarrow> ret Again
         | Inr (Some i) \<Rightarrow> lead_elected E i early late)))"

definition leader_unread :: "agent_env \<Rightarrow> error \<Rightarrow> loop_next agent_io" where
  "leader_unread E e =
     andthen (reads a_isClosed) (\<lambda>c.
     if c = 1 then ret Stop
     else
       andthen (case e of ENotValid _ \<Rightarrow> Close E | _ \<Rightarrow> ret ()) (\<lambda>_.
       andthen (time_Sleep (200 * time_Millisecond)) (\<lambda>_. ret Again)))"

definition leader_iter :: "agent_env \<Rightarrow> reign_event list \<Rightarrow> reign_event list \<Rightarrow> loop_next agent_io" where
  "leader_iter E early late =
     andthen (getLeaderAndMyTerm E) (\<lambda>r. case r of
       Inl e \<Rightarrow> leader_unread E e
     | Inr (leader, myTerm) \<Rightarrow>
         andthen (updates (\<lambda>w. w\<lparr>a_term := myTerm\<rparr>)) (\<lambda>_.
         if ld_name leader \<noteq> [] then
           if isSameLeader E (ld_name leader) then resume_iter E leader early late
           else follow_iter E leader
         else campaign_iter E leader early late))"

fun leader_iters :: "agent_env \<Rightarrow> (reign_event list \<times> reign_event list) list \<Rightarrow> unit agent_io" where
  "leader_iters E [] = (\<lambda>w. Wait w)"
| "leader_iters E ((early, late) # rest) =
     andthen (leader_iter E early late) (\<lambda>next. case next of Stop \<Rightarrow> ret () | Again \<Rightarrow> leader_iters E rest)"

definition leaderLoop :: "agent_env \<Rightarrow> (reign_event list \<times> reign_event list) list \<Rightarrow> unit agent_io" where
  "leaderLoop E rounds = recovering (Close E) (leader_iters E rounds)"

section \<open>Starting\<close>

text \<open>Dialling a port and forking a process are exchanges with the operating system.\<close>

definition isPortAlive :: "string \<Rightarrow> string \<Rightarrow> bool agent_io" where
  "isPortAlive host port = andthen (run_command [''dial'', host, port]) (\<lambda>e. ret (e = None))"

definition DoubleForkAndExecute :: "int \<Rightarrow> string \<Rightarrow> error option agent_io" where
  "DoubleForkAndExecute fd cfgFile =
     run_command [''/agent/mysql-agent-service-boot'', show_int fd, ''-config='' @ cfgFile]"

text \<open>
  Polling the port until it is alive or the deadline has passed; each round dials once, so that the script of
  the operating system bounds the rounds.
\<close>

fun waitUtilPortAlive :: "nat \<Rightarrow> string \<Rightarrow> string \<Rightarrow> int \<Rightarrow> bool agent_io" where
  "waitUtilPortAlive 0 host port deadline = (\<lambda>w. Wait w)"
| "waitUtilPortAlive (Suc n) host port deadline =
     andthen (isPortAlive host port) (\<lambda>alive.
     andthen (reads n_clock) (\<lambda>t.
     if t \<ge> deadline then ret False
     else if alive then ret True
     else andthen (time_Sleep (100 * time_Millisecond)) (\<lambda>_. waitUtilPortAlive n host port deadline)))"

definition start_service :: "agent_env \<Rightarrow> error option agent_io" where
  "start_service E =
     (let host = db_Host (DBConfig (e_cfg E)); port = show_int (db_Port (DBConfig (e_cfg E))) in
      andthen (isPortAlive host port) (\<lambda>alive.
      if alive then ret None
      else
        andthen (DoubleForkAndExecute (cfg_fd (e_cfg E)) (configFile (e_cfg E))) (\<lambda>err.
        if err \<noteq> None then ret err
        else
          andthen (\<lambda>w. waitUtilPortAlive (Suc (length (d_cmds w))) host port
            (n_clock w + wrap64 (ForkProcessWaitSecond (e_cfg E) * time_Second)) w) (\<lambda>up.
          ret (if up then None else Some (EMsg ''cannot start mysql, timeout''))))))"

text \<open>An unknown service type leaves the service manager nil, and its first use panics.\<close>

definition new_service_manager :: "(string \<Rightarrow> error option) \<Rightarrow> agent_env \<Rightarrow> (error + service_manager) agent_io" where
  "new_service_manager sql_open E =
     (let ty = (if ServiceType (e_cfg E) = [] then ''mysql'' else ServiceType (e_cfg E));
          timeout = wrap64 (ForkProcessWaitSecond (e_cfg E) * time_Second) in
      if ty = ''mysql'' then NewMySQLServiceManager sql_open (DBConfig (e_cfg E)) timeout
      else if ty = ''postgresql'' then
        andthen (NewPostgreSQLServiceManager sql_open (DBConfig (e_cfg E)) timeout) (\<lambda>r. ret (case r of
          Inr (PgSM u p _) \<Rightarrow> Inr (PgSM u p (e_id E))
        | _ \<Rightarrow> r))
      else go_panic)"

text \<open>What \<open>Start\<close> does before it starts the goroutines that talk to etcd.\<close>

definition start_init :: "(string \<Rightarrow> error + string) \<Rightarrow> (string \<Rightarrow> error option) \<Rightarrow> agent_env \<Rightarrow> (error + agent_env) agent_io" where
  "start_init url_port sql_open E =
     andthen (updates (\<lambda>w. w\<lparr>a_isClosed := 0, a_leaderValue := e_id E\<rparr>)) (\<lambda>_.
     case initHTTPServer url_port E of
       Inl e \<Rightarrow> ret (Inl e)
     | Inr _ \<Rightarrow>
         andthen (start_service E) (\<lambda>err. case err of
           Some e \<Rightarrow> ret (Inl e)
         | None \<Rightarrow>
             andthen (new_service_manager sql_open E) (\<lambda>r. case r of
               Inl e \<Rightarrow> ret (Inl e)
             | Inr sm \<Rightarrow>
                 andthen (spin_all (100 * time_Millisecond) (err_io (sm_SetReadOnly sm))) (\<lambda>_.
                 andthen (loadUUID (E\<lparr>e_sm := sm\<rparr>)) (\<lambda>_.
                 ret (Inr (E\<lparr>e_sm := sm\<rparr>)))))))"

text \<open>The whole start, with the leader loop as the goroutine that runs.\<close>

definition Start :: "(string \<Rightarrow> error + string) \<Rightarrow> (string \<Rightarrow> error option) \<Rightarrow> agent_env \<Rightarrow>
    (reign_event list \<times> reign_event list) list \<Rightarrow> error option agent_io" where
  "Start url_port sql_open E rounds =
     andthen (start_init url_port sql_open E) (\<lambda>r. case r of
       Inl e \<Rightarrow> ret (Some e)
     | Inr E' \<Rightarrow>
         andthen writeFD (\<lambda>_.
         andthen (leaderLoop E' rounds) (\<lambda>_.
         andthen (reads a_shutdownCh) (\<lambda>c. if c = ClosedChan then ret None else (\<lambda>w. Wait w)))))"

section \<open>The head of the leader loop\<close>

lemma tame_watch: "tame w (final_world (watchLeader r w))"
proof (induction r w rule: watchLeader.induct)
  case (1 r w)
  then show ?case
    by (subst watchLeader.simps) (auto split: list.split watch_resp.split simp: tame_def IsReadOnly_def)
qed

lemma tame_Close: "moves tame (Close E)"
  unfolding Close_def Unregister_def UnregisterNode_def by (intro tame.ro_steps tame_agent tame_close_chan; simp)

lemma tame_follow: "ld_name leader \<noteq> e_id E \<Longrightarrow> moves tame (follow_iter E leader)"
proof -
  have w: "moves tame (watchLeader r)" for r using tame_watch by (simp add: moves_def)
  assume "ld_name leader \<noteq> e_id E"
  then show ?thesis
    unfolding follow_iter_def by (intro tame.ro_steps tame_agent tame_doChangeMaster tame_Close w)
qed

lemma tame_unread: "moves tame (leader_unread E e)"
  unfolding leader_unread_def by (intro tame.ro_steps) (cases e; simp add: tame.ro_steps tame_Close)

text \<open>What only renews the lease, or looks at it, changes neither the database nor who is closed.\<close>

fun lease_work :: "reign_event \<Rightarrow> bool" where
  "lease_work (ReignTick d) = True"
| "lease_work (ReignMonitor d) = True"
| "lease_work ev = False"

fun by_operator :: "reign_event \<Rightarrow> bool" where
  "by_operator (ReignSetReadOnly d) = True"
| "by_operator (ReignSetReadWrite d) = True"
| "by_operator ev = False"

fun is_close :: "reign_event \<Rightarrow> bool" where
  "is_close (ReignClose d) = True"
| "is_close ev = False"

definition same_closed :: "agent \<Rightarrow> agent \<Rightarrow> bool" where
  "same_closed w w' \<longleftrightarrow> a_isClosed w' = a_isClosed w"

interpretation same_closed: db_frame same_closed
  by unfold_locales (auto simp: same_closed_def)

definition same_mode :: "agent \<Rightarrow> agent \<Rightarrow> bool" where
  "same_mode w w' \<longleftrightarrow> a_isClosed w' = a_isClosed w \<and> d_readonly w' = d_readonly w"

interpretation same_mode: exchange_frame same_mode
  by unfold_locales (auto simp: same_mode_def)

lemma lease_work_mode: "lease_work ev \<Longrightarrow> moves same_mode (reign_step E i ev)"
  by (cases ev; simp; unfold keepalive_tick_def monitor_check_def forceClose_def updateLeaseExpireTS_def Let_def;
    intro same_mode.all_steps; simp add: same_mode_def)

lemma served_moves:
  assumes "frame R" and "moves R m"
  shows "moves R (served m)"
  unfolding moves_def
proof
  fix w show "R w (final_world (served m w))"
    using movesD [OF assms(2), of w] by (cases "m w") (simp_all add: served_def recovering_def andthen_def)
qed

lemma db_frameD: "db_frame R \<Longrightarrow> exchange_frame R" "db_frame R \<Longrightarrow> frame R"
  by (simp_all add: db_frame_def exchange_frame_def local_frame_def)

lemma ChangeMaster_moves:
  assumes R: "db_frame R" and c: "\<And>w. R w (w\<lparr>a_leaderStopCh := ClosedChan\<rparr>)"
  shows "moves R (ChangeMaster E)"
proof -
  have "moves R (close_chan a_leaderStopCh (\<lambda>w. w\<lparr>a_leaderStopCh := ClosedChan\<rparr>))"
    unfolding close_chan_def
    by (intro exchange_frame.all_steps [OF db_frameD(1) [OF R]])
      (simp split: chan.split add: exchange_frame.all_steps [OF db_frameD(1) [OF R]] c)
  then show ?thesis
    unfolding ChangeMaster_def
    by (intro exchange_frame.all_steps [OF db_frameD(1) [OF R]] setServiceReadonly_moves deleteLeaderKey_moves R)
qed

lemma tick_moves:
  assumes R: "exchange_frame R" and c: "\<And>w t. R w (w\<lparr>a_leaseExpireTS := t\<rparr>)"
  shows "moves R (keepalive_tick E i)" "moves R monitor_check"
  unfolding keepalive_tick_def monitor_check_def forceClose_def updateLeaseExpireTS_def Let_def
  by (intro exchange_frame.all_steps [OF R] c)+

lemma reign_tame: "\<not> by_operator ev \<Longrightarrow> moves tame (reign_step E i ev)"
  by (cases ev; simp; intro tame.ro_steps tame_Close served_moves ChangeMaster_moves tick_moves
      tame.frame_axioms tame.db_frame_axioms tame.exchange_frame_axioms; simp)

lemma handlers_same_closed: "moves same_closed (SetReadOnly E)" "moves same_closed (SetReadWrite E)"
proof -
  have k: "moves same_agent m \<Longrightarrow> moves same_closed m" for m :: "'a agent_io"
    by (simp add: moves_def same_closed_def same_agent_fields)
  show "moves same_closed (SetReadOnly E)" "moves same_closed (SetReadWrite E)"
    unfolding SetReadOnly_def SetReadWrite_def by (intro k same_agent.ro_steps same_agent_open.moves_rw)+
qed

lemma reign_same_closed: "\<not> is_close ev \<Longrightarrow> moves same_closed (reign_step E i ev)"
  by (cases ev; simp; intro same_closed.ro_steps served_moves ChangeMaster_moves tick_moves handlers_same_closed
      same_closed.frame_axioms same_closed.db_frame_axioms same_closed.exchange_frame_axioms; simp add: same_closed_def)

lemma Close_readonly:
  assumes "Close E w = Ret u w'" and "a_isClosed w = 0"
  shows "IsReadOnly w'"
proof -
  let ?rest = "andthen (Unregister E) (\<lambda>_. andthen (updates (\<lambda>w. w\<lparr>a_ctxDone := True\<rparr>)) (\<lambda>_. andthen (deleteLeaderKey E) (\<lambda>_.
     close_chan a_shutdownCh (\<lambda>w. w\<lparr>a_shutdownCh := ClosedChan\<rparr>))))"
  from assms have "andthen (setServiceReadonlyOrShutdown E) (\<lambda>_. ?rest) (w\<lparr>a_isClosed := 1\<rparr>) = Ret u w'"
    by (simp add: Close_def)
  then show ?thesis
  proof (rule andthen_RetE)
    fix a w1 assume s: "setServiceReadonlyOrShutdown E (w\<lparr>a_isClosed := 1\<rparr>) = Ret a w1" and r: "?rest w1 = Ret u w'"
    have "moves tame ?rest"
      unfolding Unregister_def UnregisterNode_def by (intro tame.ro_steps tame_agent tame_close_chan; simp)
    from moves_RetD [OF this r] readonly_shutdown [OF s] show ?thesis by (simp add: tame_def)
  qed
qed

lemma keepalive_end_readonly:
  "keepalive_end E w = Ret u w' \<Longrightarrow> a_isClosed w \<noteq> 1 \<or> IsReadOnly w \<Longrightarrow> IsReadOnly w'"
  by (auto simp: keepalive_end_def dest: readonly_shutdown split: if_splits)

text \<open>
  A reign that ends leaves the database closed, unless an operator opens it again after the server was closed.
\<close>

definition no_reopening :: "reign_event list \<Rightarrow> agent \<Rightarrow> bool" where
  "no_reopening evs w \<longleftrightarrow>
     list_all (\<lambda>ev. \<not> is_close ev) evs \<and> a_isClosed w = 0 \<or>
     list_all (\<lambda>ev. \<not> by_operator ev) evs \<and> (a_isClosed w = 0 \<or> IsReadOnly w)"

lemma no_reopening_step:
  assumes n: "no_reopening (ev # evs) w" and s: "reign_step E i ev w = Ret u w'"
  shows "no_reopening evs w'"
proof (cases "is_close ev")
  case False
  have "a_isClosed w' = a_isClosed w"
    using moves_RetD [OF reign_same_closed [OF False] s] by (simp add: same_closed_def)
  moreover have "\<not> by_operator ev \<Longrightarrow> IsReadOnly w \<longrightarrow> IsReadOnly w'"
    using moves_RetD [OF reign_tame s] by (simp add: tame_def)
  ultimately show ?thesis using n by (auto simp: no_reopening_def)
next
  case True
  then obtain d where ev: "ev = ReignClose d" by (cases ev) auto
  then obtain v where v: "v = w\<lparr>n_clock := n_clock w + max 0 (int d)\<rparr>" "Close E v = Ret u w'"
    using s by (auto simp: time_Sleep_def)
  have "IsReadOnly w'"
  proof (cases "a_isClosed w = 0")
    case True
    then show ?thesis using Close_readonly [OF v(2)] v(1) by simp
  next
    case False
    then have "IsReadOnly v" using n ev v(1) by (auto simp: no_reopening_def IsReadOnly_def)
    then show ?thesis using moves_RetD [OF tame_Close v(2)] by (simp add: tame_def)
  qed
  then show ?thesis using n ev by (auto simp: no_reopening_def)
qed

lemma keepalive_closing:
  "keepalive_some E i evs w = Ret True w' \<Longrightarrow> no_reopening evs w \<Longrightarrow> IsReadOnly w'"
proof (induction evs arbitrary: w)
  case (Cons ev evs)
  from Cons.prems(1) obtain w1 where s: "reign_step E i ev w = Ret () w1"
    and r: "(if told_to_stop w1 \<and> (case ev of ReignEnd _ \<Rightarrow> True | _ \<Rightarrow> False) then andthen (keepalive_end E) (\<lambda>_. ret True)
       else keepalive_some E i evs) w1 = Ret True w'"
    by (auto elim!: andthen_RetE split del: if_split)
  note n = no_reopening_step [OF Cons.prems(2) s]
  then have "a_isClosed w1 \<noteq> 1 \<or> IsReadOnly w1" by (auto simp: no_reopening_def)
  then show ?case
    using r Cons.IH [OF _ n] by (auto elim!: andthen_RetE dest: keepalive_end_readonly split: if_splits)
qed simp

lemma keepalive_lease:
  "keepalive_some E i evs w = Ret b w' \<Longrightarrow> list_all lease_work evs \<Longrightarrow> same_mode w w' \<and> \<not> b"
proof (induction evs arbitrary: w)
  case (Cons ev evs)
  from Cons.prems(1) obtain w1 where s: "reign_step E i ev w = Ret () w1"
    and *: "(if told_to_stop w1 \<and> (case ev of ReignEnd _ \<Rightarrow> True | _ \<Rightarrow> False) then andthen (keepalive_end E) (\<lambda>_. ret True)
       else keepalive_some E i evs) w1 = Ret b w'"
    by (auto elim!: andthen_RetE split del: if_split)
  have r: "keepalive_some E i evs w1 = Ret b w'" using * Cons.prems(2) by (cases ev) auto
  from Cons.prems(2) moves_RetD [OF lease_work_mode s] Cons.IH [OF r] show ?case
    by (auto intro: same_mode.trans)
qed (simp add: same_mode.refl)

lemma same_closed_agent: "moves same_agent m \<Longrightarrow> moves same_closed m"
  by (simp add: moves_def same_closed_def same_agent_fields)

lemma same_closed_leading:
  "moves same_closed (resumeLeader E)" "moves same_closed (campaignLeader E)" "moves same_closed (getLeaderAndMyTerm E)"
  "moves same_closed (promoteToMaster E)" "moves same_closed (preCampaign E b)"
  unfolding tame_unfold promoteToMaster_def
  by (intro same_closed.ro_steps same_closed_agent [OF same_agent_open.moves_rw(1)]; simp add: same_closed_def set_log_def split: prod.split)+

lemma tame_stop_keepalive: "moves tame (stop_keepalive E b)"
  unfolding stop_keepalive_def keepalive_end_def by (intro tame.ro_steps tame_close_chan tame_agent; simp)

definition no_reopen :: "reign_event list \<Rightarrow> bool" where
  "no_reopen evs \<longleftrightarrow> list_all (\<lambda>ev. \<not> is_close ev) evs \<or> list_all (\<lambda>ev. \<not> by_operator ev) evs"

lemma await_readonly:
  assumes "await_keepalive E i False late w = Ret n w'" and "a_isClosed w = 0" and "no_reopen late"
  shows "IsReadOnly w' \<and> n = Again"
proof -
  from assms(1) have "keepalive_some E i late w = Ret True w'" "n = Again"
    by (auto simp: await_keepalive_def keepLeaderAliveLoop_def elim!: andthen_RetE split: if_splits)
  moreover have "no_reopening late w" using assms(2,3) by (auto simp: no_reopening_def no_reopen_def)
  ultimately show ?thesis using keepalive_closing by blast
qed

text \<open>The part the two ways to lead share: open the database and wait, or close it and stop.\<close>

lemma reign_readonly:
  assumes k: "keepalive_some E i early w = Ret ended w1" and early: "list_all lease_work early"
    and w: "IsReadOnly w" "a_isClosed w = 0" and late: "no_reopen late"
    and open_db: "open_db w1 = Ret err w2" "moves same_closed open_db"
      "\<And>e. err = Some e \<Longrightarrow> IsReadOnly w2 = IsReadOnly w1"
    and fail: "moves tame fail"
    and rest: "(if err \<noteq> None then fail else await_keepalive E i ended late) w2 = Ret n w'"
  shows "IsReadOnly w'"
proof -
  have m: "same_mode w w1" "\<not> ended" using keepalive_lease [OF k early] by auto
  have c: "a_isClosed w2 = 0" using m w moves_RetD [OF open_db(2,1)] by (simp add: same_mode_def same_closed_def)
  show ?thesis
  proof (cases err)
    case None
    then show ?thesis using rest m await_readonly [OF _ c late] by auto
  next
    case (Some e)
    then have "IsReadOnly w2" using open_db(3) m w by (simp add: same_mode_def IsReadOnly_def)
    then show ?thesis using rest Some moves_RetD [OF fail] by (auto simp: tame_def)
  qed
qed

lemma lead_resumed_readonly:
  assumes "lead_resumed E i early late w = Ret n w'" and w: "IsReadOnly w" "a_isClosed w = 0"
    and evs: "list_all lease_work early" "no_reopen late"
  shows "IsReadOnly w'"
proof -
  let ?fail = "\<lambda>ended. andthen (sm_SetReadOnly (e_sm E)) (\<lambda>_. andthen (stop_keepalive E ended) (\<lambda>_. ret Again))"
  from assms(1) obtain ended w1 err w2 where k: "keepalive_some E i early (w\<lparr>a_leaderStopCh := OpenChan\<rparr>) = Ret ended w1"
    and o: "open_resumed E w1 = Ret err w2" and r: "(if err \<noteq> None then ?fail ended else await_keepalive E i ended late) w2 = Ret n w'"
    unfolding lead_resumed_def make_leaderStopCh_def updates_andthen by (elim andthen_RetE) blast
  have "moves same_closed (open_resumed E)"
    unfolding open_resumed_def setIsLeaderToTrue_def
    by (intro same_closed.ro_steps same_closed_agent [OF same_agent_open.moves_rw(1)]) (simp add: same_closed_def)
  moreover have "moves tame (?fail ended)" by (intro tame.ro_steps tame_stop_keepalive)
  moreover have "err = Some e \<Longrightarrow> IsReadOnly w2 = IsReadOnly w1" for e
    using o by (auto simp: open_resumed_def setIsLeaderToTrue_def IsReadOnly_def dest!: svc.setRW_err)
  ultimately show ?thesis using reign_readonly [where open_db = "open_resumed E", OF k evs(1) _ _ evs(2) o _ _ _ r] w by (simp add: IsReadOnly_def)
qed

lemma lead_elected_readonly:
  assumes "lead_elected E i early late w = Ret n w'" and w: "IsReadOnly w" "a_isClosed w = 0"
    and evs: "list_all lease_work early" "no_reopen late"
  shows "IsReadOnly w'"
proof -
  let ?fail = "\<lambda>ended. andthen (setServiceReadonlyOrShutdown E) (\<lambda>_. andthen (stop_keepalive E ended) (\<lambda>_.
       andthen (time_Sleep (100 * time_Millisecond)) (\<lambda>_. ret Again)))"
  from assms(1) obtain x w0 ended w1 err w2 where u: "updateLeaseExpireTS E w = Ret x w0"
    and k: "keepalive_some E i early (w0\<lparr>a_term := a_term w0 + 1, a_leaderStopCh := OpenChan\<rparr>) = Ret ended w1"
    and o: "promoteToMaster E w1 = Ret err w2"
    and r: "(if err \<noteq> None then ?fail ended else await_keepalive E i ended late) w2 = Ret n w'"
    unfolding lead_elected_def make_leaderStopCh_def updates_andthen by (elim andthen_RetE) blast
  have "d_readonly w0 = d_readonly w" "a_isClosed w0 = a_isClosed w" using u by (auto simp: updateLeaseExpireTS_def)
  moreover have "moves tame (?fail ended)" by (intro tame.ro_steps tame_stop_keepalive tame_agent)
  ultimately show ?thesis
    using reign_readonly [where open_db = "promoteToMaster E", OF k evs(1) _ _ evs(2) o same_closed_leading(4) _ _ r] w promote_error [of E w1] o
    by (simp add: IsReadOnly_def)
qed

lemma resume_readonly:
  assumes "resume_iter E leader early late w = Ret n w'" and w: "IsReadOnly w" "a_isClosed w = 0"
    and evs: "list_all lease_work early" "no_reopen late"
  shows "IsReadOnly w'"
proof -
  let ?w = "w\<lparr>a_term := lm_term (ld_meta leader), a_lastGTID := lm_lastGTID (ld_meta leader),
       a_lastUUID := lm_lastUUID (ld_meta leader), a_lastTxnID := lm_lastTxnID (ld_meta leader)\<rparr>"
  have w0: "IsReadOnly ?w" "a_isClosed ?w = 0" using w by (simp_all add: IsReadOnly_def)
  show ?thesis
  proof (cases "ld_spm leader = e_id E")
    case True
    then have "andthen (becomeSinglePointMaster E True) (\<lambda>_. ret Again) ?w = Ret n w'" using assms(1) by (simp add: resume_iter_def)
    then show ?thesis by (rule andthen_RetE) (use spm_readonly [OF _ w0(1)] in auto)
  next
    case False
    then obtain r w1 where g: "resumeLeader E ?w = Ret r w1" and rest: "(case r of
         Inl e \<Rightarrow> andthen (time_Sleep (200 * time_Millisecond)) (\<lambda>_. ret Again)
       | Inr None \<Rightarrow> ret Again
       | Inr (Some i) \<Rightarrow> lead_resumed E i early late) w1 = Ret n w'"
      using assms(1) unfolding resume_iter_def by (simp, elim andthen_RetE) blast
    have w1: "IsReadOnly w1" "a_isClosed w1 = 0"
      using moves_RetD [OF tame_agent(6) g] moves_RetD [OF same_closed_leading(1) g] w0 by (simp_all add: tame_def same_closed_def)
    then show ?thesis
      using rest lead_resumed_readonly [OF _ w1 evs]
      by (auto simp: time_Sleep_def IsReadOnly_def split: sum.splits option.splits)
  qed
qed

lemma campaign_readonly:
  assumes "campaign_iter E leader early late w = Ret n w'" and w: "IsReadOnly w" "a_isClosed w = 0"
    and evs: "list_all lease_work early" "no_reopen late"
  shows "IsReadOnly w'"
proof (cases "isOnlyFollow E w")
  case True
  then show ?thesis using assms(1) w by (auto simp: campaign_iter_def time_Sleep_def IsReadOnly_def)
next
  case False
  let ?pre = "if lm_term (ld_meta leader) \<noteq> 0 then andthen (reads (isPreviousMaster E leader)) (preCampaign E) else ret False"
  let ?rest = "\<lambda>single. if single then andthen (becomeSinglePointMaster E False) (\<lambda>_. ret Again)
       else andthen (campaignLeader E) (\<lambda>r. case r of
           Inl e \<Rightarrow> andthen (deleteLeaderKey E) (\<lambda>_. ret Again)
         | Inr None \<Rightarrow> ret Again
         | Inr (Some i) \<Rightarrow> lead_elected E i early late)"
  from False assms(1) have "andthen ?pre ?rest w = Ret n w'" by (simp add: campaign_iter_def)
  then obtain single w1 where p: "?pre w = Ret single w1" and rest: "?rest single w1 = Ret n w'" by (rule andthen_RetE)
  have m: "moves tame ?pre" "moves same_closed ?pre"
    by (intro tame.ro_steps tame_agent same_closed.ro_steps same_closed_leading)+
  have w1: "IsReadOnly w1" "a_isClosed w1 = 0"
    using moves_RetD [OF m(1) p] moves_RetD [OF m(2) p] w by (simp_all add: tame_def same_closed_def)
  show ?thesis
  proof (cases single)
    case True
    with rest have "andthen (becomeSinglePointMaster E False) (\<lambda>_. ret Again) w1 = Ret n w'" by simp
    then show ?thesis by (rule andthen_RetE) (use spm_readonly [OF _ w1(1)] in auto)
  next
    case False
    with rest obtain r w2 where c: "campaignLeader E w1 = Ret r w2" and r: "(case r of
           Inl e \<Rightarrow> andthen (deleteLeaderKey E) (\<lambda>_. ret Again)
         | Inr None \<Rightarrow> ret Again
         | Inr (Some i) \<Rightarrow> lead_elected E i early late) w2 = Ret n w'" by (auto elim: andthen_RetE)
    have w2: "IsReadOnly w2" "a_isClosed w2 = 0"
      using moves_RetD [OF tame_agent(7) c] moves_RetD [OF same_closed_leading(2) c] w1 by (simp_all add: tame_def same_closed_def)
    have "moves tame (andthen (deleteLeaderKey E) (\<lambda>_. ret Again))" by (intro tame.ro_steps tame_agent)
    then show ?thesis
      using r w2 lead_elected_readonly [OF _ w2 evs] by (auto simp: tame_def dest!: moves_RetD split: sum.splits option.splits)
  qed
qed


section \<open>Starting read-only\<close>

lemma same_agent_connect: "same_agent w (final_world (connect_loop so dsn u t start w))"
proof (induction so dsn u t start w rule: connect_loop.induct)
  case (1 so dsn u t start w)
  have "moves same_agent Select1" unfolding Select1_def db_Query_def by (intro same_agent.ro_steps same_agent_open.moves_any_sql)
  then have s: "same_agent w (final_world (Select1 w))" by (rule movesD)
  show ?case
    by (subst connect_loop.simps) (use 1 s in \<open>auto simp: same_agent_def split: option.split outcome.split\<close>)
qed

lemma same_agent_service: "moves same_agent (start_service E)" "moves same_agent (new_service_manager so E)"
proof -
  have w: "moves same_agent (waitUtilPortAlive n h p d)" for n h p d
    by (induction n) (simp_all, (intro same_agent.ro_steps | simp add: isPortAlive_def)+)
  have "moves same_agent (\<lambda>w. waitUtilPortAlive (n w) h p (d w) w)" for n h p d
    using movesD [OF w] by (simp add: moves_def)
  then show "moves same_agent (start_service E)"
    unfolding start_service_def isPortAlive_def DoubleForkAndExecute_def Let_def
    by (intro same_agent.ro_steps)
  have c: "moves same_agent (\<lambda>w. connect_loop so d u t (n_clock w) w)" for d u t
    using same_agent_connect by (simp add: moves_def)
  show "moves same_agent (new_service_manager so E)"
    unfolding new_service_manager_def NewMySQLServiceManager_def NewPostgreSQLServiceManager_def Let_def
    by (intro same_agent.ro_steps c; simp add: same_agent_def)
qed


section \<open>Ending before the promotion\<close>

text \<open>
  the condition on what happens before the database is opened is needed. If the goroutine that keeps the
  lease ends while the loop is still on its way to the promotion, because the master was changed meanwhile, the
  promotion opens the database nevertheless, and the loop starts its next round with the database writable.
\<close>

theorem promotion_after_end:
  assumes "updateLeaseExpireTS E w = Ret () w0"
    and "keepalive_some E i early (w0\<lparr>a_term := a_term w0 + 1, a_leaderStopCh := OpenChan\<rparr>) = Ret True w1"
    and "promoteToMaster E w1 = Ret None w2"
  shows "lead_elected E i early late w = Ret Again w2 \<and> \<not> IsReadOnly w2"
proof
  show "lead_elected E i early late w = Ret Again w2"
    using assms by (simp add: lead_elected_def make_leaderStopCh_def await_keepalive_def andthen_Ret [where m = "updateLeaseExpireTS E"]
      andthen_Ret [where m = "keepalive_some E i early"] andthen_Ret [where m = "promoteToMaster E"])
  show "\<not> IsReadOnly w2" using assms(3) by (auto elim!: promote_parts dest: svc.setRW_nil)
qed

section \<open>Examples\<close>

lemma ex_led_range: "etcd_range ex_led k = (if k = fullLeaderPath (ex_env ''n1'') then
   [\<lparr>kv_key = fullLeaderPath (ex_env ''n1''), kv_value = ''n1'', kv_create = 2, kv_mod = 2, kv_version = 1, kv_lease = 1\<rparr>] else [])"
  by (simp add: ex_led_eq etcd_range_def etcd_get_def)

lemma ex_led_read:
  assumes "wf_env (ex_env i)"
  shows "\<exists>x. read_leader (ex_env i) (map (\<lambda>k. RangeResp (etcd_range ex_led (fullPathOf (ex_env i) k)))
        [leaderPath, termPath, idPath, metaVersionPath, lastUUIDPath, lastTxnIDPath, lastGTIDPath, myTermPath (ex_env i), spmPath]) (zero_Leader, 0) =
   Inr (zero_Leader\<lparr>ld_name := ''n1'', ld_kv := Some x\<rparr>, 0)"
proof -
  have p: "fullPathOf (ex_env i) = fullPathOf (ex_env ''n1'')" by (rule ex_env_paths)
  have f: "fullLeaderPath (ex_env ''n1'') = fullPathOf (ex_env i) leaderPath" by (simp add: fullLeaderPath_def p)
  have n: "fullPathOf (ex_env i) k = fullPathOf (ex_env i) leaderPath \<longleftrightarrow> k = leaderPath"
    if "k \<in> {leaderPath, termPath, idPath, metaVersionPath, lastUUIDPath, lastTxnIDPath, lastGTIDPath, myTermPath (ex_env i), spmPath}" for k
    using that by (auto simp: fullPathOf_inj [OF assms] good_paths good_myTermPath [OF assms])
  show ?thesis
    by (simp add: ex_led_range f n read_leader_kv_key [OF assms] path_values myTermPath_eq [OF assms] zero_Leader_def)
qed

lemma ex_follow:
  "\<exists>w. leader_iter (ex_env ''n2'') [] [] (ex_agent ''n2'' ex_led [rpc_ok, rpc_ok, Rpc id RpcLost 1 1] []) = Ret Again w"
proof -
  let ?w = "ex_agent ''n2'' ex_led [rpc_ok, rpc_ok, Rpc id RpcLost 1 1] []" and ?E = "ex_env ''n2''"
  let ?L = "\<lambda>x. zero_Leader\<lparr>ld_name := ''n1'', ld_kv := Some x\<rparr>" and ?v = "?w\<lparr>n_script := [rpc_ok, Rpc id RpcLost 1 1], n_clock := 2, a_term := 0\<rparr>"
  obtain x where r: "getLeaderAndMyTerm ?E ?w = Ret (Inr (?L x, 0)) (?w\<lparr>n_script := [rpc_ok, Rpc id RpcLost 1 1], n_clock := 2\<rparr>)"
    using getLeaderAndMyTerm_reply [OF ex_env_wf(2), of ?w id 1 1 "[rpc_ok, Rpc id RpcLost 1 1]"] ex_led_read [OF ex_env_wf(2)]
    by (auto simp: rpc_ok_def ex_agent_def)
  obtain w1 where p: "preWatch ?E (?L x) ?v = Ret None w1" "\<not> a_ctxDone w1" "n_script w1 = [Rpc id RpcLost 1 1]"
    by (auto simp: preWatch_def preWatch_body_def zero_Leader_def persistMyTerm_def andthen_def Client_Put_def rpc_call_def rpc_ok_def Let_def)
  obtain e w2 where c: "doChangeMaster ?E (?L x) w1 = Ret (Some e) w2"
    using p(2,3) by (auto simp: doChangeMaster_def isSameLeader_def NodeStatus_of_def Node_def Client_MultiGet_def andthen_def rpc_call_def Let_def)
  show ?thesis
    using r p(1) c by (simp add: leader_iter_def andthen_Ret [where m = "getLeaderAndMyTerm ?E"] isSameLeader_def follow_iter_def
      andthen_Ret [where m = "preWatch ?E (?L x)"] andthen_Ret [where m = "doChangeMaster ?E (?L x)"] time_Sleep_def)
qed



theorem promotion_after_end_witness:
  "\<exists>w. lead_elected (ex_env ''n1'') 1 [ReignChangeMaster 0, ReignEnd 0] []
     ((ex_agent ''n1'' ex_led [rpc_ok] [sql_ok, sql_ok, sql_ok, sql_ok, sql_ok, sql_ok])\<lparr>a_isLeader := 1\<rparr>) = Ret Again w \<and> \<not> IsReadOnly w"
proof -
  let ?E = "ex_env ''n1''"
  define w where "w = (ex_agent ''n1'' ex_led [rpc_ok] [sql_ok, sql_ok, sql_ok, sql_ok, sql_ok, sql_ok])\<lparr>a_isLeader := 1\<rparr>"
  have f: "d_sql w = [sql_ok, sql_ok, sql_ok, sql_ok, sql_ok, sql_ok]" "n_script w = [rpc_ok]" "\<not> a_ctxDone w" "a_isLeader w = 1" "a_isClosed w = 0"
    by (simp_all add: w_def ex_agent_def)
  obtain w0 where u: "updateLeaseExpireTS ?E w = Ret () w0" "w0 = w\<lparr>a_leaseExpireTS := a_leaseExpireTS w0\<rparr>"
    by (simp add: updateLeaseExpireTS_def)
  have f0: "d_sql w0 = d_sql w" "n_script w0 = [rpc_ok]" "\<not> a_ctxDone w0" "a_isLeader w0 = 1" "a_isClosed w0 = 0"
    by (subst u(2), simp add: f)+
  let ?v = "w0\<lparr>a_term := a_term w0 + 1, a_leaderStopCh := OpenChan\<rparr>"
  obtain r w1 where cm: "ChangeMaster ?E ?v = Ret r w1" and w1: "d_sql w1 = [sql_ok, sql_ok, sql_ok, sql_ok]" "a_leaderStopCh w1 = ClosedChan"
    "a_isLeader w1 = 1" "a_isClosed w1 = 0"
    using ex_ChangeMaster [of ?v "[sql_ok, sql_ok, sql_ok, sql_ok]" "''n1''"] f f0 by auto
  obtain l where ro: "mysqlSM_SetReadOnly w1 = Ret None (w1\<lparr>d_sql := [sql_ok, sql_ok], d_log := l, n_clock := 2 + n_clock w1, d_readonly := 1\<rparr>)" (is "_ = Ret None ?w2")
    using ex_readonly_runs(1) [OF w1(1)] by blast
  have k: "keepalive_some ?E 1 [ReignChangeMaster 0, ReignEnd 0] ?v = Ret True ?w2"
    using cm ro w1 by (simp add: served_def recovering_def andthen_def time_Sleep_def told_to_stop_def keepalive_end_def setServiceReadonlyOrShutdown_def)
  obtain l' where "mysqlSM_SetReadWrite ?w2 = Ret None (?w2\<lparr>d_sql := [], d_log := l', n_clock := 2 + n_clock ?w2, d_readonly := 0\<rparr>)"
    using ex_readonly_runs(2) [of ?w2 "[]"] by auto
  then have "\<exists>w3. promoteToMaster ?E ?w2 = Ret None w3" using w1 by (simp add: promoteToMaster_def amILeader_def)
  then show ?thesis using promotion_after_end [OF u(1) k] unfolding w_def by blast
qed

end
