(* ===== verification/Agent_Bystander.thy ===== *)
theory Agent_Bystander
  imports Agent_Server
begin

text \<open>
  What the requests of an agent leave alone in the store. The locale \<open>bystander\<close> collects what a predicate on
  the store has to satisfy so that what an agent does, apart from the transactions on the leader key, keeps it;
  it is interpreted for the leader key, its value and its lease. From it follow that a server that closes leaves
  its leader key behind, and that a node never disturbs another one that leads.
\<close>

section \<open>Predicates on the store\<close>

definition saves :: "(etcd \<Rightarrow> bool) \<Rightarrow> agent \<Rightarrow> agent \<Rightarrow> bool" where
  "saves P w w' \<longleftrightarrow> (Etcd_Client.stable P w \<longrightarrow> Etcd_Client.stable P w')"

lemma saves_fields [simp]:
  "n_etcd w' = n_etcd w \<Longrightarrow> n_script w' = n_script w \<Longrightarrow> saves P w w'"
  by (simp add: saves_def Etcd_Client.stable_def rely_def)

interpretation saves: open_frame "saves P" for P
  by unfold_locales (simp_all, simp add: saves_def)

lemma saves_watch [simp]: "saves P (w\<lparr>a_watch := a, n_clock := c\<rparr>) x = saves P w x"
  by (simp add: saves_def Etcd_Client.stable_def rely_def)

lemma saves_keeps: "keeps (Etcd_Client.stable P) m \<longleftrightarrow> moves (saves P) m"
  by (simp add: keeps_def moves_def saves_def)

lemma saves_rpc: "(\<And>t e. P e \<Longrightarrow> P (snd (f t e))) \<Longrightarrow> moves (saves P) (rpc_call d f)"
  unfolding saves_keeps [symmetric] by (rule stable_rpc_call)

lemma saves_reads:
  "moves (saves P) (Client_MultiGet r d ks)" "moves (saves P) (Client_PrefixGet r d k)"
  "moves (saves P) (Client_Txn d [] (map (\<lambda>k. OpGet (f k)) gs))"
proof -
  have t: "snd (etcd_txn [] (map (\<lambda>k. OpGet (g k)) ks) e) = e" for g :: "'k \<Rightarrow> string" and ks e
    by (simp add: etcd_txn_def apply_gets commit_rev_def Let_def list_ex_iff)
  note steps = saves.moves_andthen saves.moves_case_sum saves.moves_case_prod saves.moves_ret
  show "moves (saves P) (Client_MultiGet r d ks)"
    unfolding Client_MultiGet_def by (intro steps saves_rpc) (simp only: t)
  show "moves (saves P) (Client_PrefixGet r d k)"
    unfolding Client_PrefixGet_def by (intro steps saves_rpc) (simp add: range_req_def)
  show "moves (saves P) (Client_Txn d [] (map (\<lambda>k. OpGet (f k)) gs))"
    unfolding Client_Txn_def by (intro saves_rpc) (simp only: t)
qed

section \<open>Requests on other keys\<close>

lemma slave_path:
  assumes env: "wf_env E"
  shows "join [registryPath, e_id E] = ''slave/'' @ e_id E" "good_rel (join [registryPath, e_id E])"
proof -
  have c: "good_comp (e_id E)" using env by (simp add: wf_env_def)
  have "good_rel ''slave''" by code_simp
  then show "join [registryPath, e_id E] = ''slave/'' @ e_id E"
    unfolding join_def registryPath_def by (subst path_join_rel) (simp_all add: good_rel_comp [OF c])
  show "good_rel (join [registryPath, e_id E])" using good_registry_paths(1) [OF c] .
qed

lemma full_path: "wf_env E \<Longrightarrow> good_rel k \<Longrightarrow> fullPathOf E k = rootPath E @ CHR ''/'' # k"
  by (simp add: fullPathOf_def KeyWithRootPath_def keyWithPrefix_def wf_env_def path_join_root del: path_join.simps)

lemma slave_not_leader:
  assumes env: "wf_env E"
  shows "\<not> prefix (fullPathOf E (join [registryPath, e_id E])) (fullLeaderPath E)"
  unfolding fullLeaderPath_def full_path [OF env slave_path(2) [OF env]] full_path [OF env good_paths(1)]
  by (simp add: slave_path(1) [OF env] path_values)

lemma myTerm_not_leader:
  assumes env: "wf_env E"
  shows "fullPathOf E (myTermPath E) \<noteq> fullLeaderPath E"
  unfolding fullLeaderPath_def full_path [OF env good_myTermPath [OF env]] full_path [OF env good_paths(1)]
  by (simp add: myTermPath_eq [OF env] path_values)

locale bystander =
  fixes E :: agent_env and P :: "etcd \<Rightarrow> bool"
  assumes put_other: "k \<noteq> fullLeaderPath E \<Longrightarrow> P e \<Longrightarrow> P (snd (etcd_put k v l e))"
    and delete_other: "\<not> prefix k (fullLeaderPath E) \<Longrightarrow> P e \<Longrightarrow> P (snd (etcd_delete k b e))"
    and grant: "P e \<Longrightarrow> P (snd (lease_grant now ttl e))"
begin

lemma saves_Unregister:
  assumes env: "wf_env E"
  shows "moves (saves P) (Unregister E)"
proof -
  have "moves (saves P) (close_chan a_registerStopCh (\<lambda>w. w\<lparr>a_registerStopCh := ClosedChan\<rparr>))"
    unfolding close_chan_def by (intro saves.intros) (simp split: chan.split add: saves.intros)
  moreover have "moves (saves P) (Client_Delete (rootPath E) d (join [registryPath, e_id E]) True)" for d
    unfolding Client_Delete_def using slave_not_leader [OF env] by (intro saves_rpc delete_other) (simp_all add: fullPathOf_def)
  ultimately show ?thesis unfolding Unregister_def UnregisterNode_def by (intro saves.intros)
qed

lemma saves_Register:
  assumes env: "wf_env E"
  shows "moves (saves P) (Register E)"
proof -
  have "join [registryPath, e_id E] \<noteq> leaderPath" using slave_path(1) [OF env] by (simp add: path_values)
  then have k: "KeyWithRootPath (rootPath E) (join [registryPath, e_id E]) \<noteq> fullLeaderPath E"
    using fullPathOf_inj [OF env slave_path(2) [OF env] good_paths(1)] by (simp add: fullLeaderPath_def fullPathOf_def)
  have "moves (saves P) (Client_Put (rootPath E) d (join [registryPath, e_id E]) v l)" for d v l
    unfolding Client_Put_def by (intro saves_rpc put_other k)
  moreover have "moves (saves P) (Lease_Grant d t)" for d t unfolding Lease_Grant_def by (intro saves_rpc grant)
  ultimately show ?thesis unfolding Register_def RegisterNode_def register_def by (intro saves.intros)
qed

lemma saves_persistMyTerm:
  assumes env: "wf_env E"
  shows "moves (saves P) (persistMyTerm E)"
proof -
  have "moves (saves P) (Client_Put (rootPath E) d (myTermPath E) v l)" for d v l
    unfolding Client_Put_def using myTerm_not_leader [OF env] by (intro saves_rpc put_other) (simp_all add: fullPathOf_def)
  then show ?thesis unfolding persistMyTerm_def by (intro saves.intros)
qed

lemma saves_getLeader: "moves (saves P) (getLeaderAndMyTerm E)"
  unfolding getLeaderAndMyTerm_def get_ops_eq by (intro saves.intros saves_reads)

lemma saves_readonly: "moves (saves P) (setServiceReadonlyOrShutdown E)"
  unfolding setServiceReadonlyOrShutdown_def forceClose_def by (intro saves.intros saves.moves_SetReadOnly)

lemma saves_Close:
  assumes env: "wf_env E"
  shows "moves (saves P) (Close E)"
proof -
  let ?close = "close_chan a_shutdownCh (\<lambda>w. w\<lparr>a_shutdownCh := ClosedChan\<rparr>)"
  have c: "moves (saves P) ?close"
    unfolding close_chan_def by (intro saves.intros) (simp split: chan.split add: saves.intros)
  have t: "moves (saves P) (andthen (updates (\<lambda>w. w\<lparr>a_ctxDone := True\<rparr>)) (\<lambda>_. andthen (deleteLeaderKey E) (\<lambda>_. ?close)))"
    unfolding moves_def
  proof
    fix w :: agent
    have "saves P (w\<lparr>a_ctxDone := True\<rparr>) (final_world (?close (w\<lparr>a_ctxDone := True\<rparr>)))" by (rule movesD [OF c])
    then show "saves P w (final_world (andthen (updates (\<lambda>w. w\<lparr>a_ctxDone := True\<rparr>)) (\<lambda>_. andthen (deleteLeaderKey E) (\<lambda>_. ?close)) w))"
      using saves.trans [of P w "w\<lparr>a_ctxDone := True\<rparr>"] by (simp add: delete_canceled andthen_Ret [where m = "deleteLeaderKey E"])
  qed
  show ?thesis
    unfolding Close_def by (rule t | rule saves.intros saves_readonly saves_Unregister env | simp)+
qed

lemma saves_NodeStatus: "moves (saves P) (NodeStatus_of E i)"
  unfolding NodeStatus_of_def Node_def decode_node_def by (intro saves.intros saves_reads)

lemma saves_becomeSlave: "moves (saves P) (becomeSlave E h q)"
proof -
  have "moves (saves P) (redirect_loop n E h q err)" for n err
  proof (induction n E h q err rule: redirect_loop.induct)
    case (3 n E h q e)
    show ?case unfolding redirect_loop.simps by (intro saves.local_steps saves.moves_sm 3)
  qed (simp_all only: redirect_loop.simps saves.local_steps)
  then show ?thesis unfolding becomeSlave_def by (intro saves.intros saves.moves_sm)
qed

lemma saves_follow:
  assumes env: "wf_env E" and other: "ld_name leader \<noteq> e_id E"
  shows "moves (saves P) (follow_iter E leader)"
proof -
  have w: "moves (saves P) (watchLeader r)" for r
  proof -
    have "saves P w (final_world (watchLeader r w))" for w
    proof (induction r w rule: watchLeader.induct)
      case (1 r w)
      then show ?case by (subst watchLeader.simps) (auto split: list.split watch_resp.split)
    qed
    then show ?thesis by (simp add: moves_def)
  qed
  have d: "moves (saves P) (doChangeMaster E leader)"
    using other unfolding doChangeMaster_def isSameLeader_def setIsLeaderToFalse_def
    by (simp, intro saves.intros saves_NodeStatus saves_becomeSlave; simp)
  have p: "moves (saves P) (preWatch E leader)"
    unfolding preWatch_def preWatch_body_def watch_by_log_def load_log_def loadMasterLogFromMySQL_def loadSlaveLogFromMySQL_def
    by (intro saves.intros saves.moves_sm saves_persistMyTerm env) (simp_all add: set_log_def split: prod.split)
  show ?thesis
    unfolding follow_iter_def by (intro saves.local_steps p d w saves_Close env)
qed

lemma saves_unread: "wf_env E \<Longrightarrow> moves (saves P) (leader_unread E e)"
  unfolding leader_unread_def by (intro saves.local_steps) (cases e; simp add: saves.local_steps saves_Close)

end

text \<open>Who holds the leader key is such a predicate, and so is that another node does, in a well-formed store.\<close>

lemma held_other:
  "k \<noteq> L \<Longrightarrow> etcd_held (snd (etcd_put k v l e)) L = etcd_held e L"
  "\<not> prefix k L \<Longrightarrow> etcd_held (snd (etcd_delete k b e)) L = etcd_held e L"
proof -
  show "k \<noteq> L \<Longrightarrow> etcd_held (snd (etcd_put k v l e)) L = etcd_held e L" by (simp add: etcd_put_def)
  assume "\<not> prefix k L"
  then have "kv_get (filter (\<lambda>x. \<not> (if b then prefix k (kv_key x) else kv_key x = k)) (e_kvs e)) L = kv_get (e_kvs e) L"
    by (intro kv_get_filter) auto
  then show "etcd_held (snd (etcd_delete k b e)) L = etcd_held e L"
    by (simp add: etcd_delete_def Let_def etcd_held_def etcd_get_def)
qed

interpretation held: bystander E "\<lambda>e. etcd_held e (fullLeaderPath E) = h" for E h
  by unfold_locales (simp_all add: held_other)

interpretation led: bystander E "\<lambda>e. wf_etcd e \<and> etcd_held e (fullLeaderPath E) = h" for E h
  by unfold_locales (simp_all add: held_other wf_etcd_requests)

section \<open>Closing\<close>

text \<open>
  C25: closing a server leaves the leader key as it is, with its value and its lease, although the code deletes
  it as its last step: the context of the server is cancelled before, and the request is never sent. The key
  of a leader that closes stays until its lease runs out.
\<close>

theorem Close_keeps_leader_key:
  assumes "wf_env E" and "Etcd_Client.stable (\<lambda>e. etcd_held e (fullLeaderPath E) = h) w"
  shows "etcd_held (n_etcd (final_world (Close E w))) (fullLeaderPath E) = h"
  using movesD [OF held.saves_Close [OF assms(1), of h], of w] assms(2) by (simp add: saves_def Etcd_Client.stable_def)

section \<open>Another leader\<close>

lemma read_leader_kv_name:
  assumes "read_leader_kv E x (ld, t) = Inr (ld', t')" and "kv_key x \<noteq> fullPathOf E leaderPath"
  shows "ld_name ld' = ld_name ld \<and> ld_kv ld' = ld_kv ld"
  using assms by (auto simp: read_leader_kv_def Let_def set_meta_def split: if_splits option.splits)

lemma read_leader_name:
  assumes "read_leader E rs (ld, t) = Inr (ld', t')"
    and "\<And>x xs. RangeResp (x # xs) \<in> set rs \<Longrightarrow> kv_key x \<noteq> fullPathOf E leaderPath"
  shows "ld_name ld' = ld_name ld \<and> ld_kv ld' = ld_kv ld"
  using assms
proof (induction rs arbitrary: ld t)
  case (Cons r rs)
  show ?case
  proof (cases "\<exists>x xs. r = RangeResp (x # xs)")
    case True
    then obtain x xs where r: "r = RangeResp (x # xs)" by blast
    with Cons.prems obtain ld1 t1 where 1: "read_leader_kv E x (ld, t) = Inr (ld1, t1)" "read_leader E rs (ld1, t1) = Inr (ld', t')"
      by (auto split: sum.splits)
    have "kv_key x \<noteq> fullPathOf E leaderPath" using Cons.prems(2) r by (auto intro: list.set_intros)
    with Cons.IH [OF 1(2)] Cons.prems(2) read_leader_kv_name [OF 1(1)] show ?thesis by (auto intro: list.set_intros)
  next
    case False
    then have "read_leader E rs (ld, t) = Inr (ld', t')" using Cons.prems(1) by (auto split: op_resp.splits list.splits)
    then show ?thesis using Cons.prems(2) by (intro Cons.IH) auto
  qed
qed simp

text \<open>The leader that an agent reads is the node whose value is under the leader key.\<close>

lemma getLeader_name:
  assumes "wf_env E" and "getLeaderAndMyTerm E w = Ret (Inr (leader, t)) w'"
    and "Etcd_Client.stable P w" and "\<And>e. P e \<Longrightarrow> etcd_value e (fullLeaderPath E) = Some v"
  shows "ld_name leader = v \<and> ld_kv leader \<noteq> None"
proof -
  let ?ks = "[termPath, idPath, metaVersionPath, lastUUIDPath, lastTxnIDPath, lastGTIDPath, myTermPath E, spmPath]"
  from assms(2) obtain ok rs where "Client_Txn (a_ctxDone w) [] (Concatenate [leaderGetOps E, myTermGetOps E, spmGetOps E]) w = Ret (Inr (ok, rs)) w'"
    by (auto simp: getLeaderAndMyTerm_def elim!: andthen_RetE split: sum.splits prod.splits)
  then obtain env d1 d2 rest where s: "\<not> a_ctxDone w" "n_script w = Rpc env RpcOK d1 d2 # rest" by (rule Client_Txn_Inr)
  let ?e = "env (n_etcd w)"
  have "etcd_value ?e (fullLeaderPath E) = Some v" using assms(3,4) s(2) by (auto simp: Etcd_Client.stable_def rely_def)
  then obtain x where x: "etcd_range ?e (fullPathOf E leaderPath) = [x]" "kv_key x = fullPathOf E leaderPath" "kv_value x = v"
    unfolding fullLeaderPath_def by (rule range_of_value)
  have k: "kv_key y = fullPathOf E k" if "y # ys = etcd_range ?e (fullPathOf E k)" for y ys k
    using that by (auto simp: etcd_range_def dest: etcd_get_SomeD split: option.splits)
  have n: "fullPathOf E k \<noteq> fullPathOf E leaderPath" if "k \<in> set ?ks" for k
    using that leader_paths_distinct [OF assms(1)] by auto
  from assms(2) have "read_leader E (map (\<lambda>k. RangeResp (etcd_range ?e (fullPathOf E k))) ?ks)
      (zero_Leader\<lparr>ld_kv := Some x, ld_name := v\<rparr>, 0) = Inr (leader, t)"
    unfolding getLeaderAndMyTerm_reply [OF assms(1) s] by (simp add: x read_leader_kv_key(1) [OF assms(1)])
  from read_leader_name [OF this] show ?thesis using k n by fastforce
qed

text \<open>
  C3: as long as another node holds the leader key, a round of the leader loop does not open the database of
  this node, and leaves the key, its value and its lease as they are, on every path and with every failure: two
  nodes that agree on the store do not both lead.
\<close>

theorem other_leader_undisturbed:
  fixes early late :: "reign_event list"
  assumes "wf_env E" and "Etcd_Client.stable (\<lambda>e. wf_etcd e \<and> etcd_held e (fullLeaderPath E) = Some (v, l)) w"
    and "v \<noteq> []" and "v \<noteq> e_id E"
  defines "w' \<equiv> final_world (leader_iter E early late w)"
  shows "etcd_held (n_etcd w') (fullLeaderPath E) = Some (v, l) \<and> (IsReadOnly w \<longrightarrow> IsReadOnly w') \<and> (log_closed w \<longrightarrow> log_closed w')"
proof -
  let ?P = "\<lambda>e. wf_etcd e \<and> etcd_held e (fullLeaderPath E) = Some (v, l)"
  have g0: "saves ?P w (final_world (getLeaderAndMyTerm E w))" "tame w (final_world (getLeaderAndMyTerm E w))"
    by (rule movesD [OF led.saves_getLeader], rule movesD [OF tame_agent(4)])
  have "saves ?P w w' \<and> tame w w'"
  proof (cases "getLeaderAndMyTerm E w")
    case (Ret r w1)
    have g: "saves ?P w w1" "tame w w1" using g0 Ret by simp_all
    show ?thesis
    proof (cases r)
      case (Inl e)
      then have "w' = final_world (leader_unread E e w1)" using Ret by (simp add: w'_def leader_iter_def andthen_Ret)
      with g movesD [OF led.saves_unread [OF assms(1)], where w = w1] movesD [OF tame_unread, of w1]
      show ?thesis by (auto intro: saves.trans tame.trans)
    next
      case (Inr p)
      then obtain leader t where r: "r = Inr (leader, t)" by (cases p) auto
      have "ld_name leader = v"
        using getLeader_name [OF assms(1) Ret [unfolded r] assms(2)] by (simp add: etcd_value_held)
      then have o: "ld_name leader \<noteq> e_id E" and "w' = final_world (follow_iter E leader (w1\<lparr>a_term := t\<rparr>))"
        using Ret r assms(3,4) by (auto simp: w'_def leader_iter_def andthen_Ret isSameLeader_def)
      moreover have "saves ?P w (w1\<lparr>a_term := t\<rparr>)" "tame w (w1\<lparr>a_term := t\<rparr>)"
        using g saves.trans [OF g(1), of "w1\<lparr>a_term := t\<rparr>"] tame.trans [OF g(2), of "w1\<lparr>a_term := t\<rparr>"] by simp_all
      ultimately show ?thesis using movesD [OF led.saves_follow [OF assms(1) o], where w = "w1\<lparr>a_term := t\<rparr>"] movesD [OF tame_follow [OF o], of "w1\<lparr>a_term := t\<rparr>"]
        by (auto intro: saves.trans tame.trans)
    qed
  qed (use g0 in \<open>auto simp: w'_def leader_iter_def andthen_def\<close>)
  with assms(2) show ?thesis by (auto simp: saves_def tame_def Etcd_Client.stable_def)
qed

section \<open>Examples\<close>

theorem Close_keeps_leader_key_witness:
  "etcd_held (n_etcd (final_world (Close (ex_env ''n1'') (ex_agent ''n1'' ex_led [rpc_ok, rpc_ok] [sql_ok, sql_ok]))))
     (fullLeaderPath (ex_env ''n1'')) = Some (''n1'', 1)"
  using Close_keeps_leader_key [OF ex_env_wf(1), of "Some (''n1'', 1)" "ex_agent ''n1'' ex_led [rpc_ok, rpc_ok] [sql_ok, sql_ok]"]
  by (simp add: ex_agent_stable ex_led)

theorem other_leader_undisturbed_witness:
  "etcd_held (n_etcd (final_world (leader_iter (ex_env ''n2'') [] [] (ex_agent ''n2'' ex_led [rpc_ok, rpc_ok, rpc_ok, rpc_ok] []))))
     (fullLeaderPath (ex_env ''n2'')) = Some (''n1'', 1)"
  using other_leader_undisturbed [OF ex_env_wf(2), of "''n1''" 1 "ex_agent ''n2'' ex_led [rpc_ok, rpc_ok, rpc_ok, rpc_ok] []" "[]" "[]"]
  by (simp add: ex_agent_stable ex_led)

end
