(* ===== verification/Cluster.thy ===== *)
theory Cluster
  imports Agent_Bystander
begin

text \<open>
  A whole cluster: the agents of one cluster, the store they share, and time. A step is a request of one
  agent, as \<open>leader.go\<close> and \<open>single_point.go\<close> make it, at the moment it takes effect in the store; the end of a process by
  its lease monitor; or the expiry of a lease. The invariant, by rule induction over the steps, is that who
  leads holds the leader key under a lease that outlasts it; so at most one agent leads.
\<close>

section \<open>Clusters\<close>

text \<open>
  The agents that may have their database open: with the lease under which they hold the key, and the time by
  which their lease monitor has ended the process, unless it is renewed before. A single point master has neither.
\<close>

record cluster =
  c_store :: etcd
  c_now :: int
  c_leads :: "string \<rightharpoonup> int \<times> int option"

definition node :: "agent_env \<Rightarrow> string \<Rightarrow> agent_env" where
  "node E p = E\<lparr>e_id := p\<rparr>"

text \<open>
  The latest end of a process whose lease was last confirmed by an answer at time \<open>t\<close>: the second after the
  expiry that \<open>updateLeaseExpireTS\<close> stores, and the delay of the timer.
\<close>

definition stop_by :: "agent_env \<Rightarrow> int \<Rightarrow> int \<Rightarrow> int" where
  "stop_by E late t =
     ((t + wrap64 (LeaderLeaseTTL (e_cfg E) * time_Second) + wrap64 (- wrap64 (ShutdownThreshold (e_cfg E) * time_Second))) div time_Second + 1) *
       time_Second + late"

definition running :: "int \<Rightarrow> (string \<rightharpoonup> int \<times> int option) \<Rightarrow> (string \<rightharpoonup> int \<times> int option)" where
  "running t L = (\<lambda>p. case L p of Some (i, Some d) \<Rightarrow> if d \<le> t then None else L p | x \<Rightarrow> x)"

text \<open>
  The answer to a request on a lease arrives in time: the time since the lease was granted or renewed at the
  server, the delay of the timer and one second for rounding fit into the shutdown threshold.
\<close>

definition in_time :: "agent_env \<Rightarrow> int \<Rightarrow> cluster \<Rightarrow> int \<Rightarrow> int \<Rightarrow> bool" where
  "in_time E late c i answer \<longleftrightarrow>
     (case lease_lookup (c_store c) i of
        None \<Rightarrow> False
      | Some l \<Rightarrow> LeaderLeaseTTL (e_cfg E) \<le> l_ttl l \<and> c_now c \<le> answer \<and> c_now c < stop_by E late answer \<and>
          answer - (l_expiry l - l_ttl l * time_Second) + late + time_Second \<le> ShutdownThreshold (e_cfg E) * time_Second)"

section \<open>Requests\<close>

definition campaign_txn :: "agent_env \<Rightarrow> agent \<Rightarrow> int \<Rightarrow> etcd \<Rightarrow> (error + bool \<times> op_resp list) \<times> etcd" where
  "campaign_txn E w i = etcd_txn [CmpCreateRevision (fullLeaderPath E) 0] (leaderPutOps E w i (a_term w + 1) @ myTermPutOps E w True)"

definition resume_txn :: "agent_env \<Rightarrow> agent \<Rightarrow> int \<Rightarrow> etcd \<Rightarrow> (error + bool \<times> op_resp list) \<times> etcd" where
  "resume_txn E w i = etcd_txn [leaderCmp E w] (leaderPutOps E w i (a_term w))"

definition resign_txn :: "agent_env \<Rightarrow> agent \<Rightarrow> etcd \<Rightarrow> (error + bool \<times> op_resp list) \<times> etcd" where
  "resign_txn E w = etcd_txn [leaderCmp E w] [OpDelete (fullLeaderPath E), OpDelete (fullPathOf E metaVersionPath)]"

definition spm_campaign_txn :: "agent_env \<Rightarrow> agent \<Rightarrow> etcd \<Rightarrow> (error + bool \<times> op_resp list) \<times> etcd" where
  "spm_campaign_txn E w = etcd_txn [CmpCreateRevision (fullLeaderPath E) 0]
     (leaderPutOps E w (- 1) (a_term w + 1) @ myTermPutOps E w True @ spmPutOps E)"

definition spm_resume_txn :: "agent_env \<Rightarrow> agent \<Rightarrow> etcd \<Rightarrow> (error + bool \<times> op_resp list) \<times> etcd" where
  "spm_resume_txn E w = etcd_txn [leaderCmp E w] (leaderPutOps E w (- 1) (a_term w) @ myTermPutOps E w False @ spmPutOps E)"

section \<open>Steps\<close>

inductive cstep :: "agent_env \<Rightarrow> int \<Rightarrow> cluster \<Rightarrow> cluster \<Rightarrow> bool" for E :: agent_env and late :: int where
  Pass: "c_now c \<le> t \<Longrightarrow> cstep E late c (c\<lparr>c_now := t, c_leads := running t (c_leads c)\<rparr>)"
| Grant: "cstep E late c (c\<lparr>c_store := snd (lease_grant (c_now c) ttl (c_store c))\<rparr>)"
| Expire: "lease_lookup (c_store c) i = Some l \<Longrightarrow> l_expiry l \<le> c_now c \<Longrightarrow> cstep E late c (c\<lparr>c_store := lease_revoke i (c_store c)\<rparr>)"
| Campaign: "campaign_txn (node E p) w i (c_store c) = (Inr (True, rs), e) \<Longrightarrow> a_leaderValue w = p \<Longrightarrow> 0 < i \<Longrightarrow> in_time E late c i answer \<Longrightarrow>
    cstep E late c (c\<lparr>c_store := e, c_leads := (c_leads c)(p \<mapsto> (i, Some (stop_by E late answer)))\<rparr>)"
| CampaignLost: "campaign_txn (node E p) w i (c_store c) = (r, e) \<Longrightarrow> 0 < i \<Longrightarrow> cstep E late c (c\<lparr>c_store := e\<rparr>)"
| Resume: "resume_txn (node E p) w i (c_store c) = (Inr (True, rs), e) \<Longrightarrow> a_leaderValue w = p \<Longrightarrow> 0 < i \<Longrightarrow> in_time E late c i answer \<Longrightarrow>
    cstep E late c (c\<lparr>c_store := e, c_leads := (c_leads c)(p \<mapsto> (i, Some (stop_by E late answer)))\<rparr>)"
| ResumeLost: "resume_txn (node E p) w i (c_store c) = (r, e) \<Longrightarrow> a_leaderValue w = p \<Longrightarrow> c_leads c p = None \<Longrightarrow>
    cstep E late c (c\<lparr>c_store := e\<rparr>)"
| Renew: "lease_renew (c_now c) i (c_store c) = (Inr ttl, e) \<Longrightarrow> c_leads c p = Some (i, d) \<Longrightarrow>
    in_time E late (c\<lparr>c_store := e\<rparr>) i answer \<Longrightarrow>
    cstep E late c (c\<lparr>c_store := e, c_leads := (c_leads c)(p \<mapsto> (i, Some (stop_by E late answer)))\<rparr>)"
| RenewLost: "lease_renew (c_now c) i (c_store c) = (r, e) \<Longrightarrow> cstep E late c (c\<lparr>c_store := e\<rparr>)"
| Resign: "resign_txn (node E p) w (c_store c) = (r, e) \<Longrightarrow> a_leaderValue w = p \<Longrightarrow>
    cstep E late c (c\<lparr>c_store := e, c_leads := (c_leads c)(p := None)\<rparr>)"
| SinglePoint: "spm_campaign_txn (node E p) w (c_store c) = (Inr (True, rs), e) \<Longrightarrow> a_leaderValue w = p \<Longrightarrow>
    cstep E late c (c\<lparr>c_store := e, c_leads := (c_leads c)(p \<mapsto> (0, None))\<rparr>)"
| SinglePointResume: "spm_resume_txn (node E p) w (c_store c) = (Inr (True, rs), e) \<Longrightarrow> a_leaderValue w = p \<Longrightarrow>
    cstep E late c (c\<lparr>c_store := e, c_leads := (c_leads c)(p \<mapsto> (0, None))\<rparr>)"
| Put: "k \<noteq> fullLeaderPath E \<Longrightarrow> cstep E late c (c\<lparr>c_store := snd (etcd_put k v l (c_store c))\<rparr>)"
| Delete: "\<not> prefix k (fullLeaderPath E) \<Longrightarrow> cstep E late c (c\<lparr>c_store := snd (etcd_delete k b (c_store c))\<rparr>)"
| Leave: "cstep E late c (c\<lparr>c_leads := (c_leads c)(p := None)\<rparr>)"

definition cluster_start :: "etcd \<Rightarrow> cluster" where
  "cluster_start e = \<lparr>c_store = e, c_now = 0, c_leads = Map.empty\<rparr>"

section \<open>Leases in the store\<close>

lemma leases_apply_ops: "e_leases (snd (apply_ops r ops e)) = e_leases e"
proof (induction r ops e rule: apply_ops.induct)
  case (2 r x xs e)
  have "e_leases (snd (apply_op r x e)) = e_leases e" by (cases x) (simp_all add: store_put_def store_delete_def Let_def)
  with 2 show ?case by (auto split: prod.splits)
qed simp

lemma leases_txn: "e_leases (snd (etcd_txn cs ops e)) = e_leases e"
  using leases_apply_ops [of "e_rev e + 1" ops e] by (auto simp: etcd_txn_def Let_def split: prod.split)

lemma lookup_same_leases: "e_leases e' = e_leases e \<Longrightarrow> lease_lookup e' i = lease_lookup e i"
  by (simp add: lease_lookup_def)

lemma leases_put_delete: "e_leases (snd (etcd_put k v l e)) = e_leases e" "e_leases (snd (etcd_delete k b e)) = e_leases e"
  by (auto simp: etcd_put_def etcd_delete_def store_put_def Let_def)

lemma lookup_mem: "lease_lookup e i = Some l \<Longrightarrow> l \<in> set (e_leases e) \<and> l_id l = i"
  by (auto simp: lease_lookup_def find_Some_iff)

lemma lookup_grant: "wf_etcd e \<Longrightarrow> lease_lookup e i = Some l \<Longrightarrow> lease_lookup (snd (lease_grant now ttl e)) i = Some l"
  using lookup_mem [of e i l] wf_etcdD(4) [of e l] by (auto simp: lease_grant_def Let_def lease_lookup_def)

lemma lookup_renew:
  assumes "lease_lookup e i = Some l" and "l_expiry l \<le> now + l_ttl l * time_Second"
  shows "\<exists>l'. lease_lookup (snd (lease_renew now j e)) i = Some l' \<and> l_expiry l \<le> l_expiry l'"
proof -
  have "find (\<lambda>x. l_id x = i) (map (\<lambda>x. if l_id x = j then x\<lparr>l_expiry := now + l_ttl x * time_Second\<rparr> else x) ls) =
    map_option (\<lambda>x. if l_id x = j then x\<lparr>l_expiry := now + l_ttl x * time_Second\<rparr> else x) (find (\<lambda>x. l_id x = i) ls)" for ls
    by (induction ls) auto
  from this [of "e_leases e"] show ?thesis using assms by (auto simp: lease_renew_def lease_lookup_def split: option.split)
qed

lemma kv_get_filter_Some: "kv_get xs k = Some x \<Longrightarrow> P x \<Longrightarrow> kv_get (filter P xs) k = Some x"
  by (induction xs) (auto split: if_splits)

lemma revoke_other: "etcd_held e k = Some (v, j) \<Longrightarrow> j \<noteq> i \<Longrightarrow> etcd_held (lease_revoke i e) k = Some (v, j)"
  by (auto simp: lease_revoke_def etcd_held_def etcd_get_def kv_get_filter_Some)

lemma lookup_revoke: "lease_lookup e i = Some l \<Longrightarrow> j \<noteq> i \<Longrightarrow> lease_lookup (lease_revoke j e) i = Some l"
  by (auto simp: lease_revoke_def lease_lookup_def find_filter_neq)

section \<open>The invariant\<close>

definition lasts :: "cluster \<Rightarrow> int \<Rightarrow> int option \<Rightarrow> bool" where
  "lasts c i d \<longleftrightarrow>
     (case d of None \<Rightarrow> i = 0
      | Some t \<Rightarrow> c_now c < t \<and> (case lease_lookup (c_store c) i of None \<Rightarrow> False | Some l \<Rightarrow> t \<le> l_expiry l))"

definition cinv :: "agent_env \<Rightarrow> cluster \<Rightarrow> bool" where
  "cinv E c \<longleftrightarrow> wf_etcd (c_store c) \<and>
     (\<forall>l \<in> set (e_leases (c_store c)). l_expiry l \<le> c_now c + l_ttl l * time_Second) \<and>
     (\<forall>p i d. c_leads c p = Some (i, d) \<longrightarrow> etcd_held (c_store c) (fullLeaderPath E) = Some (p, i) \<and> lasts c i d)"

lemma cinvI:
  assumes "wf_etcd (c_store c)" and "\<And>l. l \<in> set (e_leases (c_store c)) \<Longrightarrow> l_expiry l \<le> c_now c + l_ttl l * time_Second"
    and "\<And>p i d. c_leads c p = Some (i, d) \<Longrightarrow> etcd_held (c_store c) (fullLeaderPath E) = Some (p, i) \<and> lasts c i d"
  shows "cinv E c"
  using assms by (simp add: cinv_def)

lemma cinvD:
  assumes "cinv E c"
  shows "wf_etcd (c_store c)" and "l \<in> set (e_leases (c_store c)) \<Longrightarrow> l_expiry l \<le> c_now c + l_ttl l * time_Second"
    and "c_leads c p = Some (i, d) \<Longrightarrow> etcd_held (c_store c) (fullLeaderPath E) = Some (p, i)"
    and "c_leads c p = Some (i, d) \<Longrightarrow> lasts c i d"
  using assms by (auto simp: cinv_def)

lemma lasts_leads [simp]: "lasts (c\<lparr>c_leads := L\<rparr>) i d = lasts c i d"
  by (simp add: lasts_def split: option.split)

lemma lasts_store: "e_leases e = e_leases (c_store c) \<Longrightarrow> lasts (c\<lparr>c_store := e\<rparr>) i d = lasts c i d"
  using lookup_same_leases [of e "c_store c" i] by (simp add: lasts_def split: option.split)

lemma lasts_mono:
  assumes "lasts c i d" and "c_now c' = c_now c"
    and "\<And>l. lease_lookup (c_store c) i = Some l \<Longrightarrow> \<exists>l'. lease_lookup (c_store c') i = Some l' \<and> l_expiry l \<le> l_expiry l'"
  shows "lasts c' i d"
proof (cases "lease_lookup (c_store c) i")
  case (Some l)
  with assms(3) obtain l' where "lease_lookup (c_store c') i = Some l'" "l_expiry l \<le> l_expiry l'" by blast
  then show ?thesis using assms(1,2) Some by (auto simp: lasts_def split: option.splits)
qed (use assms(1,2) in \<open>auto simp: lasts_def split: option.splits\<close>)

text \<open>A request that leaves the leader key alone and takes no lease away keeps the invariant.\<close>

lemma cinv_store:
  assumes c: "cinv E c" and "wf_etcd e" and "etcd_held e (fullLeaderPath E) = etcd_held (c_store c) (fullLeaderPath E)"
    and "\<And>l. l \<in> set (e_leases e) \<Longrightarrow> l_expiry l \<le> c_now c + l_ttl l * time_Second"
    and "\<And>i l. lease_lookup (c_store c) i = Some l \<Longrightarrow> \<exists>l'. lease_lookup e i = Some l' \<and> l_expiry l \<le> l_expiry l'"
  shows "cinv E (c\<lparr>c_store := e\<rparr>)"
proof (rule cinvI)
  fix p i d assume "c_leads (c\<lparr>c_store := e\<rparr>) p = Some (i, d)"
  then have p: "c_leads c p = Some (i, d)" by simp
  show "etcd_held (c_store (c\<lparr>c_store := e\<rparr>)) (fullLeaderPath E) = Some (p, i) \<and> lasts (c\<lparr>c_store := e\<rparr>) i d"
    using cinvD(3) [OF c p] lasts_mono [OF cinvD(4) [OF c p], of "c\<lparr>c_store := e\<rparr>"] assms(3,5) by simp
qed (use assms(2,4) in simp_all)

text \<open>So does one that gives the key to an agent, if no other one leads.\<close>

lemma cinv_take:
  assumes "cinv E c" and "wf_etcd e" and "etcd_held e (fullLeaderPath E) = Some (p, i)" and e: "e_leases e = e_leases (c_store c)"
    and "\<And>q x. c_leads c q = Some x \<Longrightarrow> q = p" and "lasts c i d"
  shows "cinv E (c\<lparr>c_store := e, c_leads := (c_leads c)(p \<mapsto> (i, d))\<rparr>)"
proof (rule cinvI)
  let ?c = "c\<lparr>c_store := e, c_leads := (c_leads c)(p \<mapsto> (i, d))\<rparr>"
  fix q j x assume "c_leads ?c q = Some (j, x)"
  then have "q = p" "j = i" "x = d" using assms(5) by (auto split: if_splits)
  then show "etcd_held (c_store ?c) (fullLeaderPath E) = Some (q, j) \<and> lasts ?c j x"
    using assms(3,6) by (simp add: lasts_store [OF e])
qed (use assms(2) cinvD(2) [OF assms(1)] e in simp_all)

lemma cinv_drop: "cinv E c \<Longrightarrow> cinv E (c\<lparr>c_leads := (c_leads c)(p := None)\<rparr>)"
  by (auto simp: cinv_def)

lemma node_paths: "fullPathOf (node E p) = fullPathOf E" "fullLeaderPath (node E p) = fullLeaderPath E"
  by (auto simp: node_def fullLeaderPath_def fullPathOf_def rootPath_def)

text \<open>The process of a leader ends before the lease does, if the answer came in time.\<close>

lemma stop_in_time:
  assumes "seconds_fit (LeaderLeaseTTL (e_cfg E))" and "seconds_fit (ShutdownThreshold (e_cfg E))" and "in_time E late c i answer"
  obtains l where "lease_lookup (c_store c) i = Some l" "stop_by E late answer \<le> l_expiry l" "c_now c < stop_by E late answer"
proof -
  from assms(3) obtain l where l: "lease_lookup (c_store c) i = Some l" "LeaderLeaseTTL (e_cfg E) \<le> l_ttl l"
    "c_now c < stop_by E late answer"
    "answer - (l_expiry l - l_ttl l * time_Second) + late + time_Second \<le> ShutdownThreshold (e_cfg E) * time_Second"
    by (auto simp: in_time_def split: option.splits)
  let ?t = "answer + LeaderLeaseTTL (e_cfg E) * time_Second - ShutdownThreshold (e_cfg E) * time_Second"
  have "stop_by E late answer = (?t div time_Second + 1) * time_Second + late"
    using seconds_fit_wrap(1) [OF assms(1)] seconds_fit_wrap [OF assms(2)] by (simp add: stop_by_def)
  also have "\<dots> \<le> ?t + time_Second + late" using second_bounds(1) [of ?t] by (simp add: algebra_simps)
  also have "\<dots> \<le> l_expiry l" using l(2,4) by (simp add: algebra_simps time_Second_def)
  finally show thesis using l that by blast
qed

lemma txn_kept:
  assumes "etcd_txn cs ops e0 = (r, e)" and "\<not> (\<exists>rs. r = Inr (True, rs))"
  shows "e = e0"
proof (cases r)
  case (Inr x)
  then show ?thesis using assms etcd_txn_False [of cs ops e0 _ e] by (cases x; cases "fst x") auto
qed (use assms(1) in \<open>auto dest: etcd_txn_Inl\<close>)

lemma campaign_free:
  assumes "cinv E c" and "etcd_txn [CmpCreateRevision (fullLeaderPath E) 0] ops (c_store c) = (Inr (True, rs), e)"
  shows "c_leads c q = None"
proof (rule ccontr)
  assume "c_leads c q \<noteq> None"
  then obtain i d where "c_leads c q = Some (i, d)" by auto
  moreover have "etcd_value (c_store c) (fullLeaderPath E) = None"
    using txn_compare [OF assms(2)] create_revision_zero assms(1) by (auto simp: cinv_def)
  ultimately show False using cinvD(3) [OF assms(1)] by (auto simp: etcd_value_held)
qed

lemma own_key:
  assumes "cinv E c" and "etcd_txn [leaderCmp (node E p) w] ops (c_store c) = (Inr (True, rs), e)" and "a_leaderValue w = p"
    and "c_leads c q = Some x"
  shows "q = p"
proof -
  have "etcd_value (c_store c) (fullLeaderPath E) = Some p"
    using txn_compare [OF assms(2)] assms(3) by (simp add: leaderCmp_value node_paths del: applyCompare.simps)
  moreover obtain i d where "x = (i, d)" by (cases x)
  ultimately show ?thesis using cinvD(3) [OF assms(1)] assms(4) by (auto simp: etcd_value_held)
qed

lemma put_leader: "0 < i \<Longrightarrow> OpPut (fullLeaderPath E) (a_leaderValue w) i \<in> set (leaderPutOps (node E p) w i t)"
  "OpPut (fullLeaderPath E) (a_leaderValue w) 0 \<in> set (leaderPutOps (node E p) w (- 1) t)"
  by (simp_all add: leaderPutOps_def Let_def node_paths fullLeaderPath_def)

lemma txn_store:
  assumes "etcd_txn cs ops e = (r, e')"
  shows "wf_etcd e \<Longrightarrow> wf_etcd e'" "e_leases e' = e_leases e"
  using wf_etcd_txn [of e cs ops] leases_txn [of cs ops e] assms by simp_all

lemma running_Some: "running t L p = Some (i, d) \<longleftrightarrow> L p = Some (i, d) \<and> (\<forall>x. d = Some x \<longrightarrow> t < x)"
  by (auto simp: running_def split: option.splits if_splits)

lemma cinv_pass:
  assumes c: "cinv E c" and "c_now c \<le> t"
  shows "cinv E (c\<lparr>c_now := t, c_leads := running t (c_leads c)\<rparr>)"
proof (rule cinvI)
  let ?c = "c\<lparr>c_now := t, c_leads := running t (c_leads c)\<rparr>"
  fix p i d assume "c_leads ?c p = Some (i, d)"
  then have p: "c_leads c p = Some (i, d)" "\<And>x. d = Some x \<Longrightarrow> t < x" by (simp_all add: running_Some)
  show "etcd_held (c_store ?c) (fullLeaderPath E) = Some (p, i) \<and> lasts ?c i d"
    using cinvD(3,4) [OF c p(1)] p(2) by (simp add: lasts_def split: option.splits)
next
  fix l assume "l \<in> set (e_leases (c_store (c\<lparr>c_now := t, c_leads := running t (c_leads c)\<rparr>)))"
  then show "l_expiry l \<le> c_now (c\<lparr>c_now := t, c_leads := running t (c_leads c)\<rparr>) + l_ttl l * time_Second"
    using cinvD(2) [OF c, of l] assms(2) by simp
qed (use cinvD(1) [OF c] in simp)

lemma cinv_expire:
  assumes c: "cinv E c" and l: "lease_lookup (c_store c) i = Some l" "l_expiry l \<le> c_now c"
  shows "cinv E (c\<lparr>c_store := lease_revoke i (c_store c)\<rparr>)"
proof (rule cinvI)
  let ?c = "c\<lparr>c_store := lease_revoke i (c_store c)\<rparr>"
  have i: "i \<noteq> 0" using lookup_mem [OF l(1)] wf_etcdD(4) [of "c_store c" l] cinvD(1) [OF c] by auto
  fix p j d assume "c_leads ?c p = Some (j, d)"
  then have p: "c_leads c p = Some (j, d)" by simp
  then have j: "j \<noteq> i" using cinvD(4) [OF c p] i l by (auto simp: lasts_def split: option.splits)
  then show "etcd_held (c_store ?c) (fullLeaderPath E) = Some (p, j) \<and> lasts ?c j d"
    using revoke_other [OF cinvD(3) [OF c p] j] lasts_mono [OF cinvD(4) [OF c p], of ?c] lookup_revoke [of "c_store c" j _ i] by auto
next
  fix x assume "x \<in> set (e_leases (c_store (c\<lparr>c_store := lease_revoke i (c_store c)\<rparr>)))"
  then show "l_expiry x \<le> c_now (c\<lparr>c_store := lease_revoke i (c_store c)\<rparr>) + l_ttl x * time_Second"
    using cinvD(2) [OF c, of x] by (auto simp: lease_revoke_def split: if_splits)
qed (use cinvD(1) [OF c] in \<open>simp add: wf_lease_revoke\<close>)

lemma cinv_renew:
  assumes c: "cinv E c" and r: "lease_renew (c_now c) i (c_store c) = (r, e)"
  shows "cinv E (c\<lparr>c_store := e\<rparr>)"
proof (rule cinv_store [OF c])
  have e: "e = snd (lease_renew (c_now c) i (c_store c))" using r by simp
  have b: "\<forall>l \<in> set (e_leases (c_store c)). l_expiry l \<le> c_now c + l_ttl l * time_Second" using c by (simp add: cinv_def)
  show "wf_etcd e" using c unfolding e by (simp add: cinv_def wf_lease_renew)
  show "etcd_held e (fullLeaderPath E) = etcd_held (c_store c) (fullLeaderPath E)" unfolding e by simp
  show "\<And>l. l \<in> set (e_leases e) \<Longrightarrow> l_expiry l \<le> c_now c + l_ttl l * time_Second"
    using b unfolding e by (auto simp: lease_renew_def split: option.splits if_splits)
  show "\<And>j l. lease_lookup (c_store c) j = Some l \<Longrightarrow> \<exists>l'. lease_lookup e j = Some l' \<and> l_expiry l \<le> l_expiry l'"
    unfolding e using b lookup_mem lookup_renew by blast
qed

lemma cinv_idle:
  assumes "cinv E c" and "etcd_txn cs ops (c_store c) = (r, e)" and "\<And>q. L q = None"
  shows "cinv E (c\<lparr>c_store := e, c_leads := L\<rparr>)"
  using assms(1,3) txn_store [OF assms(2)] by (simp add: cinv_def)

lemma cinv_lost:
  assumes "cinv E c" and "etcd_txn cs ops (c_store c) = (r, e)"
    and "\<And>rs. r = Inr (True, rs) \<Longrightarrow> c_leads c = Map.empty"
  shows "cinv E (c\<lparr>c_store := e\<rparr>)"
proof (cases "\<exists>rs. r = Inr (True, rs)")
  case True
  then have "c_leads c = Map.empty" using assms(3) by blast
  then show ?thesis using txn_store [OF assms(2)] assms(1) by (simp add: cinv_def)
next
  case False
  then show ?thesis using txn_kept [OF assms(2)] assms(1) by simp
qed

lemma cinv_won:
  assumes "cinv E c" and "etcd_txn cs ops (c_store c) = (Inr (True, rs), e)" and "OpPut (fullLeaderPath E) p i \<in> set ops"
    and "\<And>q x. c_leads c q = Some x \<Longrightarrow> q = p"
    and "lasts c i d"
  shows "cinv E (c\<lparr>c_store := e, c_leads := (c_leads c)(p \<mapsto> (i, d))\<rparr>)"
proof (rule cinv_take [OF assms(1) _ _ _ assms(4,5)])
  show "wf_etcd e" "e_leases e = e_leases (c_store c)" using txn_store [OF assms(2)] assms(1) by (simp_all add: cinv_def)
  show "etcd_held e (fullLeaderPath E) = Some (p, i)" by (rule etcd_txn_put [OF assms(2,3)])
qed

lemma lasts_deadline:
  assumes "seconds_fit (LeaderLeaseTTL (e_cfg E))" and "seconds_fit (ShutdownThreshold (e_cfg E))" and "in_time E late c i answer"
  shows "lasts c i (Some (stop_by E late answer))"
  by (rule stop_in_time [OF assms]) (simp add: lasts_def)

lemma cinv_leads_renew:
  assumes c: "cinv E c" and "c_leads c p = Some (i, d)" and "lasts c i x"
  shows "cinv E (c\<lparr>c_leads := (c_leads c)(p \<mapsto> (i, x))\<rparr>)"
proof (rule cinvI)
  fix q j y assume q: "c_leads (c\<lparr>c_leads := (c_leads c)(p \<mapsto> (i, x))\<rparr>) q = Some (j, y)"
  then show "etcd_held (c_store (c\<lparr>c_leads := (c_leads c)(p \<mapsto> (i, x))\<rparr>)) (fullLeaderPath E) = Some (q, j) \<and>
      lasts (c\<lparr>c_leads := (c_leads c)(p \<mapsto> (i, x))\<rparr>) j y"
    using assms(3) cinvD(3) [OF c assms(2)] cinvD(3,4) [OF c, of q j y] by (cases "q = p") auto
qed (use cinvD(1,2) [OF c] in simp_all)

lemma cstep_cinv:
  assumes "cstep E late c c'" and c: "cinv E c" and fit: "seconds_fit (LeaderLeaseTTL (e_cfg E))" "seconds_fit (ShutdownThreshold (e_cfg E))"
  shows "cinv E c'"
  using assms(1)
proof (cases rule: cstep.cases)
  case (Pass t)
  then show ?thesis using cinv_pass [OF c] by simp
next
  case (Grant ttl)
  show ?thesis unfolding Grant
  proof (rule cinv_store [OF c])
    fix l assume "l \<in> set (e_leases (snd (lease_grant (c_now c) ttl (c_store c))))"
    then show "l_expiry l \<le> c_now c + l_ttl l * time_Second"
      using cinvD(2) [OF c, of l] by (auto simp: lease_grant_def Let_def split: if_splits)
  qed (use cinvD(1) [OF c] lookup_grant in \<open>auto simp: wf_lease_grant\<close>)
next
  case (Expire i l)
  then show ?thesis using cinv_expire [OF c] by simp
next
  case (Campaign p w i rs e answer)
  note t = Campaign(2) [unfolded campaign_txn_def node_paths]
  show ?thesis unfolding Campaign(1)
    using campaign_free [OF c t] put_leader(1) [OF Campaign(4), of E w p] Campaign(3)
    by (intro cinv_won [OF c t] lasts_deadline [OF fit Campaign(5)]) auto
next
  case (CampaignLost p w i r e)
  note t = CampaignLost(2) [unfolded campaign_txn_def node_paths]
  show ?thesis unfolding CampaignLost(1) by (rule cinv_lost [OF c t]) (use campaign_free [OF c] t in blast)
next
  case (Resume p w i rs e answer)
  note t = Resume(2) [unfolded resume_txn_def]
  show ?thesis unfolding Resume(1)
    using own_key [OF c t Resume(3)] put_leader(1) [OF Resume(4), of E w p] Resume(3)
    by (intro cinv_won [OF c t] lasts_deadline [OF fit Resume(5)]) auto
next
  case (ResumeLost p w i r e)
  note t = ResumeLost(2) [unfolded resume_txn_def]
  have "c_leads c q = None" if "r = Inr (True, rs)" for q rs
    using own_key [OF c t [unfolded that] ResumeLost(3), of q] ResumeLost(4) by (cases "c_leads c q") auto
  then show ?thesis unfolding ResumeLost(1) by (intro cinv_lost [OF c t]) auto
next
  case (Renew i ttl e p d answer)
  show ?thesis using cinv_leads_renew [OF cinv_renew [OF c Renew(2)], of p i d] lasts_deadline [OF fit Renew(4)] Renew(1,3) by simp
next
  case (RenewLost i r e)
  then show ?thesis using cinv_renew [OF c] by simp
next
  case (Resign p w r e)
  note t = Resign(2) [unfolded resign_txn_def]
  show ?thesis
  proof (cases "\<exists>rs. r = Inr (True, rs)")
    case True
    then have "((c_leads c)(p := None)) q = None" for q
      using own_key [OF c _ Resign(3), of _ _ _ q] t by (cases "c_leads c q") auto
    then show ?thesis unfolding Resign(1) by (rule cinv_idle [OF c t])
  qed (use Resign(1) cinv_drop [OF c] txn_kept [OF t] in simp)
next
  case (SinglePoint p w rs e)
  note t = SinglePoint(2) [unfolded spm_campaign_txn_def node_paths]
  show ?thesis unfolding SinglePoint(1)
    using campaign_free [OF c t] put_leader(2) [of E w p] SinglePoint(3)
    by (intro cinv_won [OF c t]) (auto simp: lasts_def)
next
  case (SinglePointResume p w rs e)
  note t = SinglePointResume(2) [unfolded spm_resume_txn_def]
  show ?thesis unfolding SinglePointResume(1)
    using own_key [OF c t SinglePointResume(3)] put_leader(2) [of E w p] SinglePointResume(3)
    by (intro cinv_won [OF c t]) (auto simp: lasts_def)
next
  case (Put k v l)
  note s = leases_put_delete(1) [of k v l "c_store c"]
  show ?thesis unfolding Put(1)
    by (rule cinv_store [OF c])
      (use Put(2) cinvD(1,2) [OF c] s lookup_same_leases [OF s] held_other(1) [OF Put(2)] in \<open>simp_all add: wf_etcd_put\<close>)
next
  case (Delete k b)
  note s = leases_put_delete(2) [of k b "c_store c"]
  show ?thesis unfolding Delete(1)
    by (rule cinv_store [OF c])
      (use cinvD(1,2) [OF c] s lookup_same_leases [OF s] held_other(2) [OF Delete(2)] in \<open>simp_all add: wf_etcd_delete\<close>)
next
  case (Leave p)
  then show ?thesis using cinv_drop [OF c] by simp
qed

lemma csteps_cinv:
  assumes "(cstep E late)\<^sup>*\<^sup>* c c'" and "cinv E c"
    and "seconds_fit (LeaderLeaseTTL (e_cfg E))" and "seconds_fit (ShutdownThreshold (e_cfg E))"
  shows "cinv E c'"
  using assms(1,2) by (induction rule: rtranclp_induct) (use cstep_cinv assms(3,4) in blast)+

lemma csteps_pass:
  assumes "(cstep E late)\<^sup>*\<^sup>* c c'" and "c_now c' \<le> t"
  shows "(cstep E late)\<^sup>*\<^sup>* c (c'\<lparr>c_now := t, c_leads := running t (c_leads c')\<rparr>)"
  using assms(1) cstep.Pass [OF assms(2)] by (rule rtranclp.rtrancl_into_rtrancl)

section \<open>One leader\<close>

lemma cinv_start:
  "wf_etcd e \<Longrightarrow> list_all (\<lambda>l. l_expiry l \<le> l_ttl l * time_Second) (e_leases e) \<Longrightarrow> cinv E (cluster_start e)"
  by (simp add: cinv_def cluster_start_def list_all_iff)


section \<open>Programs as steps of the cluster\<close>

text \<open>An agent sees the store and the clock of its cluster, and what the others do between its requests are steps of the cluster.\<close>

definition view :: "cluster \<Rightarrow> agent \<Rightarrow> bool" where
  "view c w \<longleftrightarrow> c_store c = n_etcd w \<and> c_now c = n_clock w"

definition interleaved :: "agent_env \<Rightarrow> int \<Rightarrow> agent \<Rightarrow> bool" where
  "interleaved E late w \<longleftrightarrow> (\<forall>env st d1 d2 c. Rpc env st d1 d2 \<in> set (n_script w) \<longrightarrow>
     (\<exists>c'. (cstep E late)\<^sup>*\<^sup>* c c' \<and> c_store c' = env (c_store c) \<and> c_now c' = c_now c + int d1))"

lemma rpc_sim:
  assumes "rpc_call d f w = Ret r w'" and "view c w" and "interleaved E late w"
  obtains (unsent) c' where "(cstep E late)\<^sup>*\<^sup>* c c'" "view c' w'" "interleaved E late w'" "\<exists>x. r = Inl x"
  | (sent) c1 r1 where "(cstep E late)\<^sup>*\<^sup>* c c1" "f (c_now c1) (c_store c1) = (r1, n_etcd w')" "c_now c \<le> c_now c1" "c_now c1 \<le> n_clock w'"
      "r = r1 \<or> (\<exists>x. r = Inl x)" "interleaved E late w'" "net_only w w'"
proof (cases rule: rpc_call_cases [of d f w])
  case cancelled
  then show ?thesis using assms unsent [of c] by auto
next
  case wait
  then show ?thesis using assms(1) by simp
next
  case (lost env d1 d2 rest)
  from lost(2) assms(3) obtain c1 where c1: "(cstep E late)\<^sup>*\<^sup>* c c1" "c_store c1 = env (c_store c)" "c_now c1 = c_now c + int d1"
    unfolding interleaved_def by (metis list.set_intros(1))
  let ?t = "n_clock w + int d1 + int d2"
  show ?thesis
  proof (rule unsent)
    show "(cstep E late)\<^sup>*\<^sup>* c (c1\<lparr>c_now := ?t, c_leads := running ?t (c_leads c1)\<rparr>)"
      using c1(1) by (rule csteps_pass) (use c1(3) assms(2) in \<open>simp add: view_def\<close>)
    show "view (c1\<lparr>c_now := ?t, c_leads := running ?t (c_leads c1)\<rparr>) w'"
      using lost(3) assms(1,2) c1(2) by (auto simp: view_def)
    show "interleaved E late w'" using lost assms(1,3) by (auto simp: interleaved_def)
  qed (use lost assms(1) in auto)
next
  case (applied env st d1 d2 rest r1)
  from applied(2) assms(3) obtain c1 where c1: "(cstep E late)\<^sup>*\<^sup>* c c1" "c_store c1 = env (c_store c)" "c_now c1 = c_now c + int d1"
    unfolding interleaved_def by (metis list.set_intros(1))
  show ?thesis
  proof (rule sent [OF c1(1)])
    show "f (c_now c1) (c_store c1) = (fst (f (c_now c1) (c_store c1)), n_etcd w')"
      using applied(4) assms(1,2) c1 by (auto simp: view_def)
    show "interleaved E late w'" using applied assms(1,3) by (auto simp: interleaved_def)
    show "net_only w w'" using assms(1) by (rule net_only_rpc)
  qed (use applied(3,4) assms(1,2) c1 in \<open>auto simp: view_def\<close>)
qed

text \<open>A lease keeps its duration, is never cut short while it exists, and its number is not given out again.\<close>

definition granted :: "int \<Rightarrow> int \<Rightarrow> int \<Rightarrow> cluster \<Rightarrow> bool" where
  "granted i ttl t c \<longleftrightarrow> t \<le> c_now c \<and> i < e_next (c_store c) \<and>
     (\<forall>l. lease_lookup (c_store c) i = Some l \<longrightarrow> l_ttl l = ttl \<and> t + ttl * time_Second \<le> l_expiry l)"

lemma granted_same:
  "granted i ttl t c \<Longrightarrow> e_leases e = e_leases (c_store c) \<Longrightarrow> e_next e = e_next (c_store c) \<Longrightarrow> granted i ttl t (c\<lparr>c_store := e\<rparr>)"
  using lookup_same_leases [of e "c_store c" i] by (simp add: granted_def)

lemma granted_leads [simp]: "granted i ttl t (c\<lparr>c_leads := L\<rparr>) = granted i ttl t c"
  by (simp add: granted_def)

lemma next_txn: "e_next (snd (etcd_txn cs ops e)) = e_next e"
proof -
  have "e_next (snd (apply_ops r ops e)) = e_next e" for r
  proof (induction r ops e rule: apply_ops.induct)
    case (2 r x xs e)
    have "e_next (snd (apply_op r x e)) = e_next e" by (cases x) (simp_all add: store_put_def store_delete_def Let_def)
    with 2 show ?case by (auto split: prod.splits)
  qed simp
  from this [of "e_rev e + 1"] show ?thesis by (auto simp: etcd_txn_def Let_def split: prod.split)
qed

lemma next_put_delete: "e_next (snd (etcd_put k v l e)) = e_next e" "e_next (snd (etcd_delete k b e)) = e_next e"
  by (auto simp: etcd_put_def etcd_delete_def store_put_def Let_def)

lemma granted_txn: "granted i ttl t c \<Longrightarrow> etcd_txn cs ops (c_store c) = (r, e) \<Longrightarrow> granted i ttl t (c\<lparr>c_store := e\<rparr>)"
  using granted_same leases_txn [of cs ops "c_store c"] next_txn [of cs ops "c_store c"] by (metis snd_conv)

lemma granted_grant: "granted i ttl t c \<Longrightarrow> granted i ttl t (c\<lparr>c_store := snd (lease_grant n x (c_store c))\<rparr>)"
  by (auto simp: granted_def lease_grant_def Let_def lease_lookup_def)

lemma granted_revoke: "granted i ttl t c \<Longrightarrow> granted i ttl t (c\<lparr>c_store := lease_revoke j (c_store c)\<rparr>)"
proof (cases "i = j")
  case True
  have "find (\<lambda>l. l_id l = j) (filter (\<lambda>l. l_id l \<noteq> j) ls) = None" for ls :: "lease list" by (induction ls) auto
  from this [of "e_leases (c_store c)"] show "granted i ttl t c \<Longrightarrow> ?thesis" using True by (auto simp: granted_def lease_revoke_def lease_lookup_def)
qed (simp add: granted_def lease_revoke_def lease_lookup_def find_filter_neq)

lemma granted_renew:
  assumes "granted i ttl t c"
  shows "granted i ttl t (c\<lparr>c_store := snd (lease_renew (c_now c) j (c_store c))\<rparr>)"
proof -
  let ?f = "\<lambda>x. if l_id x = j then x\<lparr>l_expiry := c_now c + l_ttl x * time_Second\<rparr> else x"
  have "lease_lookup (c_store c\<lparr>e_leases := map ?f (e_leases (c_store c))\<rparr>) i = map_option ?f (lease_lookup (c_store c) i)"
    unfolding lease_lookup_def by (simp add: find_map_id)
  then show ?thesis using assms by (auto simp: granted_def lease_renew_def split: option.splits)
qed

lemma cstep_granted:
  assumes "cstep E late c c'" and "granted i ttl t c"
  shows "granted i ttl t c'"
  using assms(1)
proof (cases rule: cstep.cases)
  case (Pass u)
  then show ?thesis using assms(2) by (simp add: granted_def)
next
  case (Renew j x e p d answer)
  then show ?thesis using granted_renew [OF assms(2), of j] by simp
next
  case (RenewLost j r e)
  then show ?thesis using granted_renew [OF assms(2), of j] by simp
next
  case (Put k v l)
  then show ?thesis using granted_same [OF assms(2)] leases_put_delete next_put_delete by simp
next
  case (Delete k b)
  then show ?thesis using granted_same [OF assms(2)] leases_put_delete next_put_delete by simp
qed (use assms(2) granted_txn [OF assms(2)] granted_grant granted_revoke in
    \<open>simp_all add: campaign_txn_def resume_txn_def resign_txn_def spm_campaign_txn_def spm_resume_txn_def\<close>)

lemma csteps_granted: "(cstep E late)\<^sup>*\<^sup>* c c' \<Longrightarrow> granted i ttl t c \<Longrightarrow> granted i ttl t c'"
  by (induction rule: rtranclp_induct) (use cstep_granted in blast)+

lemma grant_granted:
  assumes "lease_grant (c_now c) ttl (c_store c) = (Inr i, e)" and "wf_etcd (c_store c)"
  shows "0 < i" and "\<exists>t. ttl \<le> t \<and> granted i t (c_now c) (c\<lparr>c_store := e\<rparr>)"
  using assms by (auto simp: lease_grant_def Let_def granted_def lease_lookup_def wf_etcd_def split: if_splits)

lemma granted_in_time:
  assumes fit: "seconds_fit (LeaderLeaseTTL (e_cfg E))" "seconds_fit (ShutdownThreshold (e_cfg E))"
    and "granted i ttl t c" and "LeaderLeaseTTL (e_cfg E) \<le> ttl" and "lease_lookup (c_store c) i \<noteq> None" and "c_now c \<le> answer"
    and "answer - t + late + time_Second \<le> ShutdownThreshold (e_cfg E) * time_Second" and "answer < stop_by E late answer"
  shows "in_time E late c i answer"
  using assms(3-) by (auto simp: in_time_def granted_def)

lemma answer_before_stop:
  assumes "seconds_fit (LeaderLeaseTTL (e_cfg E))" "seconds_fit (ShutdownThreshold (e_cfg E))"
    and "ShutdownThreshold (e_cfg E) \<le> LeaderLeaseTTL (e_cfg E)" and "0 \<le> late"
  shows "t < stop_by E late t"
proof -
  let ?t = "t + LeaderLeaseTTL (e_cfg E) * time_Second - ShutdownThreshold (e_cfg E) * time_Second"
  have "t \<le> ?t" using assms(3) by (simp add: time_Second_def)
  also have "\<dots> < (?t div time_Second + 1) * time_Second" using second_bounds(2) [of ?t] .
  finally show ?thesis using seconds_fit_wrap(1) [OF assms(1)] seconds_fit_wrap [OF assms(2)] assms(4) by (simp add: stop_by_def)
qed

lemma txn_lease_exists:
  assumes "etcd_txn cs ops e = (Inr (True, rs), e')" and "OpPut k v i \<in> set ops" and "0 < i"
  shows "lease_lookup e i \<noteq> None"
  using etcd_txn_True [OF assms(1)] assms(2,3) by (auto simp: list_all_iff)

lemma lease_txn_sim:
  assumes run: "lease_txn E cm ops w = Ret r w'" and v: "view c w" "interleaved E late w" and c: "cinv E c"
    and fit: "seconds_fit (LeaderLeaseTTL (e_cfg E))" "seconds_fit (ShutdownThreshold (e_cfg E))"
  obtains (none) c' where "(cstep E late)\<^sup>*\<^sup>* c c'" "view c' w'" "\<And>i. r \<noteq> Inr (Some i)"
  | (sent) c1 i ttl r1 t where "(cstep E late)\<^sup>*\<^sup>* c c1" "etcd_txn [cm] (ops i) (c_store c1) = (r1, n_etcd w')" "c_now c1 \<le> n_clock w'"
      "0 < i" "granted i ttl t c1" "LeaderLeaseTTL (e_cfg E) \<le> ttl" "n_clock w \<le> t"
      "\<And>j. r = Inr (Some j) \<Longrightarrow> j = i \<and> (\<exists>rs. r1 = Inr (True, rs))"
proof -
  from run obtain g w1 where g: "rpc_call (a_ctxDone w) (\<lambda>now. lease_grant now (LeaderLeaseTTL (e_cfg E))) w = Ret g w1"
    and k: "(case g of Inl e \<Rightarrow> ret (Inl e) | Inr i \<Rightarrow> andthen (Client_Txn (a_ctxDone w) [cm] (ops i)) (\<lambda>r. case r of
           Inl e \<Rightarrow> ret (Inl e) | Inr (ok, _) \<Rightarrow> ret (Inr (if ok then Some i else None)))) w1 = Ret r w'"
    by (auto simp: lease_txn_def Lease_Grant_def elim!: andthen_RetE)
  show thesis
  proof (cases rule: rpc_sim [OF g v])
    case (1 c')
    then show ?thesis using none k by auto
  next
    case (2 c1 g1)
    let ?c = "c1\<lparr>c_store := n_etcd w1\<rparr>" and ?t = "n_clock w1"
    have s: "(cstep E late)\<^sup>*\<^sup>* c ?c" using 2(1,2) cstep.Grant [of E late c1 "LeaderLeaseTTL (e_cfg E)"] by simp
    let ?c' = "?c\<lparr>c_now := ?t, c_leads := running ?t (c_leads ?c)\<rparr>"
    have s': "(cstep E late)\<^sup>*\<^sup>* c ?c'" using s by (rule csteps_pass) (use 2(4) in simp)
    have v': "view ?c' w1" by (simp add: view_def)
    show ?thesis
    proof (cases g)
      case (Inl e)
      then show ?thesis using none [OF s'] v' k by auto
    next
      case (Inr i)
      with 2(2,5) have g1: "lease_grant (c_now c1) (LeaderLeaseTTL (e_cfg E)) (c_store c1) = (Inr i, n_etcd w1)" by auto
      have wf: "wf_etcd (c_store c1)" by (rule cinvD(1) [OF csteps_cinv [OF 2(1) c fit]])
      obtain ttl where ttl: "LeaderLeaseTTL (e_cfg E) \<le> ttl" "granted i ttl (c_now c1) ?c" "0 < i" using grant_granted [OF g1 wf] by blast
      have gr: "granted i ttl (c_now c1) ?c'" using ttl(2) 2(4) by (simp add: granted_def)
      from k Inr obtain tr where t: "rpc_call (a_ctxDone w) (\<lambda>_. etcd_txn [cm] (ops i)) w1 = Ret tr w'"
        and r: "\<And>j. r = Inr (Some j) \<Longrightarrow> j = i \<and> (\<exists>rs. tr = Inr (True, rs))"
        by (auto simp: Client_Txn_def elim!: andthen_RetE split: sum.splits prod.splits if_splits)
      show ?thesis
      proof (cases rule: rpc_sim [OF t v' 2(6)])
        case (1 c2)
        have "(cstep E late)\<^sup>*\<^sup>* c c2" using s' 1(1) by simp
        then show ?thesis by (rule none) (use 1 r in auto)
      next
        case (2 c2 r1)
        show ?thesis
        proof (rule sent [OF _ 2(2,4) ttl(3) csteps_granted [OF 2(1) gr] ttl(1)])
          show "(cstep E late)\<^sup>*\<^sup>* c c2" using s' 2(1) by simp
          show "n_clock w \<le> c_now c1" using \<open>c_now c \<le> c_now c1\<close> v(1) by (simp add: view_def)
        qed (use r 2(5) in auto)
      qed
    qed
  qed
qed

text \<open>
  C2: a run of \<open>campaignLeader\<close>, with whatever the other agents do between its requests, is a sequence of steps of the
  cluster, however it ends; and when it reports a win within the shutdown threshold of its start, the agent leads in
  the cluster, under the lease it was granted, until the time at which its monitor ends the process.
\<close>

theorem campaign_refines:
  assumes run: "campaignLeader E w = Ret r w'" and v: "view c w" "interleaved E late w" and c: "cinv E c" and own: "a_leaderValue w = e_id E"
    and fit: "seconds_fit (LeaderLeaseTTL (e_cfg E))" "seconds_fit (ShutdownThreshold (e_cfg E))"
      "ShutdownThreshold (e_cfg E) \<le> LeaderLeaseTTL (e_cfg E)" "0 \<le> late"
  shows "\<exists>c'. (cstep E late)\<^sup>*\<^sup>* c c' \<and> view c' w' \<and>
    (\<forall>i. r = Inr (Some i) \<and> n_clock w' - n_clock w + late + time_Second \<le> ShutdownThreshold (e_cfg E) * time_Second \<longrightarrow>
      c_leads c' (e_id E) = Some (i, Some (stop_by E late (n_clock w'))))"
proof -
  let ?ops = "\<lambda>i. leaderPutOps E w i (a_term w + 1) @ myTermPutOps E w True" and ?t = "n_clock w'"
  have lt: "lease_txn E (CmpCreateRevision (fullLeaderPath E) 0) ?ops w = Ret r w'" using run by (simp add: campaignLeader_def)
  show ?thesis
  proof (cases rule: lease_txn_sim [OF lt v c fit(1,2)])
    case (1 c')
    then show ?thesis by blast
  next
    case (2 c1 i ttl r1 t)
    note sent = this
    have E: "node E (e_id E) = E" by (simp add: node_def)
    have x: "campaign_txn (node E (e_id E)) w i (c_store c1) = (r1, n_etcd w')" using sent(2) by (simp add: campaign_txn_def E)
    let ?lost = "c1\<lparr>c_store := n_etcd w'\<rparr>"
    let ?won = "c1\<lparr>c_store := n_etcd w', c_leads := (c_leads c1)(e_id E \<mapsto> (i, Some (stop_by E late ?t)))\<rparr>"
    show ?thesis
    proof (cases "r = Inr (Some i) \<and> ?t - n_clock w + late + time_Second \<le> ShutdownThreshold (e_cfg E) * time_Second")
      case True
      then obtain rs where rs: "r1 = Inr (True, rs)" using sent(8) by blast
      have l: "lease_lookup (c_store c1) i \<noteq> None"
        using txn_lease_exists [OF sent(2) [unfolded rs] _ sent(4)] put_leader(1) [OF sent(4), of E w "e_id E"] E by (metis Un_iff set_append)
      have "in_time E late c1 i ?t"
        using True sent(3,7) by (intro granted_in_time [OF fit(1,2) sent(5,6) l] answer_before_stop [OF fit]) auto
      then have "cstep E late c1 ?won" using x rs own sent(4) by (intro cstep.Campaign) auto
      then have "(cstep E late)\<^sup>*\<^sup>* c ?won" using sent(1) by simp
      from csteps_pass [OF this, of ?t] show ?thesis using sent(3) True answer_before_stop [OF fit, of ?t]
        by (intro exI [of _ "?won\<lparr>c_now := ?t, c_leads := running ?t (c_leads ?won)\<rparr>"]) (auto simp: view_def running_def)
    next
      case False
      have "cstep E late c1 ?lost" using cstep.CampaignLost [OF x sent(4)] .
      then have "(cstep E late)\<^sup>*\<^sup>* c ?lost" using sent(1) by simp
      from csteps_pass [OF this, of ?t] show ?thesis using sent(3,8) False
        by (intro exI [of _ "?lost\<lparr>c_now := ?t, c_leads := running ?t (c_leads ?lost)\<rparr>"]) (auto simp: view_def)
    qed
  qed
qed

section \<open>Examples\<close>

lemma ex_fit: "seconds_fit (LeaderLeaseTTL (e_cfg (ex_env i)))" "seconds_fit (ShutdownThreshold (e_cfg (ex_env i)))"
  by (simp_all add: seconds_fit_def time_Second_def)

definition ex_granted :: etcd where
  "ex_granted = snd (lease_grant 0 10 empty_etcd)"

lemma ex_granted_eq: "ex_granted = empty_etcd\<lparr>e_leases := [\<lparr>l_id = 1, l_ttl = 10, l_expiry = 10 * time_Second\<rparr>], e_next := 2\<rparr>"
  by (simp add: ex_granted_def lease_grant_def MaxLeaseTTL_def empty_etcd_def)

lemma ex_campaign_txn: "\<exists>rs e. campaign_txn (node (ex_env ''n2'') ''n1'') (ex_agent ''n1'' empty_etcd [] []) 1 ex_granted = (Inr (True, rs), e)"
proof -
  have n: "node (ex_env ''n2'') ''n1'' = ex_env ''n1''" by (simp add: node_def ex_env_def)
  let ?ops = "leaderPutOps (ex_env ''n1'') (ex_agent ''n1'' empty_etcd [] []) 1 (a_term (ex_agent ''n1'' empty_etcd [] []) + 1) @
    myTermPutOps (ex_env ''n1'') (ex_agent ''n1'' empty_etcd [] []) True"
  have "op_lease_ok ex_granted x" if "x \<in> set ?ops" for x
    using that by (auto simp: leaderPutOps_def myTermPutOps_def Let_def ex_granted_eq lease_lookup_def)
  then have "list_all (op_lease_ok ex_granted) ?ops" by (simp add: list_all_iff)
  then show ?thesis unfolding campaign_txn_def n etcd_txn_def
    using checkTxn_campaign(1) [OF ex_env_wf(1)] by (simp add: ex_granted_eq empty_etcd_def etcd_get_def split_beta Let_def)
qed


lemma quiet_interleaved: "list_all (\<lambda>x. x = rpc_ok) (n_script w) \<Longrightarrow> interleaved E late w"
  unfolding interleaved_def
proof (intro allI impI)
  fix env st d1 d2 and c :: cluster
  assume "list_all (\<lambda>x. x = rpc_ok) (n_script w)" and "Rpc env st d1 d2 \<in> set (n_script w)"
  then have "env = id" by (auto simp: list_all_iff rpc_ok_def)
  then show "\<exists>c'. (cstep E late)\<^sup>*\<^sup>* c c' \<and> c_store c' = env (c_store c) \<and> c_now c' = c_now c + int d1"
    using csteps_pass [OF rtranclp.rtrancl_refl, of c "c_now c + int d1" E late] by fastforce
qed

theorem campaign_refines_witness:
  "\<exists>c. (cstep (ex_env ''n1'') 0)\<^sup>*\<^sup>* (cluster_start empty_etcd) c \<and> c_leads c ''n1'' = Some (1, Some (8 * time_Second))"
proof -
  let ?E = "ex_env ''n1''" and ?w = "ex_agent ''n1'' empty_etcd [rpc_ok, rpc_ok] []"
  note run = ret_value_Some [OF ex_campaign [of "[]"]]
  have "n_clock (final_world (campaignLeader ?E ?w)) = 4"
    by (simp add: campaignLeader_def lease_txn_def andthen_def Lease_Grant_def Client_Txn_def rpc_call_def rpc_ok_def ex_agent_def
      lease_grant_def MaxLeaseTTL_def Let_def split: sum.split)
  moreover have "view (cluster_start empty_etcd) ?w" by (simp add: view_def cluster_start_def ex_agent_def)
  moreover have "interleaved ?E 0 ?w" by (rule quiet_interleaved) (simp add: ex_agent_def)
  moreover have "cinv ?E (cluster_start empty_etcd)" by (rule cinv_start [OF wf_empty_etcd]) (simp add: empty_etcd_def)
  moreover have "stop_by ?E 0 4 = 8 * time_Second" by (simp add: stop_by_def time_Second_def wrap64_def)
  ultimately show ?thesis using campaign_refines [OF run, of "cluster_start empty_etcd" 0] ex_fit [of "''n1''"]
    by (auto simp: ex_agent_def time_Second_def)
qed

end
