(* ===== verification/Supervise.thy ===== *)
theory Supervise
  imports Eventfd
begin

text \<open>
  The supervisor of an agent, \<open>src/supervise/supervise.c\<close>: it starts the agent, waits for its ticks on the
  event descriptor, starts it again when it fails, and ends by shutting the database down and becoming the tear-down program. The
  kernel's part is the world: the counter of the descriptor, the children that live and those that have exited and are not yet
  waited for, and what the coming calls of \<open>fork\<close> return. What happens while the supervisor waits in
  \<open>epoll_wait\<close> is a list of events, with the signals that arrive; a handler runs as one step there. The programs that \<open>execl\<close> names exist.
\<close>

unbundle bit_operations_syntax

section \<open>Processes\<close>

datatype sup_signal = SIGHUP | SIGINT | SIGTERM | SIGQUIT | SIGCHLD

text \<open>The other processes the supervisor starts or becomes, and that one could not be started.\<close>

datatype sup_action = StartAgent int | ShutdownMysql int | ForkFailed | TearDown

record sup =
  s_counter :: u64
  s_closed :: bool
  s_agentpid :: int
  s_servicepid :: int
  s_children :: "int list"
  s_zombies :: "(int \<times> 32 word) list"
  s_forks :: "int list"
  s_trace :: "sup_action list"

type_synonym 'a sup_io = "(sup, 'a) io"

definition fork :: "int sup_io" where
  "fork w = (case s_forks w of
       [] \<Rightarrow> Ret (- 1) w
     | p # ps \<Rightarrow> Ret p (w\<lparr>s_forks := ps, s_children := (if 0 < p then p # s_children w else s_children w)\<rparr>))"

definition act :: "sup_action \<Rightarrow> unit sup_io" where
  "act a = updates (\<lambda>w. w\<lparr>s_trace := s_trace w @ [a]\<rparr>)"

definition exits :: "(int \<times> 32 word) list \<Rightarrow> unit sup_io" where
  "exits xs = updates (\<lambda>w. w\<lparr>s_children := filter (\<lambda>p. p \<notin> fst ` set xs) (s_children w), s_zombies := s_zombies w @ xs\<rparr>)"

text \<open>The call \<open>waitpid(-1, status, WNOHANG)\<close>.\<close>

definition waitpid :: "(int \<times> 32 word) sup_io" where
  "waitpid w = (case s_zombies w of
       z # zs \<Rightarrow> Ret z (w\<lparr>s_zombies := zs\<rparr>)
     | [] \<Rightarrow> if s_children w = [] then Ret (- 1, 0) w else Ret (0, 0) w)"

definition WIFEXITED :: "32 word \<Rightarrow> bool" where
  "WIFEXITED st \<longleftrightarrow> st AND 0x7f = 0"

definition WEXITSTATUS :: "32 word \<Rightarrow> 32 word" where
  "WEXITSTATUS st = drop_bit 8 st AND 0xff"

text \<open>The status of a process that called \<open>exit\<close>, and of one that a signal ended.\<close>

definition exited_status :: "nat \<Rightarrow> 32 word" where
  "exited_status c = push_bit 8 (of_nat (c mod 256))"

definition killed_status :: "nat \<Rightarrow> 32 word" where
  "killed_status sig = of_nat (sig mod 128)"

section \<open>The supervisor\<close>

definition CHILD_INIT_WAIT :: int where
  "CHILD_INIT_WAIT = 60000"

definition EPOLL_TIMEOUT :: int where
  "EPOLL_TIMEOUT = 5000"

definition sup_init :: "unit sup_io" where
  "sup_init = updates (\<lambda>w. w\<lparr>s_counter := 0, s_closed := False\<rparr>)"

text \<open>The parent runs the tear-down hook whatever \<open>fork\<close> returned to it.\<close>

definition destroy :: "unit sup_io" where
  "destroy =
     andthen (updates (\<lambda>w. w\<lparr>s_closed := True\<rparr>)) (\<lambda>_.
     andthen fork (\<lambda>ret_pid.
     andthen (if 0 < ret_pid then act (ShutdownMysql ret_pid) else act ForkFailed) (\<lambda>_.
     andthen (act TearDown) (\<lambda>_. os_Exit 0))))"

definition start_agent :: "unit sup_io" where
  "start_agent =
     andthen fork (\<lambda>p.
     andthen (if 0 < p then act (StartAgent p) else act ForkFailed) (\<lambda>_.
     updates (\<lambda>w. w\<lparr>s_agentpid := p\<rparr>)))"

definition handle_child_exit :: "32 word \<Rightarrow> int sup_io" where
  "handle_child_exit status =
     (let exit_status = WEXITSTATUS status in
      if WIFEXITED status \<and> (exit_status = 0 \<or> exit_status = 3) then ret (- 1)
      else andthen start_agent (\<lambda>_. ret 0))"

definition wait_child_pid :: "(int \<times> 32 word) sup_io" where
  "wait_child_pid =
     andthen waitpid (\<lambda>(cpid, status).
     andthen (reads id) (\<lambda>w.
       if cpid = 0 then ret (0, status)
       else if cpid = - 1 then ret (- 1, status)
       else if cpid = s_agentpid w then ret (1, status)
       else if cpid = s_servicepid w then ret (2, status)
       else ret (3, status)))"

definition sig_handler_exit :: "unit sup_io" where
  "sig_handler_exit = andthen destroy (\<lambda>_. os_Exit 0)"

definition sig_handler_child :: "unit sup_io" where
  "sig_handler_child =
     andthen wait_child_pid (\<lambda>(r, status).
       if r = 2 then destroy
       else if r = 1 then
         andthen (handle_child_exit status) (\<lambda>h. if h < 0 then destroy else ret ())
       else ret ())"

definition register_signal_handler :: "sup_signal \<Rightarrow> unit sup_io" where
  "register_signal_handler sig =
     (case sig of
        SIGHUP \<Rightarrow> ret ()
      | SIGINT \<Rightarrow> sig_handler_exit
      | SIGTERM \<Rightarrow> sig_handler_exit
      | SIGQUIT \<Rightarrow> sig_handler_exit
      | SIGCHLD \<Rightarrow> sig_handler_child)"

text \<open>
  What meets the supervisor while it waits: writes to the descriptor; the end of the timeout; a signal, after some
  children exited, that interrupts \<open>epoll_wait\<close>, or whose handler runs just before the call; another error of the call.
\<close>

datatype sup_event =
    EvReady "u64 list"
  | EvTimeout
  | EvSignal sup_signal "(int \<times> 32 word) list"
  | EvSignalBefore sup_signal "(int \<times> 32 word) list"
  | EvError

definition service_pid :: "u64 \<Rightarrow> int" where
  "service_pid val = sint (ucast (drop_bit 32 val) :: 32 word)"

definition read_event :: "unit sup_io" where
  "read_event =
     updates (\<lambda>w. case eventfd_read (s_counter w) of
         (None, c) \<Rightarrow> w
       | (Some val, c) \<Rightarrow>
           if 1 < val \<and> 0 < service_pid val then w\<lparr>s_counter := c, s_servicepid := service_pid val\<rparr>
           else w\<lparr>s_counter := c\<rparr>)"

definition fd_writes :: "u64 list \<Rightarrow> u64 \<Rightarrow> u64" where
  "fd_writes vs c = fold (\<lambda>v c. snd (WriteToEventfd v c)) vs c"

fun detect_child_alive :: "int \<Rightarrow> sup_event list \<Rightarrow> (int \<times> sup_event list) sup_io" where
  "detect_child_alive epoll_timeout [] = (\<lambda>w. Wait w)"
| "detect_child_alive epoll_timeout (EvReady vs # evs) =
     andthen (updates (\<lambda>w. w\<lparr>s_counter := fd_writes vs (s_counter w)\<rparr>)) (\<lambda>_.
     andthen (reads s_counter) (\<lambda>c.
       if c = 0 then detect_child_alive epoll_timeout evs
       else andthen read_event (\<lambda>_. ret (1, evs))))"
| "detect_child_alive epoll_timeout (EvTimeout # evs) = ret (0, evs)"
| "detect_child_alive epoll_timeout (EvSignal sig xs # evs) =
     andthen (exits xs) (\<lambda>_. andthen (register_signal_handler sig) (\<lambda>_.
       detect_child_alive (go_div epoll_timeout 2 + 1) evs))"
| "detect_child_alive epoll_timeout (EvSignalBefore sig xs # evs) =
     andthen (exits xs) (\<lambda>_. andthen (register_signal_handler sig) (\<lambda>_.
       detect_child_alive epoll_timeout evs))"
| "detect_child_alive epoll_timeout (EvError # evs) = ret (- 2, evs)"

text \<open>One round after a round without a tick: whether the loop returns.\<close>

definition child_stopped :: "bool sup_io" where
  "child_stopped =
     andthen wait_child_pid (\<lambda>(r, status).
       if r = 0 then ret True
       else if r = 2 then andthen destroy (\<lambda>_. ret False)
       else if 0 < r then andthen (handle_child_exit status) (\<lambda>h. ret (h < 0))
       else ret True)"

fun run_server :: "nat \<Rightarrow> sup_event list \<Rightarrow> unit sup_io" where
  "run_server 0 evs = (\<lambda>w. Wait w)"
| "run_server (Suc n) evs =
     andthen (detect_child_alive EPOLL_TIMEOUT evs) (\<lambda>(alive_result, evs').
       if 0 < alive_result then run_server n evs'
       else andthen child_stopped (\<lambda>stop. if stop then ret () else run_server n evs'))"

definition sup_main :: "sup_event list \<Rightarrow> unit sup_io" where
  "sup_main evs =
     andthen sup_init (\<lambda>_.
     andthen start_agent (\<lambda>_.
     andthen (detect_child_alive CHILD_INIT_WAIT evs) (\<lambda>(alive_result, evs').
       if alive_result < 0 then destroy
       else andthen (run_server (Suc (length evs')) evs') (\<lambda>_. destroy))))"

section \<open>The end of the supervisor\<close>

fun starts :: "sup_action \<Rightarrow> bool" where
  "starts (StartAgent p) \<longleftrightarrow> True"
| "starts ForkFailed \<longleftrightarrow> True"
| "starts _ \<longleftrightarrow> False"

definition supervising :: "sup \<Rightarrow> bool" where
  "supervising w \<longleftrightarrow> list_all starts (s_trace w)"

definition torn_down :: "sup \<Rightarrow> bool" where
  "torn_down w \<longleftrightarrow> s_closed w \<and>
     (case rev (s_trace w) of
        TearDown # ShutdownMysql p # tr \<Rightarrow> list_all starts (rev tr)
      | TearDown # ForkFailed # tr \<Rightarrow> list_all starts (rev tr)
      | _ \<Rightarrow> False)"

definition fenced :: "'a sup_io \<Rightarrow> bool" where
  "fenced m \<longleftrightarrow> (\<forall>w. supervising w \<longrightarrow> (case m w of
       Ret a w' \<Rightarrow> supervising w' | Wait w' \<Rightarrow> supervising w' | Panic w' \<Rightarrow> False | Exit c w' \<Rightarrow> c = 0 \<and> torn_down w'))"

lemma fenced_andthen: "fenced m \<Longrightarrow> (\<And>a. fenced (f a)) \<Longrightarrow> fenced (andthen m f)"
proof -
  assume m: "fenced m" and f: "\<And>a. fenced (f a)"
  show ?thesis unfolding fenced_def
  proof (intro allI impI)
    fix w assume w: "supervising w"
    show "case andthen m f w of Ret a w' \<Rightarrow> supervising w' | Wait w' \<Rightarrow> supervising w' | Panic w' \<Rightarrow> False | Exit c w' \<Rightarrow> c = 0 \<and> torn_down w'"
      using m [unfolded fenced_def, rule_format, OF w] f [unfolded fenced_def, rule_format] by (cases "m w") (simp_all add: andthen_def)
  qed
qed

lemma fenced_basic:
  "fenced (ret a)" "fenced (reads g)" "fenced (\<lambda>w. Wait w)" "(\<And>w. s_trace (h w) = s_trace w) \<Longrightarrow> fenced (updates h)"
  "starts x \<Longrightarrow> fenced (act x)"
  by (simp_all add: fenced_def supervising_def act_def)

lemma fenced_control:
  "(b \<Longrightarrow> fenced m) \<Longrightarrow> (\<not> b \<Longrightarrow> fenced n) \<Longrightarrow> fenced (if b then m else n)"
  "(\<And>a b. fenced (f a b)) \<Longrightarrow> fenced (case x of (a, b) \<Rightarrow> f a b)"
  by (simp_all split: prod.split)

lemma fenced_kernel: "fenced fork" "fenced waitpid" "fenced (exits xs)" "fenced read_event"
  by (auto simp: fenced_def fork_def waitpid_def exits_def read_event_def supervising_def split: list.split prod.split option.split)

lemma destroy_ends [simp]: "andthen destroy f = destroy"
  by (rule ext) (auto simp: destroy_def fork_def act_def andthen_def split: list.split)

lemma andthen_not_Ret: "(\<And>a v w'. f a v \<noteq> Ret b w') \<Longrightarrow> andthen m f w \<noteq> Ret b w'"
  by (auto simp: andthen_def split: outcome.splits)

lemma destroy_not_Ret: "destroy w \<noteq> Ret a w'"
  by (auto simp: destroy_def fork_def act_def andthen_def split: list.split)

lemma fenced_destroy: "fenced destroy"
  by (auto simp: fenced_def destroy_def fork_def act_def andthen_def supervising_def torn_down_def split: list.split)

lemmas fenced_rules = fenced_andthen fenced_basic fenced_control fenced_kernel fenced_destroy

lemma fenced_start_agent: "fenced start_agent"
  unfolding start_agent_def by (intro fenced_rules) simp_all

lemma fenced_handle: "fenced (handle_child_exit st)"
  unfolding handle_child_exit_def Let_def by (intro fenced_rules fenced_start_agent)

lemma fenced_wait: "fenced wait_child_pid"
  unfolding wait_child_pid_def by (intro fenced_rules)

lemma fenced_handler: "fenced (register_signal_handler sig)"
proof (cases sig)
  case SIGCHLD
  have "fenced sig_handler_child" unfolding sig_handler_child_def by (intro fenced_rules fenced_wait fenced_handle)
  with SIGCHLD show ?thesis by (simp add: register_signal_handler_def)
qed (simp_all add: register_signal_handler_def sig_handler_exit_def fenced_rules)

lemma fenced_detect: "fenced (detect_child_alive t evs)"
proof (induction t evs rule: detect_child_alive.induct)
  case (2 t vs evs)
  show ?case unfolding detect_child_alive.simps by (intro fenced_rules 2) simp_all
next
  case (4 t sig xs evs)
  show ?case unfolding detect_child_alive.simps by (intro fenced_rules fenced_handler 4)
next
  case (5 t sig xs evs)
  show ?case unfolding detect_child_alive.simps by (intro fenced_rules fenced_handler 5)
qed (unfold detect_child_alive.simps, (rule fenced_basic)+)

lemma fenced_stopped: "fenced child_stopped"
  unfolding child_stopped_def by (intro fenced_rules fenced_wait fenced_handle)

lemma fenced_run_server: "fenced (run_server n evs)"
proof (induction n arbitrary: evs)
  case (Suc n)
  show ?case unfolding run_server.simps by (intro fenced_rules fenced_detect fenced_stopped Suc)
qed (simp add: fenced_basic)


section \<open>The rounds of the loop\<close>

text \<open>Every round takes an event, so the bound of \<open>sup_main\<close> on the rounds is never what stops them.\<close>

lemma detect_takes: "detect_child_alive t evs w = Ret (r, evs') w' \<Longrightarrow> length evs' < length evs"
proof (induction t evs arbitrary: w rule: detect_child_alive.induct)
  case (2 t vs evs)
  show ?case using 2(2) by (auto elim!: andthen_RetE split: if_splits dest: 2(1))
next
  case (4 t sig xs evs)
  show ?case using 4(2) by (auto elim!: andthen_RetE dest: 4(1))
next
  case (5 t sig xs evs)
  show ?case using 5(2) by (auto elim!: andthen_RetE dest: 5(1))
qed auto

lemma andthen_cong: "(\<And>a w'. m w = Ret a w' \<Longrightarrow> f a w' = g a w') \<Longrightarrow> andthen m f w = andthen m g w"
  by (simp add: andthen_def split: outcome.split)

lemma run_server_bound: "length evs < n \<Longrightarrow> run_server n evs w = run_server (Suc (length evs)) evs w"
proof (induction n arbitrary: evs w rule: less_induct)
  case (less n)
  obtain k where n: "n = Suc k" using less(2) by (cases n) auto
  have "run_server k evs' v = run_server (length evs) evs' v" if "length evs' < length evs" for evs' v
  proof -
    have "run_server k evs' v = run_server (Suc (length evs')) evs' v" using less that n by simp
    also have "\<dots> = run_server (length evs) evs' v" using less(1) [of "length evs" evs' v] that less(2) by simp
    finally show ?thesis .
  qed
  then show ?case unfolding n run_server.simps
    by (intro andthen_cong) (auto dest!: detect_takes split: if_splits intro!: andthen_cong)
qed

section \<open>Exits of the agent\<close>

lemma status_masks: "(0x7f :: 32 word) = mask 7" "(0xff :: 32 word) = mask 8"
  by (simp_all add: mask_eq_exp_minus_1)

lemma small_mask: "c < 128 \<Longrightarrow> (of_nat c :: 32 word) AND mask 7 = of_nat c" "c < 256 \<Longrightarrow> (of_nat c :: 32 word) AND mask 8 = of_nat c"
  by (rule less_mask_eq, simp add: word_less_nat_alt unat_of_nat)+

lemma exited_status_fields:
  assumes "c < 256"
  shows "WIFEXITED (exited_status c)" and "WEXITSTATUS (exited_status c) = of_nat c"
proof -
  show "WIFEXITED (exited_status c)"
    unfolding WIFEXITED_def exited_status_def status_masks by (rule bit_word_eqI) (simp add: bit_simps)
  have "drop_bit 8 (push_bit 8 (x AND mask 8)) AND mask 8 = x AND mask 8" for x :: "32 word"
    by (rule bit_word_eqI) (auto simp: bit_simps)
  from this [of "of_nat c"] show "WEXITSTATUS (exited_status c) = of_nat c"
    using assms by (simp add: WEXITSTATUS_def exited_status_def status_masks(2) small_mask(2))
qed

lemma killed_status_fields: "0 < sig \<Longrightarrow> sig < 128 \<Longrightarrow> \<not> WIFEXITED (killed_status sig)"
  unfolding WIFEXITED_def killed_status_def status_masks(1) by (simp add: small_mask(1) word_unat_eq_iff unat_of_nat)

lemma small_of_nat: "c < 256 \<Longrightarrow> (of_nat c :: 32 word) = 0 \<longleftrightarrow> c = 0" "c < 256 \<Longrightarrow> (of_nat c :: 32 word) = 3 \<longleftrightarrow> c = 3"
  by (simp_all add: word_unat_eq_iff unat_of_nat)

text \<open>The end of an agent on which the supervisor ends as well: the exit codes 0 and 3.\<close>

definition final_exit :: "32 word \<Rightarrow> bool" where
  "final_exit st \<longleftrightarrow> WIFEXITED st \<and> (WEXITSTATUS st = 0 \<or> WEXITSTATUS st = 3)"

lemma final_exit_exited: "c < 256 \<Longrightarrow> final_exit (exited_status c) \<longleftrightarrow> c = 0 \<or> c = 3"
  by (simp add: final_exit_def exited_status_fields small_of_nat)

lemma final_exit_killed: "0 < sig \<Longrightarrow> sig < 128 \<Longrightarrow> \<not> final_exit (killed_status sig)"
  by (simp add: final_exit_def killed_status_fields)

lemma handle_final: "final_exit st \<Longrightarrow> handle_child_exit st = ret (- 1)"
  by (simp add: handle_child_exit_def final_exit_def Let_def)

lemma handle_restart:
  assumes "\<not> final_exit st" and "s_forks w = p # ps" and "0 < p"
  shows "handle_child_exit st w = Ret 0 (w\<lparr>s_forks := ps, s_children := p # s_children w,
    s_trace := s_trace w @ [StartAgent p], s_agentpid := p\<rparr>)"
  using assms by (auto simp: handle_child_exit_def final_exit_def Let_def start_agent_def fork_def act_def andthen_def)

lemma destroy_run:
  "s_forks w = p # ps \<Longrightarrow> 0 < p \<Longrightarrow> destroy w = Exit 0 (w\<lparr>s_closed := True, s_forks := ps, s_children := p # s_children w,
     s_trace := s_trace w @ [ShutdownMysql p, TearDown]\<rparr>)"
  by (simp add: destroy_def fork_def act_def andthen_def)

text \<open>
  C32: the supervisor tells the ends of its agent apart. After an exit with code 0 or 3 it shuts the database
  down and becomes the tear-down program. After any other code, or when a signal killed the agent, it starts exactly one new agent,
  watches that one from then on, and goes on waiting with half the timeout.
\<close>

theorem agent_exit_handled:
  assumes "s_zombies w = []" and "0 < s_agentpid w" and "s_forks w = p # ps" and "0 < p"
  shows "detect_child_alive t (EvSignal SIGCHLD [(s_agentpid w, st)] # evs) w =
    (let w1 = w\<lparr>s_zombies := [], s_forks := ps, s_children := p # filter (\<lambda>q. q \<noteq> s_agentpid w) (s_children w)\<rparr> in
     if WIFEXITED st \<and> WEXITSTATUS st \<in> {0, 3}
     then Exit 0 (w1\<lparr>s_closed := True, s_trace := s_trace w @ [ShutdownMysql p, TearDown]\<rparr>)
     else detect_child_alive (go_div t 2 + 1) evs (w1\<lparr>s_trace := s_trace w @ [StartAgent p], s_agentpid := p\<rparr>))"
proof -
  let ?w = "w\<lparr>s_children := filter (\<lambda>q. q \<noteq> s_agentpid w) (s_children w), s_zombies := []\<rparr>"
  have seen: "detect_child_alive t (EvSignal SIGCHLD [(s_agentpid w, st)] # evs) w =
      andthen (andthen (handle_child_exit st) (\<lambda>h. if h < 0 then destroy else ret ())) (\<lambda>_. detect_child_alive (go_div t 2 + 1) evs) ?w"
    using assms(1,2) by (simp add: register_signal_handler_def sig_handler_child_def exits_def wait_child_pid_def waitpid_def andthen_def)
  show ?thesis
  proof (cases "final_exit st")
    case True
    then have "WIFEXITED st \<and> WEXITSTATUS st \<in> {0, 3}" by (simp add: final_exit_def)
    then show ?thesis using True destroy_run [of ?w p ps] assms(3,4) unfolding seen by (simp add: handle_final andthen_def)
  next
    case False
    then have "\<not> (WIFEXITED st \<and> WEXITSTATUS st \<in> {0, 3})" by (simp add: final_exit_def)
    then show ?thesis using handle_restart [OF False, of ?w p ps] assms(3,4) unfolding seen by (auto simp: andthen_def Let_def)
  qed
qed

text \<open>
  the loop takes the exit of any other child for one of the agent, although the function it calls is documented to tell
  them apart and the signal handler ignores it: it starts a second agent while the first one is still running, or, when the
  other child exited with 0 or 3, it ends.
\<close>

theorem other_exit_taken:
  assumes "s_zombies w = [(q, st)]" and "0 < q" and "q \<noteq> s_agentpid w" and "q \<noteq> s_servicepid w" and "s_agentpid w \<in> set (s_children w)"
    and "s_forks w = p # ps" and "0 < p"
  shows "if WIFEXITED st \<and> WEXITSTATUS st \<in> {0, 3}
    then run_server (Suc n) (EvTimeout # evs) w = Ret () (w\<lparr>s_zombies := []\<rparr>)
    else \<exists>w'. run_server (Suc n) (EvTimeout # evs) w = run_server n evs w' \<and>
      s_trace w' = s_trace w @ [StartAgent p] \<and> s_agentpid w' = p \<and> {p, s_agentpid w} \<subseteq> set (s_children w')"
proof -
  let ?w = "w\<lparr>s_zombies := []\<rparr>"
  have seen: "run_server (Suc n) (EvTimeout # evs) w =
      andthen (andthen (handle_child_exit st) (\<lambda>h. ret (h < 0))) (\<lambda>stop. if stop then ret () else run_server n evs) ?w"
    using assms(1-4) by (simp add: child_stopped_def wait_child_pid_def waitpid_def andthen_def)
  show ?thesis
  proof (cases "final_exit st")
    case True
    then have "WIFEXITED st \<and> WEXITSTATUS st \<in> {0, 3}" by (simp add: final_exit_def)
    then show ?thesis using True unfolding seen by (simp add: handle_final andthen_def)
  next
    case False
    then have "\<not> (WIFEXITED st \<and> WEXITSTATUS st \<in> {0, 3})" by (simp add: final_exit_def)
    then show ?thesis using handle_restart [OF False, of ?w p ps] assms(5-7) unfolding seen by (auto simp: andthen_def)
  qed
qed

section \<open>The id of the service\<close>

text \<open>
  The boot process of the database (\<open>src/cmd/mysql-agent-service-boot\<close>) writes the id of the process it started, or 0, into the
  upper half of the counter, whose lower half counts the ticks of the agent.
\<close>

definition service_boot_value :: "int \<Rightarrow> u64" where
  "service_boot_value cpid = push_bit 32 (of_int cpid)"

lemma write_adds: "unat c + unat v < 2 ^ 64 - 1 \<Longrightarrow> snd (WriteToEventfd v c) = c + v"
proof -
  have "unat (- 1 :: u64) = 2 ^ 64 - 1" by (simp add: unsigned_minus_1_eq_mask mask_eq_exp_minus_1)
  then show "unat c + unat v < 2 ^ 64 - 1 \<Longrightarrow> ?thesis"
    using WriteToEventfd_ok [of v c] by (cases "v = - 1") auto
qed

lemma unat_add_small: "unat c + n < 2 ^ 64 \<Longrightarrow> unat (c + of_nat n :: u64) = unat c + n"
  by (simp add: unat_word_ariths unat_of_nat)

lemma ticks_add: "unat c + n < 2 ^ 64 - 1 \<Longrightarrow> fd_writes (replicate n 1) c = c + of_nat n"
proof (induction n arbitrary: c)
  case (Suc n)
  have "unat (c + 1) = unat c + 1" using Suc.prems unat_add_small [of c 1] by simp
  then show ?case using Suc.IH [of "c + 1"] Suc.prems write_adds [of c 1] by (simp add: fd_writes_def add.assoc)
qed (simp add: fd_writes_def)

lemma boot_value: "0 \<le> pid \<Longrightarrow> pid < 2 ^ 31 \<Longrightarrow> unat (service_boot_value pid) = nat pid * 2 ^ 32"
proof -
  assume p: "0 \<le> pid" "pid < 2 ^ 31"
  then have "uint (of_int pid :: u64) = pid" by (simp add: uint_word_of_int)
  then have "unat (of_int pid :: u64) = nat pid" by (metis unat_eq_nat_uint)
  then show ?thesis using p by (simp add: service_boot_value_def push_bit_eq_mult unat_word_ariths)
qed

lemma service_pid_nat:
  assumes "unat v = r + nat pid * 2 ^ 32" and "r < 2 ^ 32" and "0 \<le> pid" and "pid < 2 ^ 31"
  shows "service_pid v = pid"
proof -
  have "unat (drop_bit 32 v) = unat v div 2 ^ 32" unfolding unat_drop_bit_eq by (rule drop_bit_eq_div)
  then have "unat (drop_bit 32 v) = nat pid" using assms(1,2) by simp
  then have "uint (drop_bit 32 v) = pid" using assms(3) by (metis nat_0_le unat_eq_nat_uint int_nat_eq uint_nat)
  then have u: "uint (ucast (drop_bit 32 v) :: 32 word) = pid"
    using assms(3,4) by (simp add: unsigned_ucast_eq take_bit_eq_mod)
  then show ?thesis using assms(3,4) unfolding service_pid_def sint_uint by (simp add: signed_take_bit_int_eq_self)
qed
text \<open>
  C33: the two uses of the counter do not disturb each other: whenever the supervisor reads it after the id of the service was
  written once among fewer than \<open>2 ^ 32\<close> ticks, in any order, it takes the agent to be alive and stores exactly that id.
\<close>

theorem service_pid_received:
  assumes "s_counter w = 0" and "0 < pid" and "pid < 2 ^ 31" and "i + j < 2 ^ 32"
  shows "detect_child_alive t (EvReady (replicate i 1 @ service_boot_value pid # replicate j 1) # evs) w =
    Ret (1, evs) (w\<lparr>s_counter := 0, s_servicepid := pid\<rparr>)"
proof -
  let ?v = "service_boot_value pid"
  let ?c = "of_nat i + ?v + of_nat j :: u64"
  have v: "unat ?v = nat pid * 2 ^ 32" using boot_value assms(2,3) by simp
  have "nat pid \<le> 2 ^ 31 - 1" using assms(3) by simp
  then have le: "nat pid * 2 ^ 32 \<le> (2 ^ 31 - 1) * 2 ^ 32" by (rule mult_right_mono) simp
  have i: "unat (of_nat i :: u64) = i" using unat_add_small [of 0 i] assms(4) by simp
  have iv: "unat (of_nat i + ?v) = i + nat pid * 2 ^ 32"
    using v i le assms(4) by (simp add: unat_word_ariths(1))
  have c: "unat ?c = (i + j) + nat pid * 2 ^ 32" using iv le assms(4) unat_add_small [of "of_nat i + ?v" j] by simp
  have "fd_writes (replicate i 1 @ ?v # replicate j 1) 0 = fd_writes (replicate j 1) (snd (WriteToEventfd ?v (fd_writes (replicate i 1) 0)))"
    by (simp add: fd_writes_def)
  also have "\<dots> = ?c"
    using ticks_add [of 0 i] write_adds [of "of_nat i" ?v] ticks_add [of "of_nat i + ?v" j] v i iv le assms(4) by simp
  finally have w: "fd_writes (replicate i 1 @ ?v # replicate j 1) 0 = ?c" .
  have "service_pid ?c = pid" using service_pid_nat [OF c] assms(2-4) by simp
  moreover have "1 < ?c" "?c \<noteq> 0" using c assms(2) by (auto simp: word_less_nat_alt word_unat_eq_iff)
  ultimately show ?thesis using assms(1,2) w by (simp add: read_event_def eventfd_read_def)
qed

section \<open>Examples\<close>

definition ex_sup :: sup where
  "ex_sup = \<lparr>s_counter = 0, s_closed = False, s_agentpid = 7, s_servicepid = 20, s_children = [7, 20], s_zombies = [], s_forks = [30, 31, 32],
     s_trace = []\<rparr>"


theorem agent_exit_handled_witness:
  "detect_child_alive 5000 [EvSignal SIGCHLD [(7, exited_status 3)]] ex_sup =
     Exit 0 (ex_sup\<lparr>s_zombies := [], s_forks := [31, 32], s_children := [30, 20], s_closed := True, s_trace := [ShutdownMysql 30, TearDown]\<rparr>)"
  using agent_exit_handled [of ex_sup 30 "[31, 32]" 5000 "exited_status 3" "[]"] exited_status_fields [of 3]
  by (simp add: ex_sup_def)

theorem other_exit_taken_witness:
  "\<exists>w'. run_server 1 [EvTimeout] (ex_sup\<lparr>s_zombies := [(25, exited_status 1)]\<rparr>) = Wait w' \<and>
     s_trace w' = [StartAgent 30] \<and> s_agentpid w' = 30 \<and> {30, 7} \<subseteq> set (s_children w')"
  using other_exit_taken [of "ex_sup\<lparr>s_zombies := [(25, exited_status 1)]\<rparr>" 25 "exited_status 1" 30 "[31, 32]" 0 "[]"] exited_status_fields [of 1]
  by (simp add: ex_sup_def)

theorem service_pid_received_witness:
  "detect_child_alive 5000 [EvReady [1, 1, service_boot_value 44, 1]] ex_sup = Ret (1, []) (ex_sup\<lparr>s_counter := 0, s_servicepid := 44\<rparr>)"
  using service_pid_received [of ex_sup 44 "Suc (Suc 0)" "Suc 0" 5000 "[]"] by (simp add: ex_sup_def del: detect_child_alive.simps)

end
