(* ===== verification/Go_Url.thy ===== *)
theory Go_Url
  imports Go_Strings "HOL-Library.Multiset"
begin

text \<open>
  What is used of Go's \<open>net/url\<close> and \<open>net\<close> packages (Go 1.11), and on top of them the lists of etcd addresses of
  \<open>src/pkg/types/urls.go\<close> and \<open>src/pkg/etcd/urls.go\<close>: parsing, the checks, the order, and printing. A string is a
  list of bytes. Only addresses with an empty path are ever printed, so that the raw form of a path is left out.
\<close>

section \<open>Finding characters\<close>

fun cut_first :: "char \<Rightarrow> string \<Rightarrow> (string \<times> string) option" where
  "cut_first c [] = None"
| "cut_first c (x # xs) = (if x = c then Some ([], xs) else map_option (\<lambda>(a, b). (x # a, b)) (cut_first c xs))"

definition cut_last :: "char \<Rightarrow> string \<Rightarrow> (string \<times> string) option" where
  "cut_last c s = map_option (\<lambda>(a, b). (rev b, rev a)) (cut_first c (rev s))"

definition byte_in :: "nat \<Rightarrow> nat \<Rightarrow> char \<Rightarrow> bool" where
  "byte_in a b c \<longleftrightarrow> a \<le> of_char c \<and> of_char c \<le> b"

definition is_upper :: "char \<Rightarrow> bool" where
  "is_upper = byte_in 65 90"

definition is_alpha :: "char \<Rightarrow> bool" where
  "is_alpha c \<longleftrightarrow> is_upper c \<or> byte_in 97 122 c"

section \<open>Escapes\<close>

datatype encoding = encodePath | encodeHost | encodeZone | encodeUserPassword | encodeFragment

definition ishex :: "char \<Rightarrow> bool" where
  "ishex c \<longleftrightarrow> is_digit c \<or> byte_in 97 102 c \<or> byte_in 65 70 c"

definition unhex :: "char \<Rightarrow> nat" where
  "unhex c = (if is_digit c then of_char c - 48 else if byte_in 97 102 c then of_char c - 87 else of_char c - 55)"

definition shouldEscape :: "char \<Rightarrow> encoding \<Rightarrow> bool" where
  "shouldEscape c mode =
     (if is_alpha c \<or> is_digit c then False
      else if mode \<in> {encodeHost, encodeZone} \<and> c \<in> set ''!$&'' \<union> {char_of (39 :: nat)} \<union> set ''()*+,;=:[]<>'' \<union> {char_of (34 :: nat)} then False
      else if c \<in> set ''-_.~'' then False
      else if c \<in> set ''$&+,/:;=?@'' \<and> mode \<notin> {encodeHost, encodeZone} then
        (case mode of
           encodePath \<Rightarrow> c = CHR ''?''
         | encodeUserPassword \<Rightarrow> c \<in> set ''@/?:''
         | _ \<Rightarrow> False)
      else if mode = encodeFragment \<and> c \<in> set ''!()*'' then False
      else True)"

fun unescape :: "encoding \<Rightarrow> string \<Rightarrow> error + string" where
  "unescape mode [] = Inr []"
| "unescape mode (c # s) =
     (if c = CHR ''%'' then
        (case s of
           a # b # s' \<Rightarrow>
             if \<not> ishex a \<or> \<not> ishex b then Inl (EMsg ''invalid URL escape'')
             else if mode = encodeHost \<and> unhex a < 8 \<and> (a, b) \<noteq> (CHR ''2'', CHR ''5'') then Inl (EMsg ''invalid URL escape'')
             else let v = char_of (16 * unhex a + unhex b) in
               if mode = encodeZone \<and> (a, b) \<noteq> (CHR ''2'', CHR ''5'') \<and> v \<noteq> CHR '' '' \<and> shouldEscape v encodeHost
               then Inl (EMsg ''invalid URL escape'')
               else map_sum id (\<lambda>t. v # t) (unescape mode s')
         | _ \<Rightarrow> Inl (EMsg ''invalid URL escape''))
      else if mode \<in> {encodeHost, encodeZone} \<and> of_char c < (128 :: nat) \<and> shouldEscape c mode then
        Inl (EMsg ''invalid character in host name'')
      else map_sum id (\<lambda>t. c # t) (unescape mode s))"

definition hex_char :: "nat \<Rightarrow> char" where
  "hex_char n = (if n < 10 then char_of (48 + n) else char_of (55 + n))"

definition escape_char :: "encoding \<Rightarrow> char \<Rightarrow> string" where
  "escape_char mode c = (if shouldEscape c mode then [CHR ''%'', hex_char (of_char c div 16), hex_char (of_char c mod 16)] else [c])"

definition escape :: "encoding \<Rightarrow> string \<Rightarrow> string" where
  "escape mode s = concat (map (escape_char mode) s)"

section \<open>Parsing\<close>

record URL =
  u_Scheme :: string
  u_Opaque :: string
  u_User :: "(string \<times> string option) option"
  u_Host :: string
  u_Path :: string
  u_ForceQuery :: bool
  u_RawQuery :: string
  u_Fragment :: string

definition zero_URL :: URL where
  "zero_URL = \<lparr>u_Scheme = [], u_Opaque = [], u_User = None, u_Host = [], u_Path = [], u_ForceQuery = False, u_RawQuery = [], u_Fragment = []\<rparr>"

fun getscheme_loop :: "string \<Rightarrow> string \<Rightarrow> string \<Rightarrow> error + string \<times> string" where
  "getscheme_loop raw seen [] = Inr ([], raw)"
| "getscheme_loop raw seen (c # s) =
     (if is_alpha c then getscheme_loop raw (seen @ [c]) s
      else if is_digit c \<or> c \<in> set ''+-.'' then
        (if seen = [] then Inr ([], raw) else getscheme_loop raw (seen @ [c]) s)
      else if c = CHR '':'' then
        (if seen = [] then Inl (EMsg ''missing protocol scheme'') else Inr (seen, s))
      else Inr ([], raw))"

definition getscheme :: "string \<Rightarrow> error + string \<times> string" where
  "getscheme raw = getscheme_loop raw [] raw"

definition validOptionalPort :: "string \<Rightarrow> bool" where
  "validOptionalPort p = (case p of [] \<Rightarrow> True | c # ds \<Rightarrow> c = CHR '':'' \<and> list_all is_digit ds)"

text \<open>The part of a string before its first \<open>%25\<close>, and from it on.\<close>

fun cut_zone :: "string \<Rightarrow> (string \<times> string) option" where
  "cut_zone [] = None"
| "cut_zone (c # s) = (if prefix ''%25'' (c # s) then Some ([], c # s) else map_option (\<lambda>(a, b). (c # a, b)) (cut_zone s))"

definition parseHost_url :: "string \<Rightarrow> error + string" where
  "parseHost_url host =
     (if prefix ''['' host then
        (case cut_last (CHR '']'') host of
           None \<Rightarrow> Inl (EMsg ''missing ']' in host'')
         | Some (inner, colonPort) \<Rightarrow>
             if \<not> validOptionalPort colonPort then Inl (EMsg ''invalid port after host'')
             else (case cut_zone inner of
                None \<Rightarrow> unescape encodeHost host
              | Some (h1, h2) \<Rightarrow>
                  (case (unescape encodeHost h1, unescape encodeZone h2, unescape encodeHost (CHR '']'' # colonPort)) of
                     (Inr a, Inr b, Inr c) \<Rightarrow> Inr (a @ b @ c)
                   | (Inl e, _, _) \<Rightarrow> Inl e
                   | (_, Inl e, _) \<Rightarrow> Inl e
                   | (_, _, Inl e) \<Rightarrow> Inl e)))
      else unescape encodeHost host)"

definition validUserinfo :: "string \<Rightarrow> bool" where
  "validUserinfo s = list_all (\<lambda>c. is_alpha c \<or> is_digit c \<or> c \<in> set ''-._:~!$&()*+,;=%@'' \<or> c = char_of (39 :: nat)) s"

definition parseAuthority :: "string \<Rightarrow> error + (string \<times> string option) option \<times> string" where
  "parseAuthority authority =
     (case cut_last (CHR ''@'') authority of
        None \<Rightarrow> map_sum id (\<lambda>h. (None, h)) (parseHost_url authority)
      | Some (userinfo, rest) \<Rightarrow>
          (case parseHost_url rest of
             Inl e \<Rightarrow> Inl e
           | Inr host \<Rightarrow>
               if \<not> validUserinfo userinfo then Inl (EMsg ''net/url: invalid userinfo'')
               else (case cut_first (CHR '':'') userinfo of
                  None \<Rightarrow> map_sum id (\<lambda>u. (Some (u, None), host)) (unescape encodeUserPassword userinfo)
                | Some (name, password) \<Rightarrow>
                    (case (unescape encodeUserPassword name, unescape encodeUserPassword password) of
                       (Inr u, Inr p) \<Rightarrow> Inr (Some (u, Some p), host)
                     | (Inl e, _) \<Rightarrow> Inl e
                     | (_, Inl e) \<Rightarrow> Inl e))))"

text \<open>The part of \<open>parse\<close> after the scheme and the query are cut off.\<close>

definition parse_rest :: "URL \<Rightarrow> string \<Rightarrow> error + URL" where
  "parse_rest u rest =
     (if prefix ''//'' rest \<and> (u_Scheme u \<noteq> [] \<or> \<not> prefix ''///'' rest) then
        (let body = drop 2 rest; authority = takeWhile (\<lambda>c. c \<noteq> CHR ''/'') body in
         case parseAuthority authority of
           Inl e \<Rightarrow> Inl e
         | Inr (user, host) \<Rightarrow>
             map_sum id (\<lambda>p. u\<lparr>u_User := user, u_Host := host, u_Path := p\<rparr>) (unescape encodePath (dropWhile (\<lambda>c. c \<noteq> CHR ''/'') body)))
      else map_sum id (\<lambda>p. u\<lparr>u_Path := p\<rparr>) (unescape encodePath rest))"

definition first_segment_colon :: "string \<Rightarrow> bool" where
  "first_segment_colon rest \<longleftrightarrow> CHR '':'' \<in> set (takeWhile (\<lambda>c. c \<noteq> CHR ''/'') rest)"

definition parse_url :: "string \<Rightarrow> error + URL" where
  "parse_url raw =
     (if raw = ''*'' then Inr (zero_URL\<lparr>u_Path := ''*''\<rparr>)
      else case getscheme raw of
        Inl e \<Rightarrow> Inl e
      | Inr (scheme, rest0) \<Rightarrow>
          (let forced = has_suffix rest0 ''?'' \<and> length (filter (\<lambda>c. c = CHR ''?'') rest0) = 1;
               (rest, query) = (if forced then (butlast rest0, [])
                                else case cut_first (CHR ''?'') rest0 of None \<Rightarrow> (rest0, []) | Some x \<Rightarrow> x);
               u = zero_URL\<lparr>u_Scheme := to_lower scheme, u_ForceQuery := forced, u_RawQuery := query\<rparr>
           in if \<not> prefix ''/'' rest \<and> u_Scheme u \<noteq> [] then Inr (u\<lparr>u_Opaque := rest\<rparr>)
              else if \<not> prefix ''/'' rest \<and> first_segment_colon rest then
                Inl (EMsg ''first path segment in URL cannot contain colon'')
              else parse_rest u rest))"

definition url_Parse :: "string \<Rightarrow> error + URL" where
  "url_Parse raw =
     (case cut_first (CHR ''#'') raw of
        None \<Rightarrow> parse_url raw
      | Some (u, frag) \<Rightarrow>
          (case parse_url u of
             Inl e \<Rightarrow> Inl e
           | Inr url \<Rightarrow> map_sum id (\<lambda>f. url\<lparr>u_Fragment := f\<rparr>) (unescape encodeFragment frag)))"

section \<open>Printing\<close>

definition userinfo_String :: "string \<times> string option \<Rightarrow> string" where
  "userinfo_String u =
     (case u of
        (name, None) \<Rightarrow> escape encodeUserPassword name
      | (name, Some p) \<Rightarrow> escape encodeUserPassword name @ '':'' @ escape encodeUserPassword p)"

definition url_String :: "URL \<Rightarrow> string" where
  "url_String u =
     (let scheme = (if u_Scheme u = [] then [] else u_Scheme u @ '':'');
          authority =
            (if u_Scheme u = [] \<and> u_Host u = [] \<and> u_User u = None then []
             else (if u_Host u = [] \<and> u_Path u = [] \<and> u_User u = None then [] else ''//'') @
               (case u_User u of None \<Rightarrow> [] | Some ui \<Rightarrow> userinfo_String ui @ ''@'') @
               escape encodeHost (u_Host u));
          path = escape encodePath (u_Path u);
          slash = (if path \<noteq> [] \<and> \<not> prefix ''/'' path \<and> u_Host u \<noteq> [] then ''/'' else [])
      in scheme @ (if u_Opaque u \<noteq> [] then u_Opaque u else authority @ slash @ path) @
         (if u_ForceQuery u \<or> u_RawQuery u \<noteq> [] then ''?'' @ u_RawQuery u else []) @
         (if u_Fragment u = [] then [] else ''#'' @ escape encodeFragment (u_Fragment u)))"

section \<open>Host and port\<close>

definition missingPort :: "error" where
  "missingPort = EMsg ''missing port in address''"

definition SplitHostPort :: "string \<Rightarrow> error + string \<times> string" where
  "SplitHostPort hostport =
     (case cut_last (CHR '':'') hostport of
        None \<Rightarrow> Inl missingPort
      | Some (before, port) \<Rightarrow>
          if prefix ''['' hostport then
            (case cut_first (CHR '']'') hostport of
               None \<Rightarrow> Inl (EMsg ''missing ']' in address'')
             | Some (opened, after) \<Rightarrow>
                 if after = [] then Inl missingPort
                 else if opened @ '']'' \<noteq> before then
                   Inl (if hd after = CHR '':'' then EMsg ''too many colons in address'' else missingPort)
                 else if CHR ''['' \<in> set (tl hostport) then Inl (EMsg ''unexpected '[' in address'')
                 else if CHR '']'' \<in> set after then Inl (EMsg ''unexpected ']' in address'')
                 else Inr (tl opened, port))
          else if CHR '':'' \<in> set before then Inl (EMsg ''too many colons in address'')
          else if CHR ''['' \<in> set hostport then Inl (EMsg ''unexpected '[' in address'')
          else if CHR '']'' \<in> set hostport then Inl (EMsg ''unexpected ']' in address'')
          else Inr (before, port))"

section \<open>Lists of addresses\<close>

definition url_schemes :: "string list" where
  "url_schemes = [''http'', ''https'', ''unix'', ''unixs'']"

definition check_url :: "string \<Rightarrow> error + URL" where
  "check_url s =
     (let str = trim_space s in
      case url_Parse str of
        Inl e \<Rightarrow> Inl e
      | Inr u \<Rightarrow>
          if u_Scheme u \<notin> set url_schemes then Inl (EMsg (''URL scheme must be http, https, unix, unixs: '' @ str))
          else (case SplitHostPort (u_Host u) of
             Inl _ \<Rightarrow> Inl (EMsg (''URL address does not use form 'host:port': '' @ str))
           | Inr _ \<Rightarrow> if u_Path u \<noteq> [] then Inl (EMsg (''URL can not contain a path: '' @ str)) else Inr u))"

fun check_urls :: "string list \<Rightarrow> error + URL list" where
  "check_urls [] = Inr []"
| "check_urls (s # ss) =
     (case check_url s of
        Inl e \<Rightarrow> Inl e
      | Inr u \<Rightarrow> map_sum id (\<lambda>us. u # us) (check_urls ss))"

text \<open>
  \<open>sort.Sort\<close> puts the addresses into the order of their texts. Addresses with the same text may change places,
  which only the parts of them that the text does not show could tell; the model keeps their order.
\<close>

definition NewURLs :: "string list \<Rightarrow> error + URL list" where
  "NewURLs strs =
     (if strs = [] then Inl (EMsg ''invalid URLs'')
      else map_sum id (sort_key url_String) (check_urls strs))"

definition URLs_StringSlice :: "URL list \<Rightarrow> string list" where
  "URLs_StringSlice us = map url_String us"

definition URLs_String :: "URL list \<Rightarrow> string" where
  "URLs_String us = join_go (CHR '','') (URLs_StringSlice us)"

definition HostString :: "URL list \<Rightarrow> string" where
  "HostString us = join_go (CHR '','') (map u_Host us)"

text \<open>The value is set only when the text is accepted; a new value is empty.\<close>

definition URLsValue_Set :: "string \<Rightarrow> URL list \<Rightarrow> error option \<times> URL list" where
  "URLsValue_Set s uv = (case NewURLs (split_go (CHR '','') s) of Inl e \<Rightarrow> (Some e, uv) | Inr us \<Rightarrow> (None, us))"

definition NewURLsValue :: "string \<Rightarrow> error + URL list" where
  "NewURLsValue s = (case URLsValue_Set s [] of (Some e, _) \<Rightarrow> Inl e | (None, us) \<Rightarrow> Inr us)"

section \<open>What is accepted\<close>

lemma map_sum_Inr: "map_sum id f x = Inr y \<longleftrightarrow> (\<exists>z. x = Inr z \<and> y = f z)"
  by (cases x) auto

lemma check_url_ok:
  assumes "check_url s = Inr u"
  shows "u_Scheme u \<in> set url_schemes \<and> u_Path u = [] \<and> (\<exists>h p. SplitHostPort (u_Host u) = Inr (h, p))"
  using assms by (auto simp: check_url_def Let_def split: sum.splits if_splits)

lemma check_urls_ok:
  assumes "check_urls ss = Inr us"
  shows "length us = length ss \<and> list_all (\<lambda>u. \<exists>s \<in> set ss. check_url s = Inr u) us"
  using assms 
proof (induction ss arbitrary: us)
  case (Cons a ss)
  from Cons.prems obtain u vs where u: "check_url a = Inr u" "check_urls ss = Inr vs" "us = u # vs"
    by (auto simp: map_sum_Inr split: sum.splits)
  then show ?case using Cons.IH [OF u(2)] by (auto simp: list_all_iff)
qed simp

text \<open>
  A list of etcd addresses that is accepted is well formed: it has one address for each part of the text, each with one
  of the four schemes, an address of the form host and port and no path, and the addresses are in the order of their texts.
\<close>

theorem NewURLsValue_wf:
  assumes "NewURLsValue s = Inr us"
  shows "length us = length (split_go (CHR '','') s) \<and> sorted (URLs_StringSlice us) \<and>
    list_all (\<lambda>u. u_Scheme u \<in> set url_schemes \<and> u_Path u = [] \<and> (\<exists>h p. SplitHostPort (u_Host u) = Inr (h, p))) us"
proof -
  from assms obtain vs where v: "check_urls (split_go (CHR '','') s) = Inr vs" "us = sort_key url_String vs"
    by (auto simp: NewURLsValue_def URLsValue_Set_def NewURLs_def map_sum_Inr split: sum.splits if_splits)
  show ?thesis using check_urls_ok [OF v(1)] check_url_ok unfolding v(2)
    by (auto simp: URLs_StringSlice_def list_all_iff)
qed

section \<open>Ordinary addresses\<close>

text \<open>An address as it is usually given: a name or an IPv4 address, and a port.\<close>

definition plain_char :: "char \<Rightarrow> bool" where
  "plain_char c \<longleftrightarrow> is_alpha c \<or> is_digit c \<or> c = CHR ''.'' \<or> c = CHR ''-''"

lemma plain_neq: "plain_char c \<Longrightarrow> c \<notin> set '':/?#@[]%*, ''"
  by (auto simp: plain_char_def is_alpha_def is_upper_def byte_in_def is_digit_def)

lemma plain_space: "plain_char c \<Longrightarrow> \<not> is_space c"
  by (auto simp: plain_char_def is_alpha_def is_upper_def byte_in_def is_digit_def is_space_def)

lemma plain_host: "plain_char c \<Longrightarrow> \<not> shouldEscape c encodeHost"
  by (auto simp: plain_char_def shouldEscape_def)

definition plain_address :: "string \<Rightarrow> string \<Rightarrow> bool" where
  "plain_address h p \<longleftrightarrow> h \<noteq> [] \<and> p \<noteq> [] \<and> list_all plain_char h \<and> list_all plain_char p"

lemma cut_first_none: "c \<notin> set s \<Longrightarrow> cut_first c s = None"
  by (induction s) auto

lemma cut_first_append: "c \<notin> set a \<Longrightarrow> cut_first c (a @ c # b) = Some (a, b)"
  by (induction a) auto

lemma cut_last_none: "c \<notin> set s \<Longrightarrow> cut_last c s = None"
  by (simp add: cut_last_def cut_first_none)

lemma cut_last_append: "c \<notin> set b \<Longrightarrow> cut_last c (a @ c # b) = Some (a, b)"
  by (simp add: cut_last_def cut_first_append)

lemma trim_space_id: "list_all (\<lambda>c. \<not> is_space c) s \<Longrightarrow> trim_space s = s"
  using trim_space_ends [of s] by (cases "s = []") (auto simp: trim_space_def list_all_iff)

lemma unescape_host: "list_all (\<lambda>c. c \<noteq> CHR ''%'' \<and> \<not> shouldEscape c encodeHost) s \<Longrightarrow> unescape encodeHost s = Inr s"
  by (induction s) auto

lemma escape_host: "list_all (\<lambda>c. \<not> shouldEscape c encodeHost) s \<Longrightarrow> escape encodeHost s = s"
  by (induction s) (auto simp: escape_def escape_char_def)

definition plain_url :: "string \<Rightarrow> string \<Rightarrow> URL" where
  "plain_url h p = zero_URL\<lparr>u_Scheme := ''http'', u_Host := h @ '':'' @ p\<rparr>"

lemma host_text_chars:
  assumes a: "list_all (\<lambda>c. c = CHR '':'' \<or> plain_char c) a"
  shows "list_all (\<lambda>c. c \<noteq> CHR ''%'' \<and> \<not> shouldEscape c encodeHost) a" and "CHR ''@'' \<notin> set a" and "CHR ''/'' \<notin> set a"
    and "CHR ''['' \<notin> set a" and "CHR '']'' \<notin> set a" and "CHR ''?'' \<notin> set a" and "CHR ''#'' \<notin> set a"
    and "list_all (\<lambda>c. \<not> is_space c) a"
proof -
  have c: "c = CHR '':'' \<or> plain_char c" if "c \<in> set a" for c using a that by (auto simp: list_all_iff)
  have colon: "\<not> shouldEscape (CHR '':'') encodeHost" "\<not> is_space (CHR '':'')" by (simp_all add: shouldEscape_def is_space_def)
  have "c \<noteq> CHR ''%''" if "c \<in> set a" for c using c [OF that] plain_neq [of c] by auto
  moreover have "\<not> shouldEscape c encodeHost" if "c \<in> set a" for c using c [OF that] plain_host [of c] colon by auto
  ultimately show "list_all (\<lambda>c. c \<noteq> CHR ''%'' \<and> \<not> shouldEscape c encodeHost) a" by (simp add: list_all_iff)
  have "\<not> is_space c" if "c \<in> set a" for c using c [OF that] plain_space [of c] colon by auto
  then show "list_all (\<lambda>c. \<not> is_space c) a" by (simp add: list_all_iff)
  show "CHR ''@'' \<notin> set a" using c [of "CHR ''@''"] plain_neq [of "CHR ''@''"] by auto
  show "CHR ''/'' \<notin> set a" using c [of "CHR ''/''"] plain_neq [of "CHR ''/''"] by auto
  show "CHR ''['' \<notin> set a" using c [of "CHR ''[''"] plain_neq [of "CHR ''[''"] by auto
  show "CHR '']'' \<notin> set a" using c [of "CHR '']''"] plain_neq [of "CHR '']''"] by auto
  show "CHR ''?'' \<notin> set a" using c [of "CHR ''?''"] plain_neq [of "CHR ''?''"] by auto
  show "CHR ''#'' \<notin> set a" using c [of "CHR ''#''"] plain_neq [of "CHR ''#''"] by auto
qed

lemma host_Parse:
  assumes "list_all (\<lambda>c. c = CHR '':'' \<or> plain_char c) a"
  shows "url_Parse (''http://'' @ a) = Inr (zero_URL\<lparr>u_Scheme := ''http'', u_Host := a\<rparr>)"
proof -
  note c = host_text_chars [OF assms]
  have "\<not> prefix ''['' a" using c(4) by (cases a) auto
  then have auth: "parseAuthority a = Inr (None, a)"
    using unescape_host [OF c(1)] by (simp add: parseAuthority_def cut_last_none [OF c(2)] parseHost_url_def)
  have scheme: "getscheme (''http://'' @ a) = Inr (''http'', ''//'' @ a)"
    by (simp add: getscheme_def is_alpha_def is_upper_def byte_in_def is_digit_def)
  have take: "takeWhile (\<lambda>c. c \<noteq> CHR ''/'') a = a" "dropWhile (\<lambda>c. c \<noteq> CHR ''/'') a = []"
    using c(3) by (auto simp: takeWhile_eq_all_conv dropWhile_eq_Nil_conv)
  have q: "\<not> has_suffix (''//'' @ a) ''?''" using c(6) by (auto simp: has_suffix_def dest!: set_mono_suffix)
  have q': "cut_first (CHR ''?'') (''//'' @ a) = None" using c(6) by (auto intro!: cut_first_none)
  have "parse_rest (zero_URL\<lparr>u_Scheme := ''http''\<rparr>) (''//'' @ a) = Inr (zero_URL\<lparr>u_Scheme := ''http'', u_Host := a\<rparr>)"
    unfolding parse_rest_def by (simp add: take auth zero_URL_def)
  moreover have "cut_first (CHR ''#'') (''http://'' @ a) = None" using c(7) by (auto intro!: cut_first_none)
  moreover have "to_lower ''http'' = ''http''" by (simp add: to_lower_def)
  ultimately show ?thesis using scheme q q' unfolding url_Parse_def parse_url_def by (simp add: zero_URL_def)
qed

lemma plain_text: "plain_address h p \<Longrightarrow> list_all (\<lambda>c. c = CHR '':'' \<or> plain_char c) (h @ '':'' @ p)"
  by (auto simp: plain_address_def list_all_iff)

lemma plain_check:
  assumes "plain_address h p"
  shows "check_url (''http://'' @ h @ '':'' @ p) = Inr (plain_url h p)"
proof -
  let ?a = "h @ '':'' @ p"
  note t = plain_text [OF assms]
  note c = host_text_chars [OF t]
  have "\<not> is_space c" if "c \<in> set ''http://''" for c using that by (auto simp: is_space_def)
  then have trim: "trim_space (''http://'' @ ?a) = ''http://'' @ ?a" using c(8) by (intro trim_space_id) (auto simp: list_all_iff)
  have "plain_char d \<Longrightarrow> d \<noteq> CHR '':''" for d using plain_neq [of d] by auto
  then have n: "CHR '':'' \<notin> set h" "CHR '':'' \<notin> set p" using assms by (auto simp: plain_address_def list_all_iff)
  have "\<not> prefix ''['' ?a" using c(4) by (cases h) auto
  then have "SplitHostPort ?a = Inr (h, p)" using c(4,5) n cut_last_append [OF n(2), of h] by (simp add: SplitHostPort_def)
  then show ?thesis using trim host_Parse [OF t] unfolding check_url_def by (simp add: plain_url_def zero_URL_def url_schemes_def)
qed

lemma plain_String: "plain_address h p \<Longrightarrow> url_String (plain_url h p) = ''http://'' @ h @ '':'' @ p"
  using escape_host [of "h @ '':'' @ p"] host_text_chars(1) [OF plain_text, of h p]
  by (simp add: url_String_def plain_url_def zero_URL_def list_all_iff escape_def)

text \<open>A list of ordinary addresses is accepted, and comes out in order.\<close>

lemma map_sort_key: "map f (sort_key f xs) = sort (map f xs)"
  by (rule sym, rule properties_for_sort) simp_all

lemma plain_NewURLs:
  assumes "as \<noteq> []" and "list_all (\<lambda>(h, p). plain_address h p) as"
  shows "map_sum id URLs_StringSlice (NewURLs (map (\<lambda>(h, p). ''http://'' @ h @ '':'' @ p) as)) =
    Inr (sort (map (\<lambda>(h, p). ''http://'' @ h @ '':'' @ p) as))"
proof -
  have "check_urls (map (\<lambda>(h, p). ''http://'' @ h @ '':'' @ p) as) = Inr (map (\<lambda>(h, p). plain_url h p) as)"
    using assms(2) by (induction as) (auto simp: plain_check simp del: append_Cons append_Nil)
  moreover have s: "map url_String (map (\<lambda>(h, p). plain_url h p) as) = map (\<lambda>(h, p). ''http://'' @ h @ '':'' @ p) as"
    using assms(2) by (induction as) (auto simp: plain_String simp del: append_Cons append_Nil)
  ultimately show ?thesis using assms(1) unfolding NewURLs_def by (simp add: URLs_StringSlice_def map_sort_key del: map_map)
qed

lemma plain_accepted:
  assumes "split_go (CHR '','') s = map (\<lambda>(h, p). ''http://'' @ h @ '':'' @ p) as" and "list_all (\<lambda>(h, p). plain_address h p) as"
  shows "\<exists>us. NewURLsValue s = Inr us"
proof -
  have "as \<noteq> []" using assms(1) by auto
  from plain_NewURLs [OF this assms(2)] assms(1) show ?thesis
    by (auto simp: NewURLsValue_def URLsValue_Set_def map_sum_Inr split: sum.split)
qed

theorem NewURLsValue_wf_witness:
  "map_sum id (\<lambda>us. (length us, sorted (URLs_StringSlice us))) (NewURLsValue ''http://10.0.0.2:2379,http://10.0.0.1:2379'') = Inr (2, True)"
proof -
  let ?s = "''http://10.0.0.2:2379,http://10.0.0.1:2379''"
  let ?as = "[(''10.0.0.2'', ''2379''), (''10.0.0.1'', ''2379'')]"
  have s: "split_go (CHR '','') ?s = map (\<lambda>(h, p). ''http://'' @ h @ '':'' @ p) ?as" by code_simp
  have "list_all (\<lambda>(h, p). plain_address h p) ?as" by (simp add: plain_address_def plain_char_def is_digit_def)
  from plain_accepted [OF s this] obtain us where us: "NewURLsValue ?s = Inr us" by blast
  from NewURLsValue_wf [OF us] have "length us = 2 \<and> sorted (URLs_StringSlice us)" unfolding s by simp
  then show ?thesis unfolding us by simp
qed

end
