(* ===== verification/Host_Files.thy ===== *)
theory Host_Files
  imports Agent_Leader Go_Url
begin

text \<open>
  What the agent does with the files of its host: the lock of its data directory, the file with the id of the node, the construction of
  a node and a server (\<open>src/agent/node.go\<close>, \<open>src/agent/util.go\<close>, \<open>src/pkg/file\<close>), the clean-up that follows an agent that did
  not end by itself (\<open>src/agent/cleaner.go\<close>) and the tear-down program that calls it (\<open>src/cmd/mysql-agent-tear-down\<close>). The file system is a map from
  cleaned paths; a list of faults says which of the coming calls fail for a reason of their own. Locks belong to a process
  and to an open file of it.
\<close>

section \<open>Files and locks\<close>

datatype fnode = Dir | File string

record host = net +
  f_tree :: "string \<Rightarrow> fnode option"
  f_locks :: "(nat \<times> string) list"
  f_faults :: "error option list"

type_synonym 'a host_io = "(host, 'a) io"

definition faulty :: "(error + 'a) host_io \<Rightarrow> (error + 'a) host_io" where
  "faulty op w =
     (case f_faults w of
        [] \<Rightarrow> op w
      | Some e # fs \<Rightarrow> Ret (Inl e) (w\<lparr>f_faults := fs\<rparr>)
      | None # fs \<Rightarrow> op (w\<lparr>f_faults := fs\<rparr>))"

definition ENOENT :: error where
  "ENOENT = EMsg ''no such file or directory''"

definition fs_get :: "host \<Rightarrow> string \<Rightarrow> fnode option" where
  "fs_get w p = (let q = path_clean p in if p = [] then None else if q = ''.'' \<or> q = ''/'' then Some Dir else f_tree w q)"

definition fs_put :: "string \<Rightarrow> fnode \<Rightarrow> host \<Rightarrow> host" where
  "fs_put p n w = w\<lparr>f_tree := (f_tree w)(path_clean p \<mapsto> n)\<rparr>"

definition os_Stat :: "string \<Rightarrow> (error + fnode) host_io" where
  "os_Stat p = faulty (reads (\<lambda>w. case fs_get w p of None \<Rightarrow> Inl ENOENT | Some n \<Rightarrow> Inr n))"

text \<open>The directories above a cleaned path, and the path itself.\<close>

definition dir_prefixes :: "string \<Rightarrow> string list" where
  "dir_prefixes p = map (\<lambda>n. take n p) (filter (\<lambda>n. 0 < n \<and> p ! n = CHR ''/'') [0..<length p]) @ [p]"

fun is_file :: "fnode option \<Rightarrow> bool" where
  "is_file (Some (File c)) = True"
| "is_file _ = False"

definition os_MkdirAll :: "string \<Rightarrow> (error + unit) host_io" where
  "os_MkdirAll p = faulty
     (andthen (reads id) (\<lambda>w.
        let ds = dir_prefixes (path_clean p) in
        if p = [] then ret (Inl ENOENT)
        else if list_ex (\<lambda>d. is_file (fs_get w d)) ds then ret (Inl (EMsg ''not a directory''))
        else andthen (updates (fold (\<lambda>d. fs_put d Dir) ds)) (\<lambda>_. ret (Inr ()))))"

text \<open>The directory that a file is in, as \<open>filepath.Dir\<close> finds it.\<close>

definition parent :: "string \<Rightarrow> string" where
  "parent p = path_clean (rev (dropWhile (\<lambda>c. c \<noteq> CHR ''/'') (rev p)))"

definition open_write :: "string \<Rightarrow> (error + unit) host_io" where
  "open_write p =
     andthen (reads id) (\<lambda>w.
       case fs_get w p of
         Some Dir \<Rightarrow> ret (Inl (EMsg ''is a directory''))
       | Some (File c) \<Rightarrow> ret (Inr ())
       | None \<Rightarrow>
           if fs_get w (parent p) = Some Dir then andthen (updates (fs_put p (File []))) (\<lambda>_. ret (Inr ()))
           else ret (Inl ENOENT))"

definition os_OpenFile :: "string \<Rightarrow> (error + unit) host_io" where
  "os_OpenFile p = faulty (open_write p)"

definition ioutil_ReadFile :: "string \<Rightarrow> (error + string) host_io" where
  "ioutil_ReadFile p = faulty
     (reads (\<lambda>w. case fs_get w p of None \<Rightarrow> Inl ENOENT | Some Dir \<Rightarrow> Inl (EMsg ''is a directory'') | Some (File c) \<Rightarrow> Inr c))"

definition ioutil_WriteFile :: "string \<Rightarrow> string \<Rightarrow> (error + unit) host_io" where
  "ioutil_WriteFile p c = faulty
     (andthen (open_write p) (\<lambda>r. case r of
        Inl e \<Rightarrow> ret (Inl e)
      | Inr _ \<Rightarrow> andthen (updates (fs_put p (File c))) (\<lambda>_. ret (Inr ()))))"

definition ErrLocked :: error where
  "ErrLocked = EMsg ''file: file already locked''"

definition flock_EX_NB :: "nat \<Rightarrow> string \<Rightarrow> (error + unit) host_io" where
  "flock_EX_NB me p = faulty
     (andthen (reads f_locks) (\<lambda>ls.
        if list_ex (\<lambda>l. snd l = path_clean p) ls then ret (Inl (EMsg ''resource temporarily unavailable''))
        else andthen (updates (\<lambda>w. w\<lparr>f_locks := (me, path_clean p) # f_locks w\<rparr>)) (\<lambda>_. ret (Inr ()))))"

definition TryLockFile :: "nat \<Rightarrow> string \<Rightarrow> (error + unit) host_io" where
  "TryLockFile me p =
     andthen (os_OpenFile p) (\<lambda>r. case r of
       Inl e \<Rightarrow> ret (Inl e)
     | Inr _ \<Rightarrow>
         andthen (flock_EX_NB me p) (\<lambda>l. case l of
           Inl e \<Rightarrow> ret (Inl (if e = EMsg ''resource temporarily unavailable'' then ErrLocked else e))
         | Inr _ \<Rightarrow> ret (Inr ())))"

text \<open>
  The end of a process closes its files, and so does the garbage collector with those of its files that the program no longer
  refers to; a lock ends with its file.
\<close>

definition process_ends :: "nat \<Rightarrow> host \<Rightarrow> host" where
  "process_ends me w = w\<lparr>f_locks := filter (\<lambda>l. fst l \<noteq> me) (f_locks w)\<rparr>"

definition collect_garbage :: "nat \<Rightarrow> string list \<Rightarrow> host \<Rightarrow> host" where
  "collect_garbage me referred w = w\<lparr>f_locks := filter (\<lambda>l. fst l = me \<longrightarrow> snd l \<in> set referred) (f_locks w)\<rparr>"

section \<open>The node\<close>

definition nodeIDFile :: string where
  "nodeIDFile = ''.node''"

definition lockFile :: string where
  "lockFile = ''.lock''"

definition lockPath :: "string \<Rightarrow> string" where
  "lockPath dataDir = path_join [dataDir, lockFile]"

definition nodePath :: "string \<Rightarrow> string" where
  "nodePath d = path_join [d, nodeIDFile]"

definition checkFileExist :: "string \<Rightarrow> (error + string) host_io" where
  "checkFileExist fpath =
     andthen (os_Stat fpath) (\<lambda>r. case r of
       Inl e \<Rightarrow> ret (Inl e)
     | Inr Dir \<Rightarrow> ret (Inl (EMsg (''path: '' @ fpath @ '', is a directory, not a file'')))
     | Inr (File _) \<Rightarrow> ret (Inr fpath))"

definition checkExclusive :: "nat \<Rightarrow> string \<Rightarrow> (error + unit) host_io" where
  "checkExclusive me dataDir =
     andthen (os_MkdirAll dataDir) (\<lambda>r. case r of
       Inl e \<Rightarrow> ret (Inl e)
     | Inr _ \<Rightarrow> TryLockFile me (lockPath dataDir))"

definition readLocalNodeID :: "string \<Rightarrow> (error + string) host_io" where
  "readLocalNodeID dataDir =
     (let nodeIDPath = nodePath dataDir in
      andthen (checkFileExist nodeIDPath) (\<lambda>r. case r of
        Inl e \<Rightarrow> ret (Inl (ENotFound ''local nodeID file not exist''))
      | Inr _ \<Rightarrow>
          andthen (ioutil_ReadFile nodeIDPath) (\<lambda>d. case d of
            Inl e \<Rightarrow> ret (Inl (EMsg (''local nodeID file is wrong: '' @ error_msg e)))
          | Inr c \<Rightarrow> ret (Inr c))))"

definition generateLocalNodeID :: "Config \<Rightarrow> (error + string) host_io" where
  "generateLocalNodeID cfg =
     andthen (os_MkdirAll (DataDir cfg)) (\<lambda>r. case r of
       Inl e \<Rightarrow> ret (Inl e)
     | Inr _ \<Rightarrow>
         andthen (ioutil_WriteFile (nodePath (DataDir cfg)) (ExternalServiceHost cfg)) (\<lambda>d. case d of
           Inl e \<Rightarrow> ret (Inl e)
         | Inr _ \<Rightarrow> ret (Inr (ExternalServiceHost cfg))))"

record agentNode =
  an_root :: string
  an_id :: string
  an_internalHost :: string
  an_externalHost :: string
  an_registerTTL :: int
  an_refreshInterval :: int

text \<open>
  Connecting to etcd is the library's: \<open>dial\<close> says for which addresses it fails. It starts connecting in the background, so
  that the addresses need not answer.
\<close>

definition new_client :: "(string list \<Rightarrow> error option) \<Rightarrow> Config \<Rightarrow> error + string" where
  "new_client dial cfg =
     (case NewURLsValue (EtcdURLs cfg) of
        Inl e \<Rightarrow> Inl e
      | Inr uv \<Rightarrow>
          (case dial (URLs_StringSlice uv) of
             Some e \<Rightarrow> Inl e
           | None \<Rightarrow> Inr (NewClientFromCfg_rootPath (EtcdRootPath cfg) (ClusterName cfg))))"

definition node_id :: "Config \<Rightarrow> (error + string) host_io" where
  "node_id cfg =
     andthen (readLocalNodeID (DataDir cfg)) (\<lambda>r. case r of
       Inr i \<Rightarrow> ret (Inr i)
     | Inl e \<Rightarrow>
         if cfg_NodeID cfg \<noteq> [] then ret (Inr (cfg_NodeID cfg))
         else if is_NotFound e then generateLocalNodeID cfg
         else ret (Inl e))"

definition NewAgentNode :: "nat \<Rightarrow> (string list \<Rightarrow> error option) \<Rightarrow> Config \<Rightarrow> (error + agentNode) host_io" where
  "NewAgentNode me dial cfg =
     andthen (checkExclusive me (DataDir cfg)) (\<lambda>x. case x of
       Inl e \<Rightarrow> ret (Inl e)
     | Inr _ \<Rightarrow>
         (case new_client dial cfg of
            Inl e \<Rightarrow> ret (Inl e)
          | Inr root \<Rightarrow>
              andthen (node_id cfg) (\<lambda>r. case r of
                Inl e \<Rightarrow> ret (Inl e)
              | Inr i \<Rightarrow> ret (Inr \<lparr>an_root = root, an_id = i, an_internalHost = InternalServiceHost cfg,
                  an_externalHost = ExternalServiceHost cfg, an_registerTTL = RegisterTTL cfg,
                  an_refreshInterval = wrap64 (RefreshInterval cfg * time_Second)\<rparr>))))"

definition NewServer :: "nat \<Rightarrow> (string list \<Rightarrow> error option) \<Rightarrow> Config option \<Rightarrow> (error + agentNode) host_io" where
  "NewServer me dial c =
     (case checkConfig c of
        Some e \<Rightarrow> ret (Inl e)
      | None \<Rightarrow> NewAgentNode me dial (the c))"

section \<open>Cleaning up\<close>

definition clean_txn :: "string \<Rightarrow> string \<Rightarrow> (error option) host_io" where
  "clean_txn root nodeID =
     (let k = KeyWithRootPath root leaderPath in
      andthen (Client_Txn False [CmpValue k nodeID] [OpDelete k]) (\<lambda>r. case r of
        Inl e \<Rightarrow> ret (Some e)
      | Inr (ok, _) \<Rightarrow> if ok then ret None else ret (Some (EMsg ''resign leader failed, we are not leader already''))))"

definition StartClean :: "(string list \<Rightarrow> error option) \<Rightarrow> Config \<Rightarrow> (error option) host_io" where
  "StartClean dial cfg =
     (case new_client dial cfg of
        Inl e \<Rightarrow> ret (Some e)
      | Inr root \<Rightarrow>
          andthen (readLocalNodeID (DataDir cfg)) (\<lambda>r. case r of
            Inl e \<Rightarrow> ret (Some e)
          | Inr nodeID \<Rightarrow> clean_txn root nodeID))"

text \<open>
  The tear-down program. \<open>wait pid\<close> is what waiting for a process comes to: it ended after some time, it is no child
  of this one, or it does not end. The answer counts if it comes within three seconds.
\<close>

datatype wait_result = WaitExited int | WaitError error | WaitHangs

definition pid_of :: "string \<Rightarrow> int option" where
  "pid_of bs = atoi (rev (dropWhile (\<lambda>c. c = CHR ''\<newline>'') (rev bs)))"

definition waitProcessToStop :: "(int \<Rightarrow> wait_result) \<Rightarrow> string \<Rightarrow> (int option) host_io" where
  "waitProcessToStop wait pidFile =
     andthen (ioutil_ReadFile pidFile) (\<lambda>r. case r of
       Inl e \<Rightarrow> ret (Some 0)
     | Inr bs \<Rightarrow>
         (case pid_of bs of
            None \<Rightarrow> ret (Some 0)
          | Some pid \<Rightarrow>
              (case wait pid of
                 WaitExited d \<Rightarrow> ret (Some d)
               | WaitError e \<Rightarrow> ret (Some 0)
               | WaitHangs \<Rightarrow> ret None)))"

definition tear_down :: "(string list \<Rightarrow> error option) \<Rightarrow> (int \<Rightarrow> wait_result) \<Rightarrow> string \<Rightarrow> Config \<Rightarrow> unit host_io" where
  "tear_down dial wait pidFile cfg =
     andthen (waitProcessToStop wait pidFile) (\<lambda>stopped.
       if (case stopped of None \<Rightarrow> False | Some d \<Rightarrow> d < 3 * time_Second)
       then andthen (StartClean dial cfg) (\<lambda>_. ret ())
       else ret ())"

section \<open>The lock\<close>

definition locked :: "string \<Rightarrow> host \<Rightarrow> bool" where
  "locked dataDir w \<longleftrightarrow> list_ex (\<lambda>l. snd l = path_clean (lockPath dataDir)) (f_locks w)"

lemma faulty_Ret:
  assumes "faulty op w = Ret r w'"
  obtains (fault) e fs where "r = Inl e" "w' = w\<lparr>f_faults := fs\<rparr>"
  | (ran) fs where "op (w\<lparr>f_faults := fs\<rparr>) = Ret r w'"
  using assms by (auto simp: faulty_def split: list.splits option.splits) (metis host.surjective host.update_convs(3))

lemma fs_get_put: "fs_get (fs_put p n w) q = (if q \<noteq> [] \<and> path_clean q = path_clean p \<and> path_clean q \<notin> {''.'', ''/''} then Some n else fs_get w q)"
  by (auto simp: fs_get_def fs_put_def Let_def)

lemma fs_get_fields [simp]: "fs_get (w\<lparr>f_faults := fs\<rparr>) = fs_get w" "fs_get (w\<lparr>f_locks := ls\<rparr>) = fs_get w"
  by (auto simp: fs_get_def Let_def fun_eq_iff)

lemma fs_put_fields [simp]: "f_locks (fs_put p n w) = f_locks w" "f_faults (fs_put p n w) = f_faults w" "n_etcd (fs_put p n w) = n_etcd w"
  "n_script (fs_put p n w) = n_script w" "n_clock (fs_put p n w) = n_clock w"
  by (simp_all add: fs_put_def)

lemma fold_put_fields [simp]: "f_locks (fold (\<lambda>d. fs_put d n) ds w) = f_locks w"
  by (induction ds arbitrary: w) simp_all

text \<open>What the calls on files leave alone: the network, and, but for taking a lock, the locks.\<close>

lemma keeps_faulty [hoare]:
  assumes "keeps I op" and "\<And>w fs. I w \<Longrightarrow> I (w\<lparr>f_faults := fs\<rparr>)"
  shows "keeps I (faulty op)"
proof
  fix w assume w: "I w"
  show "I (final_world (faulty op w))"
    using keepsD [OF assms(1) w] keepsD [OF assms(1) assms(2) [OF w]] assms(2) [OF w] by (auto simp: faulty_def split: list.split option.split)
qed

lemma fold_keeps: "(\<And>x w. I w \<Longrightarrow> I (f x w)) \<Longrightarrow> I w \<Longrightarrow> I (fold f xs w)"
  by (induction xs arbitrary: w) auto

lemma keeps_case_fnode [hoare]:
  "keeps I a \<Longrightarrow> (\<And>c. keeps I (b c)) \<Longrightarrow> keeps I (case n of Dir \<Rightarrow> a | File c \<Rightarrow> b c)"
  by (cases n) auto

text \<open>Calls on files always return.\<close>

definition returns :: "('w, 'a) io \<Rightarrow> bool" where
  "returns m \<longleftrightarrow> (\<forall>w. \<exists>a w'. m w = Ret a w')"

lemma returns_rules:
  "returns (ret a)" "returns (reads g)" "returns (updates h)"
  "returns m \<Longrightarrow> (\<And>a. returns (f a)) \<Longrightarrow> returns (andthen m f)"
  "(b \<Longrightarrow> returns m) \<Longrightarrow> (\<not> b \<Longrightarrow> returns n) \<Longrightarrow> returns (if b then m else n)"
  "(\<And>e. returns (k e)) \<Longrightarrow> (\<And>a. returns (l a)) \<Longrightarrow> returns (case x of Inl e \<Rightarrow> k e | Inr a \<Rightarrow> l a)"
  "returns m \<Longrightarrow> (\<And>a. returns (q a)) \<Longrightarrow> returns (case y of None \<Rightarrow> m | Some a \<Rightarrow> q a)"
  "returns m \<Longrightarrow> (\<And>c. returns (r c)) \<Longrightarrow> returns (case z of Dir \<Rightarrow> m | File c \<Rightarrow> r c)"
  by (auto simp: returns_def andthen_def split: sum.split option.split fnode.split) (metis outcome.simps(17))

lemma returns_faulty: "returns op \<Longrightarrow> returns (faulty op)"
  by (auto simp: returns_def faulty_def split: list.split option.split)

lemma returns_files: "returns (os_Stat p)" "returns (os_MkdirAll p)" "returns (os_OpenFile p)" "returns (ioutil_ReadFile p)"
  "returns (ioutil_WriteFile p c)" "returns (flock_EX_NB me p)"
  unfolding os_Stat_def os_MkdirAll_def os_OpenFile_def ioutil_ReadFile_def ioutil_WriteFile_def flock_EX_NB_def open_write_def Let_def
  by (intro returns_rules returns_faulty)+

lemma returns_node: "returns (checkExclusive me d)" "returns (readLocalNodeID d)" "returns (generateLocalNodeID cfg)"
  unfolding checkExclusive_def TryLockFile_def readLocalNodeID_def checkFileExist_def generateLocalNodeID_def Let_def
  by (intro returns_rules returns_files)+

lemma returns_NewAgentNode: "returns (NewAgentNode me dial cfg)"
  unfolding NewAgentNode_def node_id_def by (intro returns_rules returns_node)

lemma returnsE: "returns m \<Longrightarrow> (\<And>a w'. m w = Ret a w' \<Longrightarrow> thesis) \<Longrightarrow> thesis"
  by (auto simp: returns_def)

text \<open>A property of the host that no change of the file system breaks.\<close>

definition off_files :: "(host \<Rightarrow> bool) \<Rightarrow> bool" where
  "off_files I \<longleftrightarrow> (\<forall>w fs. I w \<longrightarrow> I (w\<lparr>f_faults := fs\<rparr>)) \<and> (\<forall>w p n. I w \<longrightarrow> I (fs_put p n w))"

lemma off_filesD: "off_files I \<Longrightarrow> I w \<Longrightarrow> I (w\<lparr>f_faults := fs\<rparr>)" "off_files I \<Longrightarrow> I w \<Longrightarrow> I (fs_put p n w)"
  by (simp_all add: off_files_def)

lemma keeps_files:
  assumes "off_files I"
  shows "keeps I (os_Stat p)" "keeps I (os_MkdirAll p)" "keeps I (os_OpenFile p)" "keeps I (ioutil_ReadFile p)" "keeps I (ioutil_WriteFile p c)"
proof -
  note d = off_filesD [OF assms]
  have put: "keeps I (updates (fs_put p n))" for p n using d(2) by (rule keeps_updates)
  have puts: "keeps I (updates (fold (\<lambda>d. fs_put d n) ds))" for n ds
    by (rule keeps_updates, rule fold_keeps [where I = I]) (use d(2) in auto)
  have ow: "keeps I (open_write p)" for p unfolding open_write_def by (intro hoare put)
  show "keeps I (os_Stat p)" unfolding os_Stat_def by (rule keeps_faulty [where I = I, OF _ d(1)]) (intro hoare)
  show "keeps I (ioutil_ReadFile p)" unfolding ioutil_ReadFile_def by (rule keeps_faulty [where I = I, OF _ d(1)]) (intro hoare)
  show "keeps I (os_MkdirAll p)" unfolding os_MkdirAll_def Let_def by (rule keeps_faulty [where I = I, OF _ d(1)]) (intro hoare puts)
  show "keeps I (os_OpenFile p)" unfolding os_OpenFile_def by (rule keeps_faulty [where I = I, OF ow d(1)])
  show "keeps I (ioutil_WriteFile p c)" unfolding ioutil_WriteFile_def by (rule keeps_faulty [where I = I, OF _ d(1)]) (intro hoare put ow)
qed

lemma off_files_locks: "off_files (\<lambda>w. P (f_locks w))"
  by (simp add: off_files_def)

lemma off_files_net: "off_files (\<lambda>w. P (n_etcd w) (n_script w) (n_clock w))"
  by (simp add: off_files_def)

lemma locked_free: "f_locks w' = f_locks w \<Longrightarrow> locked d w' = locked d w"
  by (simp add: locked_def)

lemma flock_locked: "locked d w \<Longrightarrow> flock_EX_NB me (lockPath d) w = Ret r w' \<Longrightarrow> \<exists>e. r = Inl e \<and> f_locks w' = f_locks w"
  unfolding flock_EX_NB_def by (erule faulty_Ret) (auto simp: locked_def)

lemma checkExclusive_locked:
  assumes "locked d w" and "checkExclusive me d w = Ret r w'"
  shows "\<exists>e. r = Inl e \<and> f_locks w' = f_locks w"
proof -
  from assms(2) obtain a w1 where a: "os_MkdirAll d w = Ret a w1"
    and k: "(case a of Inl e \<Rightarrow> ret (Inl e) | Inr _ \<Rightarrow> TryLockFile me (lockPath d)) w1 = Ret r w'"
    by (auto simp: checkExclusive_def elim!: andthen_RetE)
  have l1: "f_locks w1 = f_locks w" by (rule keeps_RetD [OF keeps_files(2) [OF off_files_locks] _ a]) simp
  show ?thesis
  proof (cases a)
    case (Inr x)
    with k obtain b w2 where b: "os_OpenFile (lockPath d) w1 = Ret b w2"
      and k2: "(case b of Inl e \<Rightarrow> ret (Inl e) | Inr _ \<Rightarrow> andthen (flock_EX_NB me (lockPath d)) (\<lambda>l. case l of
           Inl e \<Rightarrow> ret (Inl (if e = EMsg ''resource temporarily unavailable'' then ErrLocked else e))
         | Inr _ \<Rightarrow> ret (Inr ()))) w2 = Ret r w'"
      by (auto simp: TryLockFile_def elim!: andthen_RetE)
    have l2: "f_locks w2 = f_locks w1" by (rule keeps_RetD [OF keeps_files(3) [OF off_files_locks] _ b]) simp
    have "locked d w2" using assms(1) l1 l2 by (simp add: locked_def)
    then show ?thesis using k2 l1 l2 by (cases b) (auto elim!: andthen_RetE dest!: flock_locked)
  qed (use k l1 in auto)
qed

text \<open>
  C29: while another process holds the lock of a data directory, no node is constructed on it, whatever the configuration and
  whatever calls on files fail, and the lock stays with its holder.
\<close>

theorem one_node_per_directory:
  assumes "locked (DataDir cfg) w"
  shows "(\<forall>n w'. NewAgentNode me dial cfg w \<noteq> Ret (Inr n) w') \<and> f_locks (final_world (NewAgentNode me dial cfg w)) = f_locks w"
proof (rule returnsE [OF returns_node(1) [of me "DataDir cfg"], of w])
  fix r w1 assume r: "checkExclusive me (DataDir cfg) w = Ret r w1"
  with checkExclusive_locked [OF assms r] show ?thesis by (auto simp: NewAgentNode_def andthen_def)
qed

section \<open>What is in the files\<close>

text \<open>Nothing that is there goes away or changes.\<close>

definition grown :: "host \<Rightarrow> host \<Rightarrow> bool" where
  "grown w w' \<longleftrightarrow> (\<forall>q x. fs_get w q = Some x \<longrightarrow> fs_get w' q = Some x)"

lemma grown_rules:
  "grown w w" "grown w w' \<Longrightarrow> grown w' w'' \<Longrightarrow> grown w w''" "grown (w\<lparr>f_faults := fs\<rparr>) w' = grown w w'" "grown w (w'\<lparr>f_faults := fs\<rparr>) = grown w w'"
  "grown w (w'\<lparr>f_locks := ls\<rparr>) = grown w w'"
  by (auto simp: grown_def)

lemma grown_put: "fs_get w p = None \<or> fs_get w p = Some n \<Longrightarrow> p \<noteq> [] \<Longrightarrow> grown w (fs_put p n w)"
  unfolding grown_def fs_get_put by (auto simp: fs_get_def Let_def split: if_splits)

lemma put_puts: "p \<noteq> [] \<Longrightarrow> fs_get w p = None \<or> fs_get w p = Some n \<Longrightarrow> fs_get (fs_put p n w) p = Some n"
  unfolding fs_get_put by (auto simp: fs_get_def Let_def split: if_splits)

lemma fold_put_dirs:
  assumes "\<forall>d \<in> set ds. d \<noteq> [] \<and> \<not> is_file (fs_get w d)"
  shows "grown w (fold (\<lambda>d. fs_put d Dir) ds w) \<and> (\<forall>d \<in> set ds. fs_get (fold (\<lambda>d. fs_put d Dir) ds w) d = Some Dir)"
  using assms
proof (induction ds arbitrary: w)
  case (Cons d ds)
  have nf: "\<not> is_file x \<longleftrightarrow> x = None \<or> x = Some Dir" for x by (cases x rule: is_file.cases) auto
  have d: "fs_get w d = None \<or> fs_get w d = Some Dir" "d \<noteq> []" using Cons.prems nf by auto
  have g: "grown w (fs_put d Dir w)" using d by (rule grown_put)
  have "\<not> is_file (fs_get (fs_put d Dir w) x)" if "x \<in> set ds" for x using Cons.prems that by (auto simp: fs_get_put)
  then have IH: "grown (fs_put d Dir w) (fold (\<lambda>d. fs_put d Dir) ds (fs_put d Dir w)) \<and>
      (\<forall>x \<in> set ds. fs_get (fold (\<lambda>d. fs_put d Dir) ds (fs_put d Dir w)) x = Some Dir)"
    using Cons.prems by (intro Cons.IH) auto
  moreover have "fs_get (fs_put d Dir w) d = Some Dir" using d by (intro put_puts)
  ultimately show ?case using g grown_rules(2) by (auto simp: grown_def)
qed (simp add: grown_rules)

lemma dir_prefixes_neq: "d \<in> set (dir_prefixes (path_clean p)) \<Longrightarrow> d \<noteq> []"
proof -
  have "path_clean p \<noteq> []" by (auto simp: path_clean_def Let_def)
  then show "d \<in> set (dir_prefixes (path_clean p)) \<Longrightarrow> d \<noteq> []" by (auto simp: dir_prefixes_def)
qed

definition dirs_made :: "string \<Rightarrow> host \<Rightarrow> bool" where
  "dirs_made d w \<longleftrightarrow> d \<noteq> [] \<and> list_all (\<lambda>x. fs_get w x = Some Dir) (dir_prefixes (path_clean d))"

lemma MkdirAll_ok:
  assumes "os_MkdirAll d w = Ret (Inr u) w'"
  shows "dirs_made d w' \<and> grown w w'"
proof -
  from assms obtain fs where fs: "d \<noteq> []" "\<not> list_ex (\<lambda>x. is_file (fs_get (w\<lparr>f_faults := fs\<rparr>) x)) (dir_prefixes (path_clean d))"
    "w' = fold (\<lambda>x. fs_put x Dir) (dir_prefixes (path_clean d)) (w\<lparr>f_faults := fs\<rparr>)"
    unfolding os_MkdirAll_def by (auto elim!: faulty_Ret simp: Let_def split: if_splits)
  have "\<forall>x \<in> set (dir_prefixes (path_clean d)). x \<noteq> [] \<and> \<not> is_file (fs_get (w\<lparr>f_faults := fs\<rparr>) x)"
    using fs(2) dir_prefixes_neq by (auto simp: list_ex_iff)
  from fold_put_dirs [OF this] show ?thesis using fs(1,3) by (simp add: dirs_made_def list_all_iff grown_rules)
qed

lemma MkdirAll_again:
  assumes "dirs_made d w" and "f_faults w = []"
  shows "\<exists>w'. os_MkdirAll d w = Ret (Inr ()) w' \<and> grown w w' \<and> f_locks w' = f_locks w \<and> f_faults w' = []"
proof -
  have n: "\<not> list_ex (\<lambda>x. is_file (fs_get w x)) (dir_prefixes (path_clean d))" using assms(1) by (auto simp: dirs_made_def list_all_iff list_ex_iff)
  let ?w = "fold (\<lambda>x. fs_put x Dir) (dir_prefixes (path_clean d)) w"
  have "f_faults ?w = []" by (rule fold_keeps [where I = "\<lambda>w. f_faults w = []"]) (use assms(2) in auto)
  moreover have "os_MkdirAll d w = Ret (Inr ()) ?w"
    using assms n by (simp add: os_MkdirAll_def faulty_def Let_def dirs_made_def)
  moreover have "grown w ?w" using fold_put_dirs [of "dir_prefixes (path_clean d)" w] n dir_prefixes_neq by (auto simp: list_ex_iff)
  ultimately show ?thesis by auto
qed

lemma open_write_ok:
  assumes "open_write p w = Ret (Inr u) w'" and "p \<noteq> []"
  shows "(\<exists>c. fs_get w' p = Some (File c)) \<and> grown w w' \<and> f_locks w' = f_locks w \<and> f_faults w' = f_faults w"
proof (cases "fs_get w p")
  case None
  with assms have "w' = fs_put p (File []) w" by (auto simp: open_write_def split: if_splits)
  then show ?thesis using None assms(2) put_puts [of p w "File []"] grown_put [of w p "File []"] by auto
next
  case (Some n)
  with assms show ?thesis by (cases n) (auto simp: open_write_def grown_rules)
qed

lemma open_write_file: "fs_get w p = Some (File c) \<Longrightarrow> open_write p w = Ret (Inr ()) w"
  by (simp add: open_write_def)

lemma path_join_neq: "path_join [d, lockFile] \<noteq> []" "path_join [d, nodeIDFile] \<noteq> []"
  by (auto simp: path_clean_def Let_def lockFile_def nodeIDFile_def)

lemma checkExclusive_ok:
  assumes "checkExclusive me d w = Ret (Inr u) w'"
  shows "dirs_made d w' \<and> (\<exists>c. fs_get w' (lockPath d) = Some (File c)) \<and> grown w w' \<and> \<not> locked d w \<and>
    f_locks w' = (me, path_clean (lockPath d)) # f_locks w"
proof -
  from assms obtain w1 w2 where m: "os_MkdirAll d w = Ret (Inr ()) w1" and o: "os_OpenFile (lockPath d) w1 = Ret (Inr ()) w2"
    and l: "flock_EX_NB me (lockPath d) w2 = Ret (Inr ()) w'"
    by (auto simp: checkExclusive_def TryLockFile_def elim!: andthen_RetE split: sum.splits)
  have l1: "f_locks w1 = f_locks w" by (rule keeps_RetD [OF keeps_files(2) [OF off_files_locks] _ m]) simp
  from o obtain fs where "open_write (lockPath d) (w1\<lparr>f_faults := fs\<rparr>) = Ret (Inr ()) w2" unfolding os_OpenFile_def by (auto elim: faulty_Ret)
  then have o': "(\<exists>c. fs_get w2 (lockPath d) = Some (File c)) \<and> grown w1 w2 \<and> f_locks w2 = f_locks w1"
    using open_write_ok path_join_neq(1) [of d] by (fastforce simp: lockPath_def grown_rules)
  from l obtain fs where "\<not> locked d w2" "w' = w2\<lparr>f_faults := fs, f_locks := (me, path_clean (lockPath d)) # f_locks w2\<rparr>"
    unfolding flock_EX_NB_def by (auto elim!: faulty_Ret split: if_splits simp: locked_def)
  then show ?thesis using MkdirAll_ok [OF m] o' l1 by (auto simp: grown_def locked_def dirs_made_def list_all_iff)
qed

lemma checkExclusive_again:
  assumes "dirs_made d w" and "fs_get w (lockPath d) = Some (File c)" and "f_faults w = []" and "\<not> locked d w"
  shows "\<exists>w'. checkExclusive me d w = Ret (Inr ()) w' \<and> grown w w' \<and> f_faults w' = []"
proof -
  from MkdirAll_again [OF assms(1,3)] obtain w1 where m: "os_MkdirAll d w = Ret (Inr ()) w1" "grown w w1" "f_locks w1 = f_locks w" "f_faults w1 = []" by blast
  have "fs_get w1 (lockPath d) = Some (File c)" using m(2) assms(2) by (simp add: grown_def)
  then have "os_OpenFile (lockPath d) w1 = Ret (Inr ()) w1" using m(4) by (simp add: os_OpenFile_def faulty_def open_write_file)
  moreover have "flock_EX_NB me (lockPath d) w1 = Ret (Inr ()) (w1\<lparr>f_locks := (me, path_clean (lockPath d)) # f_locks w1\<rparr>)"
    using m(3,4) assms(4) by (simp add: flock_EX_NB_def faulty_def locked_def)
  ultimately show ?thesis using m by (simp add: checkExclusive_def TryLockFile_def andthen_def grown_rules)
qed

text \<open>Directories stay directories, and files stay files.\<close>

definition kinds_kept :: "host \<Rightarrow> host \<Rightarrow> bool" where
  "kinds_kept w w' \<longleftrightarrow> (\<forall>q x. fs_get w q = Some x \<longrightarrow> (\<exists>y. fs_get w' q = Some y \<and> (x = Dir \<longleftrightarrow> y = Dir)))"

lemma grown_kinds: "grown w w' \<Longrightarrow> kinds_kept w w'"
  by (auto simp: grown_def kinds_kept_def)

lemma kinds_trans: "kinds_kept w w' \<Longrightarrow> kinds_kept w' w'' \<Longrightarrow> kinds_kept w w''"
  by (fastforce simp: kinds_kept_def)

lemma kinds_dirs: "kinds_kept w w' \<Longrightarrow> dirs_made d w \<Longrightarrow> dirs_made d w'"
  by (fastforce simp: kinds_kept_def dirs_made_def list_all_iff)

lemma kinds_file: "kinds_kept w w' \<Longrightarrow> fs_get w p = Some (File c) \<Longrightarrow> \<exists>c'. fs_get w' p = Some (File c')"
  unfolding kinds_kept_def by (metis fnode.exhaust fnode.distinct(1))

lemma WriteFile_ok:
  assumes "ioutil_WriteFile p c w = Ret (Inr u) w'" and "p \<noteq> []"
  shows "fs_get w' p = Some (File c) \<and> kinds_kept w w' \<and> f_locks w' = f_locks w"
proof -
  from assms(1) obtain fs w1 where o: "open_write p (w\<lparr>f_faults := fs\<rparr>) = Ret (Inr ()) w1" and w': "w' = fs_put p (File c) w1"
    unfolding ioutil_WriteFile_def by (auto elim!: faulty_Ret andthen_RetE split: sum.splits)
  from open_write_ok [OF o assms(2)] obtain c1 where w1: "fs_get w1 p = Some (File c1)" "grown w w1" "f_locks w1 = f_locks w" by (auto simp: grown_rules)
  have "path_clean p \<notin> {''.'', ''/''}" using w1(1) by (auto simp: fs_get_def Let_def split: if_splits)
  then have f: "fs_get w' p = Some (File c)" using assms(2) unfolding w' fs_get_put by simp
  have "kinds_kept w1 w'" unfolding kinds_kept_def w' fs_get_put
    using w1(1) by (auto simp: fs_get_def Let_def split: if_splits)
  then show ?thesis using f w1 kinds_trans [OF grown_kinds [OF w1(2)]] unfolding w' by auto
qed

section \<open>The id of a node\<close>

lemma readLocalNodeID_ok:
  assumes "readLocalNodeID d w = Ret (Inr i) w'"
  shows "fs_get w' (nodePath d) = Some (File i) \<and> grown w w' \<and> f_locks w' = f_locks w"
proof -
  from assms obtain w1 c where s: "os_Stat (nodePath d) w = Ret (Inr (File c)) w1"
    and r: "ioutil_ReadFile (nodePath d) w1 = Ret (Inr i) w'"
    by (auto simp: readLocalNodeID_def checkFileExist_def Let_def elim!: andthen_RetE split: sum.splits fnode.splits)
  from s obtain fs where "w1 = w\<lparr>f_faults := fs\<rparr>" unfolding os_Stat_def by (auto elim!: faulty_Ret)
  moreover from r obtain fs' where "w' = w1\<lparr>f_faults := fs'\<rparr>" "fs_get w1 (nodePath d) = Some (File i)"
    unfolding ioutil_ReadFile_def by (auto elim!: faulty_Ret split: option.splits fnode.splits)
  ultimately show ?thesis by (simp add: grown_rules)
qed

lemma readLocalNodeID_file:
  "fs_get w (nodePath d) = Some (File i) \<Longrightarrow> f_faults w = [] \<Longrightarrow> readLocalNodeID d w = Ret (Inr i) w"
  by (simp add: readLocalNodeID_def checkFileExist_def os_Stat_def ioutil_ReadFile_def faulty_def Let_def andthen_def)

lemma readLocalNodeID_none:
  "fs_get w (nodePath d) = None \<Longrightarrow> f_faults w = [] \<Longrightarrow> readLocalNodeID d w = Ret (Inl (ENotFound ''local nodeID file not exist'')) w"
  by (simp add: readLocalNodeID_def checkFileExist_def os_Stat_def faulty_def Let_def andthen_def)

lemma readLocalNodeID_err:
  assumes "readLocalNodeID d w = Ret (Inl e) w'"
  shows "grown w w' \<and> f_locks w' = f_locks w"
proof -
  have g: "off_files (\<lambda>v. f_locks v = f_locks w)" by (rule off_files_locks)
  have "keeps (\<lambda>v. f_locks v = f_locks w) (readLocalNodeID d)"
    unfolding readLocalNodeID_def checkFileExist_def Let_def by (intro hoare keeps_files g)
  from keeps_RetD [OF this _ assms] have l: "f_locks w' = f_locks w" by simp
  have "keeps (\<lambda>v. fs_get v = fs_get w) (readLocalNodeID d)"
    unfolding readLocalNodeID_def checkFileExist_def os_Stat_def ioutil_ReadFile_def Let_def by (intro hoare) simp_all
  from keeps_RetD [OF this _ assms] show ?thesis using l by (simp add: grown_def)
qed

lemma node_id_ok:
  assumes "node_id cfg w = Ret (Inr i) w'" and "cfg_NodeID cfg = []"
  shows "fs_get w' (nodePath (DataDir cfg)) = Some (File i) \<and> kinds_kept w w' \<and> f_locks w' = f_locks w"
proof -
  from assms(1) obtain r w1 where r: "readLocalNodeID (DataDir cfg) w = Ret r w1"
    and k: "(case r of Inr i \<Rightarrow> ret (Inr i) | Inl e \<Rightarrow> if cfg_NodeID cfg \<noteq> [] then ret (Inr (cfg_NodeID cfg))
         else if is_NotFound e then generateLocalNodeID cfg else ret (Inl e)) w1 = Ret (Inr i) w'"
    unfolding node_id_def by (rule andthen_RetE)
  show ?thesis
  proof (cases r)
    case (Inr j)
    then show ?thesis using k readLocalNodeID_ok [of "DataDir cfg" w j w1] r grown_kinds by auto
  next
    case (Inl e)
    with k assms(2) obtain w2 where m: "os_MkdirAll (DataDir cfg) w1 = Ret (Inr ()) w2"
      and wr: "ioutil_WriteFile (nodePath (DataDir cfg)) (ExternalServiceHost cfg) w2 = Ret (Inr ()) w'" and i: "i = ExternalServiceHost cfg"
      by (auto simp: generateLocalNodeID_def elim!: andthen_RetE split: sum.splits if_splits)
    have "f_locks w2 = f_locks w1" by (rule keeps_RetD [OF keeps_files(2) [OF off_files_locks] _ m]) simp
    moreover have "grown w w2"
      using readLocalNodeID_err r Inl MkdirAll_ok [OF m] grown_rules(2) by blast
    ultimately show ?thesis
      using WriteFile_ok [OF wr] path_join_neq(2) [of "DataDir cfg"] readLocalNodeID_err [of "DataDir cfg" w e w1] r Inl i kinds_trans [OF grown_kinds]
      by (auto simp: nodePath_def)
  qed
qed

lemma NewAgentNode_ok:
  assumes "NewAgentNode me dial cfg w = Ret (Inr n) w'"
  obtains w1 where "checkExclusive me (DataDir cfg) w = Ret (Inr ()) w1" "node_id cfg w1 = Ret (Inr (an_id n)) w'"
  using assms by (auto simp: NewAgentNode_def elim!: andthen_RetE split: sum.splits)

lemma NewAgentNode_existing:
  assumes "dirs_made (DataDir cfg) w" and "fs_get w (lockPath (DataDir cfg)) = Some (File c)" and "fs_get w (nodePath (DataDir cfg)) = Some (File i)"
    and "f_faults w = []" and "\<not> locked (DataDir cfg) w" and "new_client dial cfg = Inr root"
  shows "\<exists>n w'. NewAgentNode me dial cfg w = Ret (Inr n) w' \<and> an_id n = i \<and> f_faults w' = [] \<and> grown w w'"
proof -
  from checkExclusive_again [OF assms(1,2,4,5)] obtain w1 where
    w1: "checkExclusive me (DataDir cfg) w = Ret (Inr ()) w1" "grown w w1" "f_faults w1 = []" by blast
  have "fs_get w1 (nodePath (DataDir cfg)) = Some (File i)" using assms(3) w1(2) by (simp add: grown_def)
  then have "node_id cfg w1 = Ret (Inr i) w1" using readLocalNodeID_file [OF _ w1(3)] by (simp add: node_id_def andthen_def)
  then show ?thesis using w1 assms(6) by (simp add: NewAgentNode_def andthen_def)
qed

text \<open>
  C30: a node keeps its id. Once a node was constructed without a configured id, every later one on the same files has the same
  id, whatever its configuration says about the id, the hosts or the cluster, as long as the data directory is the same
  and the file can be read; and it is constructed, if no other process has the lock and the addresses of etcd are right.
\<close>

theorem node_id_survives:
  assumes first: "NewAgentNode me dial cfg w = Ret (Inr n) w1" and "cfg_NodeID cfg = []"
    and later: "f_tree w2 = f_tree w1" "f_faults w2 = []" "\<not> locked (DataDir cfg) w2"
    and cfg': "DataDir cfg' = DataDir cfg" "new_client dial' cfg' = Inr root"
  shows "\<exists>n' w3. NewAgentNode me' dial' cfg' w2 = Ret (Inr n') w3 \<and> an_id n' = an_id n"
proof -
  let ?d = "DataDir cfg"
  from first obtain w0 where x: "checkExclusive me ?d w = Ret (Inr ()) w0" and i: "node_id cfg w0 = Ret (Inr (an_id n)) w1" by (rule NewAgentNode_ok)
  note id = node_id_ok [OF i assms(2)]
  have same: "fs_get w2 = fs_get w1" using later(1) by (intro ext) (simp add: fs_get_def Let_def)
  obtain c where c: "fs_get w2 (lockPath ?d) = Some (File c)" using checkExclusive_ok [OF x] kinds_file id unfolding same by blast
  have d: "dirs_made ?d w2" using kinds_dirs [of w0 w1 ?d] checkExclusive_ok [OF x] id by (simp add: dirs_made_def same)
  show ?thesis using NewAgentNode_existing [of cfg' w2 c "an_id n" dial' root me'] d c id later(2,3) cfg' same by auto
qed

text \<open>
  The lock of the data directory does not last as long as the process. The locked file is not kept anywhere, so that the
  garbage collector may close it while the agent runs; until then another process is refused, afterwards it is not.
\<close>

theorem lock_lost:
  assumes "NewAgentNode me dial cfg w = Ret (Inr n) w1" and "cfg_NodeID cfg = []" and "f_faults w1 = []"
  shows "(\<forall>w2. checkExclusive me' (DataDir cfg) w1 \<noteq> Ret (Inr ()) w2) \<and>
    (\<exists>w2. checkExclusive me' (DataDir cfg) (collect_garbage me [] w1) = Ret (Inr ()) w2)"
proof -
  let ?d = "DataDir cfg" and ?w = "collect_garbage me [] w1"
  from assms(1) obtain w0 where x: "checkExclusive me ?d w = Ret (Inr ()) w0" and i: "node_id cfg w0 = Ret (Inr (an_id n)) w1" by (rule NewAgentNode_ok)
  note id = node_id_ok [OF i assms(2)]
  have locks: "f_locks w1 = (me, path_clean (lockPath ?d)) # f_locks w" "\<not> locked ?d w" using checkExclusive_ok [OF x] id by auto
  have "locked ?d w1" using locks(1) by (simp add: locked_def)
  moreover have "fs_get ?w = fs_get w1" "f_faults ?w = []" using assms(3) by (auto simp: collect_garbage_def)
  moreover have "\<not> locked ?d ?w" using locks by (auto simp: locked_def collect_garbage_def list_ex_iff)
  moreover have "dirs_made ?d ?w" using kinds_dirs [of w0 w1 ?d] checkExclusive_ok [OF x] id calculation(2) by (simp add: dirs_made_def)
  moreover obtain c where "fs_get ?w (lockPath ?d) = Some (File c)"
    using checkExclusive_ok [OF x] kinds_file id calculation(2) by metis
  ultimately show ?thesis using checkExclusive_again [of ?d ?w c me'] checkExclusive_locked [of ?d w1 me'] by fastforce
qed

section \<open>Cleaning up after an agent\<close>

lemma clean_txn_reply:
  assumes "n_script w = Rpc env st d1 d2 # rest" and "KeyWithRootPath root leaderPath \<noteq> []"
  defines "k \<equiv> KeyWithRootPath root leaderPath" and "e \<equiv> env (n_etcd w)"
  shows "\<exists>r w'. clean_txn root i w = Ret r w' \<and>
    (if etcd_value e k = Some i
     then (st = RpcLost \<or> etcd_value (n_etcd w') k = None) \<and> (r = None \<longleftrightarrow> st = RpcOK)
     else n_etcd w' = e \<and> r \<noteq> None)"
proof -
  have cmp: "applyCompare e (CmpValue k i) \<longleftrightarrow> etcd_value e k = Some i" by (rule compare_value)
  have ok: "checkTxnRequest [OpDelete k]" using assms(2) by (simp add: checkTxnRequest_def k_def)
  obtain res e' where t: "etcd_txn [CmpValue k i] [OpDelete k] e = (res, e')" by (cases "etcd_txn [CmpValue k i] [OpDelete k] e")
  have run: "clean_txn root i w = (case Client_Txn False [CmpValue k i] [OpDelete k] w of
      Ret (Inl x) w' \<Rightarrow> Ret (Some x) w'
    | Ret (Inr (ok, _)) w' \<Rightarrow> Ret (if ok then None else Some (EMsg ''resign leader failed, we are not leader already'')) w'
    | Exit c w' \<Rightarrow> Exit c w' | Panic w' \<Rightarrow> Panic w' | Wait w' \<Rightarrow> Wait w')"
    by (auto simp: clean_txn_def k_def Let_def andthen_def split: outcome.split sum.split)
  show ?thesis
  proof (cases "etcd_value e k = Some i")
    case True
    then obtain rs where r: "res = Inr (True, rs)" using t ok cmp by (auto simp: etcd_txn_def Let_def split: prod.splits if_splits)
    have "etcd_value e' k = None" using etcd_txn_deleted [OF t [unfolded r], of k] by (simp add: etcd_value_held)
    then show ?thesis using True t r assms(1) unfolding run by (cases st) (auto simp: Client_Txn_def rpc_call_def e_def Let_def)
  next
    case False
    then obtain rs where r: "res = Inr (False, rs)" "e' = e" using t ok cmp by (auto simp: etcd_txn_def Let_def split: prod.splits if_splits)
    then show ?thesis using False t assms(1) unfolding run by (cases st) (auto simp: Client_Txn_def rpc_call_def e_def Let_def)
  qed
qed

lemma StartClean_id:
  "fs_get w (nodePath (DataDir cfg)) = Some (File i) \<Longrightarrow> f_faults w = [] \<Longrightarrow> new_client dial cfg = Inr root \<Longrightarrow>
   StartClean dial cfg w = clean_txn root i w"
  by (simp add: StartClean_def readLocalNodeID_file andthen_def)

lemma StartClean_none:
  "fs_get w (nodePath (DataDir cfg)) = None \<Longrightarrow> f_faults w = [] \<Longrightarrow> new_client dial cfg = Inr root \<Longrightarrow>
   StartClean dial cfg w = Ret (Some (ENotFound ''local nodeID file not exist'')) w"
  by (simp add: StartClean_def readLocalNodeID_none andthen_def)

lemma good_rel_take: "good_rel s \<Longrightarrow> n < length s \<Longrightarrow> s ! n = CHR ''/'' \<Longrightarrow> good_rel (take n s)"
proof -
  assume s: "good_rel s" "n < length s" "s ! n = CHR ''/''"
  then have "s = take n s @ CHR ''/'' # drop (Suc n) s" by (metis id_take_nth_drop)
  then have "split_go (CHR ''/'') s = split_go (CHR ''/'') (take n s) @ split_go (CHR ''/'') (drop (Suc n) s)" by (metis split_go_append)
  then show ?thesis using s(1) by (simp add: good_rel_def)
qed

lemma good_root_clean: "good_root d \<Longrightarrow> path_clean d = d"
  using path_clean_rel path_clean_rooted by (auto simp: good_root_def)

lemma good_root_prefixes:
  assumes "good_root d" and "x \<in> set (dir_prefixes d)"
  shows "path_clean x = x \<and> length x \<le> length d"
proof (cases "x = d")
  case False
  with assms(2) obtain n where n: "0 < n" "n < length d" "d ! n = CHR ''/''" "x = take n d" by (auto simp: dir_prefixes_def)
  from assms(1) show ?thesis unfolding good_root_def
  proof
    assume "good_rel d"
    then show ?thesis using good_rel_take n path_clean_rel by auto
  next
    assume "\<exists>s. d = CHR ''/'' # s \<and> good_rel s"
    then obtain s where s: "d = CHR ''/'' # s" "good_rel s" by blast
    then have "x = CHR ''/'' # take (n - 1) s" using n by (cases n) auto
    then show ?thesis using good_rel_take [of s "n - 1"] n s path_clean_rooted by (cases n) auto
  qed
qed (use assms good_root_clean in auto)

lemma fold_put_other: "(\<And>x. x \<in> set ds \<Longrightarrow> path_clean x \<noteq> path_clean q) \<Longrightarrow> fs_get (fold (\<lambda>d. fs_put d n) ds w) q = fs_get w q"
proof (induction ds arbitrary: w)
  case (Cons d ds)
  have "path_clean q \<noteq> path_clean d" using Cons.prems [of d] by auto
  moreover have "fs_get (fold (\<lambda>d. fs_put d n) ds (fs_put d n w)) q = fs_get (fs_put d n w) q" using Cons.prems by (intro Cons.IH) auto
  ultimately show ?case by (simp add: fs_get_put)
qed simp

text \<open>
  C31: cleaning up after an agent deletes the leader key exactly when it holds the id in the file of the data directory: the
  key of any other node, and the rest of the store, stay as they are and an error is returned; the own key is gone once the request
  arrives, and success is reported exactly when the answer comes back.
\<close>

theorem clean_own_key:
  assumes "fs_get w (nodePath (DataDir cfg)) = Some (File i)" and "f_faults w = []" and "new_client dial cfg = Inr root"
    and "n_script w = Rpc env st d1 d2 # rest" and "KeyWithRootPath root leaderPath \<noteq> []"
  shows "\<exists>r w'. StartClean dial cfg w = Ret r w' \<and>
    (if etcd_value (env (n_etcd w)) (KeyWithRootPath root leaderPath) = Some i
     then (st = RpcLost \<or> etcd_value (n_etcd w') (KeyWithRootPath root leaderPath) = None) \<and> (r = None \<longleftrightarrow> st = RpcOK)
     else n_etcd w' = env (n_etcd w) \<and> r \<noteq> None)"
  unfolding StartClean_id [OF assms(1-3)] by (rule clean_txn_reply [OF assms(4,5)])

lemma paths_apart:
  assumes "good_root d"
  shows "path_clean (nodePath d) = d @ ''/.node''" and "path_clean (lockPath d) = d @ ''/.lock''"
proof -
  have g: "good_rel ''.node''" "good_rel ''.lock''" by (simp_all add: good_rel_def good_comp_def)
  have j: "nodePath d = d @ ''/.node''" "lockPath d = d @ ''/.lock''"
    using path_join_root [OF assms g(1)] path_join_root [OF assms g(2)] by (simp_all add: nodePath_def lockPath_def nodeIDFile_def lockFile_def del: path_join.simps)
  have "good_root (d @ ''/.node'')" "good_root (d @ ''/.lock'')"
    using assms good_rel_append [OF _ g(1)] good_rel_append [OF _ g(2)] by (auto simp: good_root_def)
  then show "path_clean (nodePath d) = d @ ''/.node''" "path_clean (lockPath d) = d @ ''/.lock''"
    using j good_root_clean by auto
qed

lemma checkExclusive_no_id:
  assumes "good_root d" and "checkExclusive me d w = Ret (Inr u) w'" and "f_faults w = []"
  shows "fs_get w' (nodePath d) = fs_get w (nodePath d) \<and> f_faults w' = []"
proof -
  note c = paths_apart [OF assms(1)]
  from assms(2) obtain w1 w2 where m: "os_MkdirAll d w = Ret (Inr ()) w1" and o: "os_OpenFile (lockPath d) w1 = Ret (Inr ()) w2"
    and l: "flock_EX_NB me (lockPath d) w2 = Ret (Inr ()) w'"
    by (auto simp: checkExclusive_def TryLockFile_def elim!: andthen_RetE split: sum.splits)
  from m assms(3) have w1: "w1 = fold (\<lambda>x. fs_put x Dir) (dir_prefixes d) w"
    by (auto simp: os_MkdirAll_def faulty_def Let_def good_root_clean [OF assms(1)] split: if_splits)
  have f1: "f_faults w1 = []" unfolding w1 by (rule fold_keeps [where I = "\<lambda>w. f_faults w = []"]) (use assms(3) in auto)
  have n1: "fs_get w1 (nodePath d) = fs_get w (nodePath d)" unfolding w1
  proof (rule fold_put_other)
    fix x assume "x \<in> set (dir_prefixes d)"
    from good_root_prefixes [OF assms(1) this] show "path_clean x \<noteq> path_clean (nodePath d)" unfolding c by auto
  qed
  from o f1 have w2: "w2 = w1 \<or> w2 = fs_put (lockPath d) (File []) w1"
    by (auto simp: os_OpenFile_def faulty_def open_write_def split: option.splits fnode.splits if_splits)
  then have "fs_get w2 (nodePath d) = fs_get w1 (nodePath d)" "f_faults w2 = []" using c f1 by (auto simp: fs_get_put)
  then show ?thesis using l n1 by (auto simp: flock_EX_NB_def faulty_def split: if_splits)
qed

text \<open>
  an agent whose id comes from the configuration leaves no file with it, and cleaning up after it fails before any
  request is made: its leader key stays until the lease runs out.
\<close>

theorem configured_id_not_cleaned:
  assumes "good_root (DataDir cfg)" and "fs_get w (nodePath (DataDir cfg)) = None" and "f_faults w = []" and "cfg_NodeID cfg \<noteq> []"
    and "NewAgentNode me dial cfg w = Ret (Inr n) w'"
  shows "an_id n = cfg_NodeID cfg \<and> StartClean dial cfg w' = Ret (Some (ENotFound ''local nodeID file not exist'')) w'"
proof -
  from assms(5) obtain root where root: "new_client dial cfg = Inr root"
    by (auto simp: NewAgentNode_def elim!: andthen_RetE split: sum.splits)
  from assms(5) obtain w1 where x: "checkExclusive me (DataDir cfg) w = Ret (Inr ()) w1" and i: "node_id cfg w1 = Ret (Inr (an_id n)) w'" by (rule NewAgentNode_ok)
  note w1 = checkExclusive_no_id [OF assms(1) x assms(3)]
  have none: "fs_get w1 (nodePath (DataDir cfg)) = None" "f_faults w1 = []" using w1 assms(2) by auto
  then have "an_id n = cfg_NodeID cfg" "w' = w1" using i assms(4) by (auto simp: node_id_def readLocalNodeID_none andthen_def)
  then show ?thesis using none StartClean_none [OF _ _ root] by simp
qed

text \<open>
  when the database does not stop, the tear-down program keeps the leader key in etcd, and so the other nodes from taking over, only
  if it can read the number of the process from the file of the database. If the file is missing or holds no number, it
  does not wait and gives the key away although the database is running.
\<close>

theorem tear_down_unwaited:
  assumes "fs_get w (nodePath (DataDir cfg)) = Some (File i)" and "f_faults w = []" and "new_client dial cfg = Inr root"
    and "n_script w = Rpc env RpcOK d1 d2 # rest" and "KeyWithRootPath root leaderPath \<noteq> []"
    and "etcd_value (env (n_etcd w)) (KeyWithRootPath root leaderPath) = Some i"
  shows "\<exists>w'. tear_down dial (\<lambda>pid. WaitHangs) pidFile cfg w = Ret () w' \<and>
    (if \<exists>bs pid. fs_get w pidFile = Some (File bs) \<and> pid_of bs = Some pid then w' = w
     else etcd_value (n_etcd w') (KeyWithRootPath root leaderPath) = None)"
proof -
  from clean_txn_reply [OF assms(4,5), of i] assms(6) obtain r w' where
    c: "StartClean dial cfg w = Ret r w'" "etcd_value (n_etcd w') (KeyWithRootPath root leaderPath) = None"
    unfolding StartClean_id [OF assms(1-3)] by auto
  have read: "ioutil_ReadFile pidFile w = Ret (case fs_get w pidFile of None \<Rightarrow> Inl ENOENT | Some Dir \<Rightarrow> Inl (EMsg ''is a directory'')
      | Some (File bs) \<Rightarrow> Inr bs) w" using assms(2) by (simp add: ioutil_ReadFile_def faulty_def)
  show ?thesis
  proof (cases "\<exists>bs pid. fs_get w pidFile = Some (File bs) \<and> pid_of bs = Some pid")
    case True
    then show ?thesis using read by (auto simp: tear_down_def waitProcessToStop_def andthen_def)
  next
    case False
    then have "waitProcessToStop (\<lambda>pid. WaitHangs) pidFile w = Ret (Some 0) w"
      using read by (auto simp: waitProcessToStop_def andthen_def split: option.splits fnode.splits)
    then show ?thesis using c False by (auto simp: tear_down_def andthen_def time_Second_def)
  qed
qed

section \<open>Examples\<close>

definition ex_host :: "rpc_event list \<Rightarrow> host" where
  "ex_host rpcs = \<lparr>n_etcd = ex_led, n_script = rpcs, n_clock = 0,
     f_tree = [''/data'' \<mapsto> Dir, ''/data/.lock'' \<mapsto> File [], ''/data/.node'' \<mapsto> File ''n1''], f_locks = [], f_faults = []\<rparr>"

lemma ex_new_client: "EtcdURLs cfg = ''http://127.0.0.1:2379'' \<Longrightarrow> EtcdRootPath cfg = ''/moha'' \<Longrightarrow> ClusterName cfg = ''c1'' \<Longrightarrow>
  new_client (\<lambda>_. None) cfg = Inr ''/moha/c1''"
proof -
  have s: "split_go (CHR '','') ''http://127.0.0.1:2379'' = map (\<lambda>(h, p). ''http://'' @ h @ '':'' @ p) [(''127.0.0.1'', ''2379'')]" by code_simp
  have "list_all (\<lambda>(h, p). plain_address h p) [(''127.0.0.1'', ''2379'')]" by (simp add: plain_address_def plain_char_def is_digit_def)
  from plain_accepted [OF s this] obtain us where "NewURLsValue ''http://127.0.0.1:2379'' = Inr us" by blast
  moreover have "NewClientFromCfg_rootPath ''/moha'' ''c1'' = ''/moha/c1''" by code_simp
  ultimately show "EtcdURLs cfg = ''http://127.0.0.1:2379'' \<Longrightarrow> EtcdRootPath cfg = ''/moha'' \<Longrightarrow> ClusterName cfg = ''c1'' \<Longrightarrow> ?thesis"
    by (simp add: new_client_def)
qed

lemma ex_paths: "path_clean (lockPath ''/data'') = ''/data/.lock''" "path_clean (nodePath ''/data'') = ''/data/.node''" "dir_prefixes ''/data'' = [''/data'']"
  "path_clean ''/data'' = ''/data''" "lockPath ''/data'' \<noteq> []" "nodePath ''/data'' \<noteq> []"
  by code_simp+

lemma ex_files: "fs_get (ex_host rpcs) (lockPath ''/data'') = Some (File [])" "fs_get (ex_host rpcs) (nodePath ''/data'') = Some (File ''n1'')"
  "dirs_made ''/data'' (ex_host rpcs)" "f_faults (ex_host rpcs) = []" "\<not> locked ''/data'' (ex_host rpcs)"
  unfolding fs_get_def dirs_made_def ex_paths Let_def using ex_paths(4-6) by (simp_all add: ex_host_def locked_def fs_get_def)

lemma ex_cfg_fields: "DataDir ex_cfg = ''/data''" "EtcdURLs ex_cfg = ''http://127.0.0.1:2379''" "EtcdRootPath ex_cfg = ''/moha''" "ClusterName ex_cfg = ''c1''"
  "cfg_NodeID ex_cfg = []"
  by (simp_all add: ex_cfg_def)

lemma ex_node: "\<exists>n w'. NewAgentNode me (\<lambda>_. None) ex_cfg (ex_host rpcs) = Ret (Inr n) w' \<and> an_id n = ''n1'' \<and> f_faults w' = []"
  using NewAgentNode_existing [of ex_cfg "ex_host rpcs" "[]" "''n1''" "\<lambda>_. None" "''/moha/c1''" me] ex_files [of rpcs]
  by (auto simp: ex_cfg_fields ex_new_client)

theorem one_node_per_directory_witness:
  "f_locks (final_world (NewAgentNode 2 (\<lambda>_. None) ex_cfg ((ex_host [])\<lparr>f_locks := [(1, ''/data/.lock'')]\<rparr>))) = [(1, ''/data/.lock'')]"
  using one_node_per_directory [of ex_cfg "(ex_host [])\<lparr>f_locks := [(1, ''/data/.lock'')]\<rparr>" 2 "\<lambda>_. None"]
  by (simp add: locked_def ex_cfg_fields ex_paths)

theorem node_id_survives_witness:
  "\<exists>n w. NewAgentNode 3 (\<lambda>_. None) (ex_cfg\<lparr>cfg_NodeID := ''other'', ExternalServiceHost := ''moved:3306''\<rparr>) w = Ret (Inr n) (final_world
     (NewAgentNode 3 (\<lambda>_. None) (ex_cfg\<lparr>cfg_NodeID := ''other'', ExternalServiceHost := ''moved:3306''\<rparr>) w)) \<and> an_id n = ''n1''"
proof -
  let ?c = "ex_cfg\<lparr>cfg_NodeID := ''other'', ExternalServiceHost := ''moved:3306''\<rparr>"
  obtain n w1 where n: "NewAgentNode 1 (\<lambda>_. None) ex_cfg (ex_host []) = Ret (Inr n) w1" "an_id n = ''n1''" "f_faults w1 = []" using ex_node by blast
  have "new_client (\<lambda>_. None) ?c = Inr ''/moha/c1''" by (rule ex_new_client) (simp_all add: ex_cfg_fields)
  from node_id_survives [OF n(1) _ _ _ _ _ this, of "w1\<lparr>f_locks := []\<rparr>" 3] n(2,3) show ?thesis
    by (auto simp: ex_cfg_fields locked_def intro!: exI [of _ "w1\<lparr>f_locks := []\<rparr>"])
qed

theorem lock_lost_witness:
  "\<exists>w1 w2. checkExclusive 2 ''/data'' (collect_garbage 1 [] w1) = Ret (Inr ()) w2 \<and> f_locks w1 = [(1, ''/data/.lock'')]"
proof -
  obtain n w1 where n: "NewAgentNode 1 (\<lambda>_. None) ex_cfg (ex_host []) = Ret (Inr n) w1" "f_faults w1 = []" using ex_node by blast
  from n(1) obtain w0 where x: "checkExclusive 1 ''/data'' (ex_host []) = Ret (Inr ()) w0" "node_id ex_cfg w0 = Ret (Inr (an_id n)) w1"
    by (rule NewAgentNode_ok) (simp add: ex_cfg_fields)
  have "f_locks w1 = [(1, ''/data/.lock'')]"
    using node_id_ok [OF x(2)] checkExclusive_ok [OF x(1)] by (simp add: ex_cfg_fields ex_paths ex_host_def)
  with lock_lost [OF n(1) _ n(2), of 2] show ?thesis by (auto simp: ex_cfg_fields)
qed

lemma ex_leader_key: "KeyWithRootPath ''/moha/c1'' leaderPath = fullLeaderPath (ex_env ''n1'')" "KeyWithRootPath ''/moha/c1'' leaderPath \<noteq> []"
  by code_simp+

lemma ex_led_value: "etcd_value ex_led (KeyWithRootPath ''/moha/c1'' leaderPath) = Some ''n1''"
  unfolding ex_leader_key(1) using ex_led(2) [of "''n1''"] by (simp add: etcd_value_held)

theorem clean_own_key_witness:
  "\<exists>w'. StartClean (\<lambda>_. None) ex_cfg (ex_host [rpc_ok]) = Ret None w' \<and> etcd_value (n_etcd w') (KeyWithRootPath ''/moha/c1'' leaderPath) = None"
  using clean_own_key [of "ex_host [rpc_ok]" ex_cfg "''n1''" "\<lambda>_. None" "''/moha/c1''" id RpcOK 1 1 "[]"] ex_files [of "[rpc_ok]"] ex_led_value ex_leader_key(2)
  by (auto simp: ex_cfg_fields ex_new_client ex_host_def rpc_ok_def)

theorem configured_id_not_cleaned_witness:
  "\<exists>n w w'. NewAgentNode 1 (\<lambda>_. None) (ex_cfg\<lparr>cfg_NodeID := ''m7''\<rparr>) w = Ret (Inr n) w' \<and> an_id n = ''m7'' \<and>
     StartClean (\<lambda>_. None) (ex_cfg\<lparr>cfg_NodeID := ''m7''\<rparr>) w' = Ret (Some (ENotFound ''local nodeID file not exist'')) w'"
proof -
  let ?w = "(ex_host [])\<lparr>f_tree := [''/data'' \<mapsto> Dir, ''/data/.lock'' \<mapsto> File []]\<rparr>" and ?c = "ex_cfg\<lparr>cfg_NodeID := ''m7''\<rparr>"
  have g: "good_root (DataDir ?c)" by (auto simp: ex_cfg_fields good_root_def good_rel_def good_comp_def)
  have n: "fs_get ?w (nodePath ''/data'') = None" using ex_paths by (simp add: fs_get_def)
  have "fs_get ?w (lockPath ''/data'') = Some (File [])" "dirs_made ''/data'' ?w" "f_faults ?w = []" "\<not> locked ''/data'' ?w"
    unfolding fs_get_def dirs_made_def Let_def using ex_paths by (simp_all add: ex_host_def locked_def fs_get_def)
  from checkExclusive_again [OF this(2,1,3,4), of 1] obtain w1 where w1: "checkExclusive 1 ''/data'' ?w = Ret (Inr ()) w1" "f_faults w1 = []" by blast
  have "node_id ?c w1 = Ret (Inr ''m7'') w1"
    using checkExclusive_no_id [OF g, of 1 ?w] w1 n by (simp add: ex_cfg_fields ex_host_def node_id_def readLocalNodeID_none andthen_def)
  then have "\<exists>n. NewAgentNode 1 (\<lambda>_. None) ?c ?w = Ret (Inr n) w1"
    using w1(1) ex_new_client [of ?c] by (simp add: NewAgentNode_def andthen_def ex_cfg_fields)
  then obtain n where r: "NewAgentNode 1 (\<lambda>_. None) ?c ?w = Ret (Inr n) w1" by blast
  have "an_id n = ''m7'' \<and> StartClean (\<lambda>_. None) ?c w1 = Ret (Some (ENotFound ''local nodeID file not exist'')) w1"
    using configured_id_not_cleaned [OF g _ _ _ r] n by (simp add: ex_cfg_fields ex_host_def)
  with r show ?thesis by blast
qed

theorem tear_down_unwaited_witness:
  "\<exists>w'. tear_down (\<lambda>_. None) (\<lambda>pid. WaitHangs) ''/run/mysqld.pid'' ex_cfg (ex_host [rpc_ok]) = Ret () w' \<and>
     etcd_value (n_etcd w') (KeyWithRootPath ''/moha/c1'' leaderPath) = None"
proof -
  have "path_clean ''/run/mysqld.pid'' = ''/run/mysqld.pid''" by code_simp
  then have "fs_get (ex_host [rpc_ok]) ''/run/mysqld.pid'' = None" by (simp add: fs_get_def ex_host_def)
  with tear_down_unwaited [of "ex_host [rpc_ok]" ex_cfg "''n1''" "\<lambda>_. None" "''/moha/c1''" id 1 1 "[]" "''/run/mysqld.pid''"] ex_files [of "[rpc_ok]"]
    ex_led_value ex_leader_key(2)
  show ?thesis by (auto simp: ex_cfg_fields ex_new_client ex_host_def rpc_ok_def)
qed

end
