(* ===== verification/Tool_Runs.thy ===== *)
theory Tool_Runs
  imports Moha_Mysql
begin

text \<open>
  Processes beside the agents, the tools of \<open>src/moctl\<close> and the checker of \<open>src/checker\<close>: they ask databases, agents, etcd and the shell.
  Scripts hold the answers, in the order of the questions, and a trace keeps what was asked and answered, oldest first. A triple
  (\<open>traced\<close>) relates the entries an operation adds to the way it ends.
\<close>

section \<open>A tool and its surroundings\<close>

datatype http_reply = HttpFailed | HttpReply int string

datatype tool_action = Queried string string sql_reply | Requested string bool | Ran "string list" "error + string"

record tool = net +
  t_dial :: "error option list"
  t_sql :: "sql_reply list"
  t_http :: "http_reply list"
  t_cmds :: "(error + string) list"
  t_trace :: "tool_action list"

definition reply_rows :: "sql_reply \<Rightarrow> error + rows" where
  "reply_rows x = (case x of SqlReply err cols rws rerr t \<Rightarrow> (case err of Some e \<Rightarrow> Inl e | None \<Rightarrow> Inr (cols, rws, rerr)))"

fun reply_time :: "sql_reply \<Rightarrow> int" where
  "reply_time (SqlReply err cols rws rerr t) = int t"

definition tool_Query :: "string \<Rightarrow> string \<Rightarrow> ('z tool_scheme, error + rows) io" where
  "tool_Query db stmt w =
     (case t_sql w of
        [] \<Rightarrow> Wait w
      | x # rest \<Rightarrow>
          Ret (reply_rows x)
            (w\<lparr>t_sql := rest, t_trace := t_trace w @ [Queried db stmt x], n_clock := n_clock w + reply_time x\<rparr>))"

text \<open>A text read from the last row. An error of the rows themselves ends the function with the empty text and no error.\<close>

definition scanned_string :: "error + rows \<Rightarrow> error + string" where
  "scanned_string r =
     (case r of
        Inl e \<Rightarrow> Inl e
      | Inr (_, rws, rerr) \<Rightarrow>
          (case scan_uuid_rows [] rws of Inl e \<Rightarrow> Inl e | Inr u \<Rightarrow> Inr (if rerr \<noteq> None then [] else u)))"

text \<open>A command with what it prints, or its error.\<close>

definition tool_run :: "string list \<Rightarrow> ('z tool_scheme, error + string) io" where
  "tool_run c w = (case t_cmds w of [] \<Rightarrow> Wait w | r # rest \<Rightarrow> Ret r (w\<lparr>t_cmds := rest, t_trace := t_trace w @ [Ran c r]\<rparr>))"

definition tool_Get :: "string \<Rightarrow> bool \<Rightarrow> ('z tool_scheme, error + kv list) io" where
  "tool_Get k withPrefix = rpc_call False (\<lambda>_. range_req k withPrefix)"

definition initEtcdClient :: "('z tool_scheme, error option) io" where
  "initEtcdClient w = (case t_dial w of [] \<Rightarrow> Wait w | e # rest \<Rightarrow> Ret e (w\<lparr>t_dial := rest\<rparr>))"

definition tool_exit :: "('z tool_scheme, 'a) io" where
  "tool_exit = os_Exit (- 1)"

definition tool_Sleep :: "int \<Rightarrow> ('z tool_scheme, unit) io" where
  "tool_Sleep d = updates (\<lambda>w. w\<lparr>n_clock := n_clock w + d\<rparr>)"

section \<open>What a run leaves in the trace\<close>

text \<open>
  \<open>traced m Q\<close>: however \<open>m\<close> ends, it adds entries to the trace that \<open>Q\<close> relates to the way it ends
  (the outcome without its world).
\<close>

abbreviation ending :: "('w, 'a) outcome \<Rightarrow> (unit, 'a) outcome" where
  "ending r \<equiv> map_outcome (\<lambda>_. ()) id r"

definition traced :: "('z tool_scheme, 'a) io \<Rightarrow> ((unit, 'a) outcome \<Rightarrow> tool_action list \<Rightarrow> bool) \<Rightarrow> bool" where
  "traced m Q \<longleftrightarrow> (\<forall>w. \<exists>tr. t_trace (final_world (m w)) = t_trace w @ tr \<and> Q (ending (m w)) tr)"

lemma traced_weaken: "traced m Q' \<Longrightarrow> (\<And>r tr. Q' r tr \<Longrightarrow> Q r tr) \<Longrightarrow> traced m Q"
  unfolding traced_def by meson

lemma traced_andthen:
  assumes m: "traced m P"
    and go: "\<And>a tr. P (Ret a ()) tr \<Longrightarrow> traced (f a) (\<lambda>r tr'. Q r (tr @ tr'))"
    and stop: "\<And>c tr. P (Exit c ()) tr \<Longrightarrow> Q (Exit c ()) tr"
      "\<And>tr. P (Panic ()) tr \<Longrightarrow> Q (Panic ()) tr" "\<And>tr. P (Wait ()) tr \<Longrightarrow> Q (Wait ()) tr"
  shows "traced (andthen m f) Q"
  unfolding traced_def
proof
  fix w
  obtain tr where tr: "t_trace (final_world (m w)) = t_trace w @ tr" "P (ending (m w)) tr" using m unfolding traced_def by blast
  show "\<exists>tr. t_trace (final_world (andthen m f w)) = t_trace w @ tr \<and> Q (ending (andthen m f w)) tr"
  proof (cases "m w")
    case (Ret a w')
    then have "traced (f a) (\<lambda>r tr'. Q r (tr @ tr'))" using tr(2) by (intro go) simp
    then obtain tr' where "t_trace (final_world (f a w')) = t_trace w' @ tr'" "Q (ending (f a w')) (tr @ tr')"
      unfolding traced_def by blast
    then show ?thesis using Ret tr(1) by (intro exI [of _ "tr @ tr'"]) (simp add: andthen_def)
  qed (use tr stop in \<open>auto simp: andthen_def\<close>)
qed

lemma traced_ret: "Q (Ret a ()) [] \<Longrightarrow> traced (ret a) Q"
  by (simp add: traced_def)

lemma traced_tool_exit: "Q (Exit (- 1) ()) [] \<Longrightarrow> traced tool_exit Q"
  by (simp add: traced_def tool_exit_def)

lemma traced_query:
  "traced (tool_Query db stmt)
     (\<lambda>r tr. case r of Ret v _ \<Rightarrow> \<exists>x. tr = [Queried db stmt x] \<and> v = reply_rows x | Wait _ \<Rightarrow> tr = [] | _ \<Rightarrow> False)"
  by (simp add: traced_def tool_Query_def split: list.split)

lemma traced_read:
  "traced (andthen (tool_Query db stmt) (\<lambda>r. ret (f r)))
     (\<lambda>r tr. case r of Ret v _ \<Rightarrow> \<exists>x. tr = [Queried db stmt x] \<and> v = f (reply_rows x) | Wait _ \<Rightarrow> tr = [] | _ \<Rightarrow> False)"
  by (rule traced_andthen [OF traced_query]) (auto intro!: traced_ret)

lemma traced_run: "traced (tool_run c) (\<lambda>r tr. case r of Ret v _ \<Rightarrow> tr = [Ran c v] | Wait _ \<Rightarrow> tr = [] | _ \<Rightarrow> False)"
  by (simp add: traced_def tool_run_def split: list.split)

section \<open>Requests\<close>

fun requests :: "tool_action list \<Rightarrow> (string \<times> bool) list" where
  "requests [] = []"
| "requests (Queried db stmt r # tr) = requests tr"
| "requests (Ran c r # tr) = requests tr"
| "requests (Requested api ok # tr) = (api, ok) # requests tr"

lemma requests_append [simp]: "requests (a @ b) = requests a @ requests b"
  by (induction a rule: requests.induct) simp_all

abbreviation quiet :: "('z tool_scheme, 'a) io \<Rightarrow> bool" where
  "quiet m \<equiv> traced m (\<lambda>_ tr. requests tr = [])"

lemma quiet_andthen: "quiet m \<Longrightarrow> (\<And>a. quiet (f a)) \<Longrightarrow> quiet (andthen m f)"
  by (rule traced_andthen [where P = "\<lambda>_ tr. requests tr = []"]) auto

lemma quiet_query: "quiet (tool_Query db stmt)"
  by (rule traced_weaken [OF traced_query]) (auto split: outcome.splits)

lemma quiet_run: "quiet (tool_run c)"
  by (rule traced_weaken [OF traced_run]) (auto split: outcome.splits)

lemma quiet_Get: "quiet (tool_Get k p)" "quiet initEtcdClient"
  by (auto simp: traced_def tool_Get_def initEtcdClient_def rpc_call_def Let_def split: list.split rpc_event.split rpc_status.split)

lemma quiet_ret: "quiet (ret a)" "quiet (Ret a)" "quiet tool_exit"
  by (auto simp: traced_def tool_exit_def)

lemma quiet_sleep: "quiet (tool_Sleep d)"
  by (simp add: traced_def tool_Sleep_def)

end
