(* ===== verification/Moctl_Switch.thy ===== *)
theory Moctl_Switch
  imports Tool_Runs
begin

text \<open>
  The operator's tool for a planned change of the master, \<open>src/moctl/switch.go\<close>: it looks the nodes up in etcd, checks them, asks the
  agent of the master over HTTP to close the database, waits until the slaves have caught up, and asks for the change or opens
  the database again. Every query and every request is an entry of one trace, oldest first; scripts hold what the databases
  and the agents answer. A request without a response is a nil response in the code, which the next line dereferences.
\<close>

record switch_config =
  sw_EtcdRootPath :: string
  sw_EtcdCluster :: string
  sw_MysqlUser :: string
  sw_MysqlPwd :: string

text \<open>A node of the cluster, as the tool takes it apart.\<close>

type_synonym node_addr = "string \<times> string"

text \<open>
  A connection is its data source name. The name has the form the driver reads, whatever the port is, so opening it does not
  fail; the port is what \<open>strconv.Atoi\<close> returns, error or not.
\<close>

definition CreateDB :: "switch_config \<Rightarrow> node_addr \<Rightarrow> string" where
  "CreateDB cfg n = sw_MysqlUser cfg @ '':'' @ sw_MysqlPwd cfg @ ''@tcp('' @ fst n @ '':'' @ show_int (fst (parseInt64 (snd n))) @
     '')/?charset=utf8&interpolateParams=true&readTimeout=1s&writeTimeout=1s&timeout=1s''"

type_synonym 'a tool_io = "(tool, 'a) io"

section \<open>Statements\<close>

definition slave_status_of :: "rows \<Rightarrow> (string \<times> string) list" where
  "slave_status_of r = (case r of (cols, rws, _) \<Rightarrow> status_map cols (scan_bytes (length cols) rws))"

definition tool_GetSlaveStatus :: "string \<Rightarrow> (error + (string \<times> string) list) tool_io" where
  "tool_GetSlaveStatus db = andthen (tool_Query db ''SHOW SLAVE STATUS '') (\<lambda>r. ret (map_sum id slave_status_of r))"

definition scan_number :: "cell \<Rightarrow> int option" where
  "scan_number c = (case c of None \<Rightarrow> None | Some v \<Rightarrow> (case parseInt64 v of (n, True) \<Rightarrow> Some n | (n, False) \<Rightarrow> None))"

fun scan_threads :: "int \<Rightarrow> cell list list \<Rightarrow> error + int" where
  "scan_threads n [] = Inr n"
| "scan_threads n (r # rs) =
     (case r of
        [_, c] \<Rightarrow> (case scan_number c of None \<Rightarrow> Inl scan_error | Some k \<Rightarrow> scan_threads k rs)
      | _ \<Rightarrow> Inl scan_error)"

definition threadsRunning :: "string \<Rightarrow> (error + int) tool_io" where
  "threadsRunning db =
     andthen (tool_Query db (''show global status like '' @ [CHR 0x22] @ ''Threads_running'' @ [CHR 0x22])) (\<lambda>r. case r of
       Inl e \<Rightarrow> ret (Inl e)
     | Inr (_, rws, _) \<Rightarrow> ret (scan_threads 0 rws))"

fun scan_master :: "string \<times> int \<times> string \<Rightarrow> cell list list \<Rightarrow> error + string \<times> int \<times> string" where
  "scan_master m [] = Inr m"
| "scan_master m (r # rs) =
     (case r of
        [Some f, p, _, _, Some g] \<Rightarrow> (case scan_number p of None \<Rightarrow> Inl scan_error | Some n \<Rightarrow> scan_master (f, n, g) rs)
      | _ \<Rightarrow> Inl scan_error)"

text \<open>On an error the values are text that is no file and no GTID set, and a position.\<close>

definition master_of :: "error + rows \<Rightarrow> error option \<times> string \<times> int \<times> string" where
  "master_of r =
     (case r of
        Inl e \<Rightarrow> (Some e, ''nil'', 9999, ''nil'')
      | Inr (_, rws, _) \<Rightarrow>
          (case scan_master ([], 0, []) rws of Inl e \<Rightarrow> (Some e, ''nil'', 9999, ''nil'') | Inr m \<Rightarrow> (None, m)))"

definition masterStatus :: "string \<Rightarrow> (error option \<times> string \<times> int \<times> string) tool_io" where
  "masterStatus db = andthen (tool_Query db ''show master status'') (\<lambda>r. ret (master_of r))"

definition tool_getServerUUID :: "string \<Rightarrow> (error + string) tool_io" where
  "tool_getServerUUID db = andthen (tool_Query db ''SELECT @@server_uuid;'') (\<lambda>r. ret (scanned_string r))"

definition getTxnIDFromGTIDStr :: "string \<Rightarrow> string \<Rightarrow> error + int" where
  "getTxnIDFromGTIDStr gtidStr serverUUID =
     (case parseGTIDSet gtidStr of
        Inl e \<Rightarrow> Inl e
      | Inr m \<Rightarrow> Inr (case map_of m serverUUID of None \<Rightarrow> 0 | Some ivs \<Rightarrow> if ivs = [] then 0 else snd (last ivs)))"

section \<open>Requests to the agent\<close>

definition getMysqlAgent :: "string \<Rightarrow> bool tool_io" where
  "getMysqlAgent agentapi w =
     (case t_http w of
        [] \<Rightarrow> Wait w
      | HttpFailed # rest \<Rightarrow> Panic (w\<lparr>t_http := rest\<rparr>)
      | HttpReply code body # rest \<Rightarrow>
          (let ok = (code = 200 \<and> contains_go body ''success'')
           in Ret ok (w\<lparr>t_http := rest, t_trace := t_trace w @ [Requested agentapi ok]\<rparr>)))"

section \<open>The nodes in etcd\<close>

text \<open>The first two fields of an address; the code panics when there is only one.\<close>

definition split_addr :: "string \<Rightarrow> node_addr tool_io" where
  "split_addr s =
     (case split_go (CHR '':'') s of
        a # b # _ \<Rightarrow> ret (a, b)
      | _ \<Rightarrow> go_panic)"

definition getInstanceGroupMaster :: "switch_config \<Rightarrow> node_addr tool_io" where
  "getInstanceGroupMaster cfg =
     andthen initEtcdClient (\<lambda>err. if err \<noteq> None then tool_exit
      else andthen (tool_Get (sw_EtcdRootPath cfg @ sw_EtcdCluster cfg @ ''/master'') False) (\<lambda>r. case r of
        Inl e \<Rightarrow> tool_exit
      | Inr [] \<Rightarrow> tool_exit
      | Inr (x # _) \<Rightarrow> split_addr (kv_value x)))"

definition getSingleMasterMode :: "switch_config \<Rightarrow> bool tool_io" where
  "getSingleMasterMode cfg =
     andthen initEtcdClient (\<lambda>err. if err \<noteq> None then tool_exit
      else andthen (tool_Get (sw_EtcdRootPath cfg @ sw_EtcdCluster cfg @ ''/single_point_master'') False) (\<lambda>r. case r of
        Inl e \<Rightarrow> tool_exit
      | Inr kvs \<Rightarrow> ret (kvs \<noteq> [])))"

text \<open>\<open>path.Split\<close>: the part after the last slash.\<close>

definition path_file :: "string \<Rightarrow> string" where
  "path_file s = rev (takeWhile (\<lambda>c. c \<noteq> CHR ''/'') (rev s))"

definition getInstanceGroupSlave :: "switch_config \<Rightarrow> string list tool_io" where
  "getInstanceGroupSlave cfg =
     andthen initEtcdClient (\<lambda>err. if err \<noteq> None then tool_exit
      else andthen (tool_Get (sw_EtcdRootPath cfg @ sw_EtcdCluster cfg @ ''/slave'') True) (\<lambda>r. case r of
        Inl e \<Rightarrow> tool_exit
      | Inr kvs \<Rightarrow> if kvs = [] then tool_exit else ret (map (\<lambda>x. path_file (kv_key x)) kvs)))"

section \<open>The checks\<close>

definition maxRuningThred :: int where
  "maxRuningThred = 200"

definition maxNotExecGtid :: int where
  "maxNotExecGtid = 10000"

text \<open>
  The result of a check with an error: the code only looks at the boolean before it closes the master. The loop over the slaves
  returns in its first round, with either result. A port that is no number is 0 there, and the connection fails.
\<close>

definition check_slave :: "switch_config \<Rightarrow> string \<Rightarrow> string \<Rightarrow> string \<Rightarrow> bool tool_io" where
  "check_slave cfg mastergtid serverUUID s =
     andthen (split_addr s) (\<lambda>db.
     andthen (tool_GetSlaveStatus (CreateDB cfg db)) (\<lambda>r.
       let info = (case r of Inl e \<Rightarrow> [] | Inr m \<Rightarrow> m) in
       if status_get info ''Slave_IO_Running'' = ''Yes'' \<and> status_get info ''Slave_SQL_Running'' = ''Yes'' then
         (case (getTxnIDFromGTIDStr mastergtid serverUUID, getTxnIDFromGTIDStr (status_get info ''Executed_Gtid_Set'') serverUUID) of
            (Inr m, Inr x) \<Rightarrow> ret (wrap64 (m - x) < maxNotExecGtid)
          | _ \<Rightarrow> ret False)
       else ret False))"

definition prefixSwitchCheck :: "switch_config \<Rightarrow> node_addr \<Rightarrow> string list \<Rightarrow> bool tool_io" where
  "prefixSwitchCheck cfg masterNode slaveNode =
     andthen (threadsRunning (CreateDB cfg masterNode)) (\<lambda>t. case t of
       Inl e \<Rightarrow> ret False
     | Inr n \<Rightarrow>
         if n > maxRuningThred then ret False
         else
           andthen (tool_getServerUUID (CreateDB cfg masterNode)) (\<lambda>u.
           andthen (masterStatus (CreateDB cfg masterNode)) (\<lambda>(_, _, _, mastergtid).
             case slaveNode of
               [] \<Rightarrow> ret True
             | s # _ \<Rightarrow> check_slave cfg mastergtid (case u of Inl e \<Rightarrow> [] | Inr x \<Rightarrow> x) s)))"

definition slave_caught_up :: "string \<Rightarrow> int \<Rightarrow> int \<Rightarrow> string \<Rightarrow> (string \<times> string) list \<Rightarrow> bool" where
  "slave_caught_up file pos txn serverUUID info \<longleftrightarrow>
     status_get info ''Relay_Master_Log_File'' = file \<and> status_get info ''Exec_Master_Log_Pos'' = show_int pos \<and>
     wrap64 (txn - (case getTxnIDFromGTIDStr (status_get info ''Executed_Gtid_Set'') serverUUID of Inl e \<Rightarrow> 0 | Inr x \<Rightarrow> x)) = 0"

fun check_slaves :: "switch_config \<Rightarrow> string \<Rightarrow> int \<Rightarrow> int \<Rightarrow> string \<Rightarrow> string list \<Rightarrow> (error + bool) tool_io" where
  "check_slaves cfg file pos txn serverUUID [] = ret (Inr True)"
| "check_slaves cfg file pos txn serverUUID (s # ss) =
     andthen (split_addr s) (\<lambda>db.
     andthen (tool_GetSlaveStatus (CreateDB cfg db)) (\<lambda>r. case r of
       Inl e \<Rightarrow> ret (Inl e)
     | Inr info \<Rightarrow>
         if slave_caught_up file pos txn serverUUID info then check_slaves cfg file pos txn serverUUID ss
         else ret (Inr False)))"

definition checkConsistency :: "switch_config \<Rightarrow> node_addr \<Rightarrow> string list \<Rightarrow> (error + bool) tool_io" where
  "checkConsistency cfg masterNode slaveNode =
     andthen (masterStatus (CreateDB cfg masterNode)) (\<lambda>(_, file, pos, gtid).
     andthen (tool_getServerUUID (CreateDB cfg masterNode)) (\<lambda>u. case u of
       Inl e \<Rightarrow> ret (Inl e)
     | Inr serverUUID \<Rightarrow>
         (case getTxnIDFromGTIDStr gtid serverUUID of
            Inl e \<Rightarrow> ret (Inl e)
          | Inr txn \<Rightarrow> check_slaves cfg file pos txn serverUUID slaveNode)))"

section \<open>The change of the master\<close>

definition agent_api :: "node_addr \<Rightarrow> string \<Rightarrow> string" where
  "agent_api masterNode what = ''http://'' @ fst masterNode @ '':1'' @ snd masterNode @ what"

definition setReadOnlyAPI :: "node_addr \<Rightarrow> string" where
  "setReadOnlyAPI m = agent_api m ''/setReadOnly''"

definition setChangeMaster :: "node_addr \<Rightarrow> string" where
  "setChangeMaster m = agent_api m ''/changeMaster''"

definition setReadWriteAPI :: "node_addr \<Rightarrow> string" where
  "setReadWriteAPI m = agent_api m ''//setReadWrite''"

fun switch_loop :: "switch_config \<Rightarrow> nat \<Rightarrow> node_addr \<Rightarrow> string list \<Rightarrow> unit tool_io" where
  "switch_loop cfg 0 m slaves = andthen (getMysqlAgent (setReadWriteAPI m)) (\<lambda>_. ret ())"
| "switch_loop cfg (Suc n) m slaves =
     andthen (checkConsistency cfg m slaves) (\<lambda>r. case r of
       Inl e \<Rightarrow> andthen (getMysqlAgent (setReadWriteAPI m)) (\<lambda>_. tool_exit)
     | Inr consistent \<Rightarrow>
         andthen
           (if consistent then
              andthen (getMysqlAgent (setChangeMaster m)) (\<lambda>changed.
                if changed then tool_exit
                else andthen (getMysqlAgent (setReadWriteAPI m)) (\<lambda>_. ret ()))
            else ret ()) (\<lambda>_.
         andthen (tool_Sleep time_Second) (\<lambda>_. switch_loop cfg n m slaves)))"

text \<open>The registered nodes other than the master.\<close>

fun real_slaves :: "node_addr \<Rightarrow> string list \<Rightarrow> string list tool_io" where
  "real_slaves m [] = ret []"
| "real_slaves m (s # ss) =
     andthen (split_addr s) (\<lambda>a.
     andthen (real_slaves m ss) (\<lambda>rest. ret (if a = m then rest else s # rest)))"

definition do_switch :: "switch_config \<Rightarrow> node_addr \<Rightarrow> string list \<Rightarrow> unit tool_io" where
  "do_switch cfg m slaves =
     andthen (prefixSwitchCheck cfg m slaves) (\<lambda>ok.
       if ok then
         andthen (getMysqlAgent (setReadOnlyAPI m)) (\<lambda>closed.
           if closed then switch_loop cfg 10 m slaves else ret ())
       else ret ())"

definition switch_main :: "bool \<Rightarrow> error + switch_config \<Rightarrow> unit tool_io" where
  "switch_main h decoded =
     (if h then tool_exit
      else case decoded of
        Inl e \<Rightarrow> tool_exit
      | Inr cfg \<Rightarrow>
          andthen (getSingleMasterMode cfg) (\<lambda>single.
            if single then tool_exit
            else
              andthen (getInstanceGroupMaster cfg) (\<lambda>m.
              andthen (getInstanceGroupSlave cfg) (\<lambda>slaveNode.
              andthen (real_slaves m slaveNode) (\<lambda>slaves. do_switch cfg m slaves)))))"

section \<open>Requests\<close>

lemma traced_request:
  "traced (getMysqlAgent api) (\<lambda>r tr. case r of Ret ok _ \<Rightarrow> tr = [Requested api ok] | Exit _ _ \<Rightarrow> False | _ \<Rightarrow> tr = [])"
  by (simp add: traced_def getMysqlAgent_def Let_def split: list.split http_reply.split)

lemma traced_split: "traced (split_addr s) (\<lambda>r tr. tr = [] \<and>
    (case r of Ret db _ \<Rightarrow> (\<exists>rest. split_go (CHR '':'') s = fst db # snd db # rest) | Panic _ \<Rightarrow> True | _ \<Rightarrow> False))"
  by (auto simp: traced_def split_addr_def split: list.split)

lemma quiet_split: "quiet (split_addr s)"
  by (rule traced_weaken [OF traced_split]) auto

lemmas quiet_rules = quiet_andthen quiet_query quiet_split quiet_Get quiet_ret

lemma quiet_reads:
  "quiet (tool_GetSlaveStatus db)" "quiet (threadsRunning db)" "quiet (masterStatus db)" "quiet (tool_getServerUUID db)"
  unfolding tool_GetSlaveStatus_def threadsRunning_def masterStatus_def tool_getServerUUID_def
  by (auto intro!: quiet_rules split: sum.split)

lemma quiet_etcd:
  "quiet (getInstanceGroupMaster cfg)" "quiet (getSingleMasterMode cfg)" "quiet (getInstanceGroupSlave cfg)"
  unfolding getInstanceGroupMaster_def getSingleMasterMode_def getInstanceGroupSlave_def
  by (auto intro!: quiet_rules split: sum.split list.split)

lemma quiet_real_slaves: "quiet (real_slaves m ss)"
  by (induction ss) (auto intro!: quiet_rules)

lemma quiet_prefixSwitchCheck: "quiet (prefixSwitchCheck cfg m ss)"
  unfolding prefixSwitchCheck_def check_slave_def Let_def
  by (auto intro!: quiet_rules quiet_reads split: sum.split list.split)

section \<open>What a successful check has seen\<close>

fun slaves_at :: "switch_config \<Rightarrow> string \<Rightarrow> int \<Rightarrow> int \<Rightarrow> string \<Rightarrow> string list \<Rightarrow> tool_action list \<Rightarrow> bool" where
  "slaves_at cfg file pos txn uuid [] tr = (tr = [])"
| "slaves_at cfg file pos txn uuid (s # ss) tr =
     (\<exists>ip port rest x rs tr'. split_go (CHR '':'') s = ip # port # rest \<and>
        tr = Queried (CreateDB cfg (ip, port)) ''SHOW SLAVE STATUS '' x # tr' \<and> reply_rows x = Inr rs \<and>
        slave_caught_up file pos txn uuid (slave_status_of rs) \<and> slaves_at cfg file pos txn uuid ss tr')"

text \<open>The queries of a check, of the master and then of every slave in turn, with answers in which every slave has executed what the master has.\<close>

definition all_caught_up :: "switch_config \<Rightarrow> node_addr \<Rightarrow> string list \<Rightarrow> tool_action list \<Rightarrow> bool" where
  "all_caught_up cfg m ss tr \<longleftrightarrow>
     (\<exists>x y tr' err file pos gtid uuid txn.
        tr = Queried (CreateDB cfg m) ''show master status'' x # Queried (CreateDB cfg m) ''SELECT @@server_uuid;'' y # tr' \<and>
        master_of (reply_rows x) = (err, file, pos, gtid) \<and> scanned_string (reply_rows y) = Inr uuid \<and>
        getTxnIDFromGTIDStr gtid uuid = Inr txn \<and> slaves_at cfg file pos txn uuid ss tr')"

abbreviation checks :: "(error + bool) tool_io \<Rightarrow> (tool_action list \<Rightarrow> bool) \<Rightarrow> bool" where
  "checks f C \<equiv> traced f (\<lambda>r tr. requests tr = [] \<and> (\<forall>c. r \<noteq> Exit c ()) \<and> (r = Ret (Inr True) () \<longrightarrow> C tr))"

lemma check_slaves_checks: "checks (check_slaves cfg file pos txn uuid ss) (slaves_at cfg file pos txn uuid ss)"
proof (induction ss)
  case Nil
  show ?case by (simp add: traced_def)
next
  case (Cons s ss)
  let ?Q = "\<lambda>r tr. requests tr = [] \<and> (\<forall>c. r \<noteq> Exit c ()) \<and> (r = Ret (Inr True) () \<longrightarrow> slaves_at cfg file pos txn uuid (s # ss) tr)"
  have status: "traced (case map_sum id slave_status_of (reply_rows x) of Inl e \<Rightarrow> ret (Inl e)
        | Inr info \<Rightarrow> if slave_caught_up file pos txn uuid info then check_slaves cfg file pos txn uuid ss else ret (Inr False))
        (\<lambda>r tr. ?Q r (Queried (CreateDB cfg db) ''SHOW SLAVE STATUS '' x # tr))"
    if "split_go (CHR '':'') s = fst db # snd db # rest" for x db rest
    using that by (cases "reply_rows x") (auto intro!: traced_ret intro: traced_weaken [OF Cons.IH])
  show ?case
    unfolding check_slaves.simps tool_GetSlaveStatus_def
    by (rule traced_andthen [OF traced_split], rule traced_andthen [OF traced_read]) (use status in auto)
qed

lemma checkConsistency_checks: "checks (checkConsistency cfg m ss) (all_caught_up cfg m ss)"
proof -
  let ?q = "\<lambda>x y tr. Queried (CreateDB cfg m) ''show master status'' x # Queried (CreateDB cfg m) ''SELECT @@server_uuid;'' y # tr"
  have slaves: "checks (case scanned_string (reply_rows y) of Inl e \<Rightarrow> ret (Inl e)
        | Inr uuid \<Rightarrow> (case getTxnIDFromGTIDStr gtid uuid of Inl e \<Rightarrow> ret (Inl e) | Inr txn \<Rightarrow> check_slaves cfg fn pos txn uuid ss))
        (\<lambda>tr. all_caught_up cfg m ss (?q x y tr))"
    if "master_of (reply_rows x) = (err, fn, pos, gtid)" for x y err fn pos gtid
    using that
    by (auto split: sum.split simp: all_caught_up_def intro!: traced_ret intro: traced_weaken [OF check_slaves_checks])
  show ?thesis
    unfolding checkConsistency_def masterStatus_def tool_getServerUUID_def
    apply (rule traced_andthen [OF traced_read])
    subgoal for a tr
      by (cases a) (auto intro!: traced_andthen [OF traced_read] dest!: sym [of _ "master_of _"], rule slaves)
    by auto
qed

section \<open>The master is handed over only after a successful check\<close>

definition every_change :: "switch_config \<Rightarrow> node_addr \<Rightarrow> string list \<Rightarrow> tool_action list \<Rightarrow> bool" where
  "every_change cfg m ss tr \<longleftrightarrow>
     (\<forall>pre ok post. tr = pre @ Requested (setChangeMaster m) ok # post \<longrightarrow> (\<exists>pre' chk. pre = pre' @ chk \<and> all_caught_up cfg m ss chk))"

lemma every_change_append [intro]:
  assumes "every_change cfg m ss a" and "every_change cfg m ss b"
  shows "every_change cfg m ss (a @ b)"
  unfolding every_change_def
proof (intro allI impI)
  fix pre ok post assume "a @ b = pre @ Requested (setChangeMaster m) ok # post"
  then consider us where "a = pre @ Requested (setChangeMaster m) ok # us"
    | us where "pre = a @ us" "b = us @ Requested (setChangeMaster m) ok # post"
    by (auto simp: append_eq_append_conv2 Cons_eq_append_conv append_eq_Cons_conv)
  then show "\<exists>pre' chk. pre = pre' @ chk \<and> all_caught_up cfg m ss chk"
  proof cases
    case 1
    then show ?thesis using assms(1) unfolding every_change_def by blast
  next
    case 2
    then obtain p c where "us = p @ c" "all_caught_up cfg m ss c" using assms(2) unfolding every_change_def by blast
    then show ?thesis using 2(1) by (intro exI [of _ "a @ p"] exI [of _ c]) simp
  qed
qed

lemma every_change_quiet: "requests tr = [] \<Longrightarrow> every_change cfg m ss tr"
  by (auto simp: every_change_def)

lemma every_change_other: "api \<noteq> setChangeMaster m \<Longrightarrow> every_change cfg m ss [Requested api ok]"
  by (auto simp: every_change_def Cons_eq_append_conv)

lemma every_change_check:
  assumes "requests chk = []" and "all_caught_up cfg m ss chk"
  shows "every_change cfg m ss (chk @ [Requested (setChangeMaster m) ok])"
  unfolding every_change_def
proof (intro allI impI)
  fix pre ok' post assume eq: "chk @ [Requested (setChangeMaster m) ok] = pre @ Requested (setChangeMaster m) ok' # post"
  have "pre = chk"
  proof (cases post rule: rev_cases)
    case (snoc q x)
    then have "chk = pre @ Requested (setChangeMaster m) ok' # q" using eq by simp
    then show ?thesis using assms(1) by simp
  qed (use eq in simp)
  then show "\<exists>pre' chk. pre = pre' @ chk \<and> all_caught_up cfg m ss chk" using assms(2) by (intro exI [of _ "[]"] exI [of _ chk]) simp
qed

lemma apis_differ [simp]:
  "setReadOnlyAPI m \<noteq> setChangeMaster m" "setReadWriteAPI m \<noteq> setChangeMaster m"
  by (simp_all add: setReadOnlyAPI_def setChangeMaster_def setReadWriteAPI_def agent_api_def)

abbreviation guarded_changes :: "switch_config \<Rightarrow> node_addr \<Rightarrow> string list \<Rightarrow> 'a tool_io \<Rightarrow> bool" where
  "guarded_changes cfg m ss f \<equiv> traced f (\<lambda>_. every_change cfg m ss)"

lemma guarded_andthen:
  "guarded_changes cfg m ss f \<Longrightarrow> (\<And>a. guarded_changes cfg m ss (g a)) \<Longrightarrow> guarded_changes cfg m ss (andthen f g)"
  by (rule traced_andthen [where P = "\<lambda>_. every_change cfg m ss"]) (auto intro: traced_weaken)

lemma guarded_quiet: "quiet f \<Longrightarrow> guarded_changes cfg m ss f"
  by (erule traced_weaken) (rule every_change_quiet)

lemma guarded_request: "api \<noteq> setChangeMaster m \<Longrightarrow> guarded_changes cfg m ss (getMysqlAgent api)"
  by (rule traced_weaken [OF traced_request]) (auto split: outcome.splits intro: every_change_other every_change_quiet)

lemmas guarded_rules = guarded_andthen guarded_request guarded_quiet [OF quiet_ret(1)] guarded_quiet [OF quiet_ret(3)]
  guarded_quiet [OF quiet_sleep] guarded_quiet [OF quiet_prefixSwitchCheck] apis_differ

text \<open>After a successful check the request for the change is allowed.\<close>

lemma guarded_change:
  assumes "requests chk = []" and "all_caught_up cfg m ss chk" and "\<And>ok. guarded_changes cfg m ss (f ok)"
  shows "traced (andthen (getMysqlAgent (setChangeMaster m)) f) (\<lambda>_ tr. every_change cfg m ss (chk @ tr))"
proof (rule traced_andthen [OF traced_request])
  fix ok tr assume "case Ret ok () of Ret ok _ \<Rightarrow> tr = [Requested (setChangeMaster m) ok] | Exit _ _ \<Rightarrow> False | _ \<Rightarrow> tr = []"
  then have "every_change cfg m ss (chk @ tr)" using every_change_check [OF assms(1,2)] by simp
  then show "traced (f ok) (\<lambda>_ tr'. every_change cfg m ss (chk @ tr @ tr'))"
    using assms(3) [of ok] by (auto intro: traced_weaken simp flip: append_assoc)
qed (use assms(1) in \<open>auto intro: every_change_quiet\<close>)

lemma switch_loop_guarded: "guarded_changes cfg m ss (switch_loop cfg n m ss)"
proof (induction n)
  case 0
  show ?case unfolding switch_loop.simps by (intro guarded_rules)
next
  case (Suc n)
  have sleep: "guarded_changes cfg m ss (andthen (tool_Sleep time_Second) (\<lambda>_. switch_loop cfg n m ss))"
    by (intro guarded_rules Suc.IH)
  have reopen: "guarded_changes cfg m ss (andthen (getMysqlAgent (setReadWriteAPI m)) (\<lambda>_. tool_exit))"
    "guarded_changes cfg m ss (andthen (getMysqlAgent (setReadWriteAPI m)) (\<lambda>_. ret ()))"
    by (intro guarded_rules)+
  have after: "guarded_changes cfg m ss f \<Longrightarrow> requests tr = [] \<Longrightarrow> traced f (\<lambda>_ tr'. every_change cfg m ss (tr @ tr'))"
    for f :: "unit tool_io" and tr
    by (auto intro: traced_weaken every_change_quiet)
  show ?case
    unfolding switch_loop.simps
    apply (rule traced_andthen [OF checkConsistency_checks])
    subgoal for r tr
      apply (cases r)
      subgoal using after [OF reopen(1)] by simp
      subgoal for b
        apply (cases b)
        subgoal by (auto simp: andthen_assoc intro!: guarded_change guarded_rules sleep)
        subgoal using after [OF sleep] by simp
        done
      done
    by (auto intro: every_change_quiet)
qed

lemma do_switch_guarded: "guarded_changes cfg m ss (do_switch cfg m ss)"
  unfolding do_switch_def
  by (auto intro!: guarded_rules switch_loop_guarded)

section \<open>The master is not left closed\<close>

definition settled :: "node_addr \<Rightarrow> (string \<times> bool) list \<Rightarrow> bool" where
  "settled m rs \<longleftrightarrow> rs \<noteq> [] \<and> (last rs = (setChangeMaster m, True) \<or> fst (last rs) = setReadWriteAPI m)"

text \<open>The tool has come to its end by itself.\<close>

fun finished :: "('w, 'a) outcome \<Rightarrow> bool" where
  "finished (Ret a w) = True"
| "finished (Exit c w) = True"
| "finished (Panic w) = False"
| "finished (Wait w) = False"

lemma finished_ending [simp]: "finished (ending r) = finished r"
  by (cases r) simp_all

abbreviation settles :: "node_addr \<Rightarrow> 'a tool_io \<Rightarrow> bool" where
  "settles m f \<equiv> traced f (\<lambda>r tr. finished r \<longrightarrow> settled m (requests tr))"

lemma settled_after [intro]: "settled m rs \<Longrightarrow> settled m (qs @ rs)"
  by (simp add: settled_def)

lemma settles_after: "settles m f \<Longrightarrow> traced f (\<lambda>r tr. finished r \<longrightarrow> settled m (requests (tr0 @ tr)))"
  by (erule traced_weaken) auto

lemma settles_reopen: "quiet f \<Longrightarrow> settles m (andthen (getMysqlAgent (setReadWriteAPI m)) (\<lambda>_. f))"
  by (rule traced_andthen [OF traced_request]) (auto simp: settled_def intro: traced_weaken)

lemma settles_then: "settles m f \<Longrightarrow> settles m (andthen (getMysqlAgent api) (\<lambda>_. f))"
  by (rule traced_andthen [OF traced_request]) (auto intro: traced_weaken [where m = f] settled_after [of _ _ "[_]", simplified])

lemma settles_change:
  assumes "settles m f"
  shows "settles m (andthen (getMysqlAgent (setChangeMaster m)) (\<lambda>ok. if ok then tool_exit else f))"
proof (rule traced_andthen [OF traced_request])
  fix ok tr assume "case Ret ok () of Ret ok _ \<Rightarrow> tr = [Requested (setChangeMaster m) ok] | Exit _ _ \<Rightarrow> False | _ \<Rightarrow> tr = []"
  then show "traced (if ok then tool_exit else f) (\<lambda>r tr'. finished r \<longrightarrow> settled m (requests (tr @ tr')))"
    using settles_after [OF assms, of tr] by (auto simp: settled_def intro: traced_tool_exit)
qed auto

lemma switch_loop_settles: "settles m (switch_loop cfg n m ss)"
proof (induction n)
  case 0
  show ?case unfolding switch_loop.simps by (intro settles_reopen quiet_ret)
next
  case (Suc n)
  let ?next = "andthen (tool_Sleep time_Second) (\<lambda>_. switch_loop cfg n m ss)"
  have sleep: "traced (tool_Sleep time_Second) (\<lambda>r tr. tr = [] \<and> r = Ret () ())"
    by (simp add: traced_def tool_Sleep_def)
  have rest: "settles m ?next" by (rule traced_andthen [OF sleep]) (auto intro: Suc.IH)
  have body: "andthen (andthen (getMysqlAgent (setChangeMaster m)) (\<lambda>ok. if ok then tool_exit
        else andthen (getMysqlAgent (setReadWriteAPI m)) (\<lambda>_. ret ()))) (\<lambda>_. ?next) =
      andthen (getMysqlAgent (setChangeMaster m)) (\<lambda>ok. if ok then tool_exit else andthen (getMysqlAgent (setReadWriteAPI m)) (\<lambda>_. ?next))"
    unfolding andthen_assoc by (rule arg_cong [where f = "andthen _"]) (auto simp: andthen_assoc tool_exit_def)
  show ?case
    unfolding switch_loop.simps
    apply (rule traced_andthen [OF checkConsistency_checks])
    subgoal for r tr
      apply (cases r)
      subgoal using settles_reopen [OF quiet_ret(3)] by simp
      subgoal for b
        using settles_change [OF settles_then [OF rest, of "setReadWriteAPI m"]] rest by (cases b) (simp_all add: body)
      done
    by auto
qed

text \<open>The requests of a whole run: none, a refused request to close the database, or one that settles.\<close>

abbreviation run_settles :: "node_addr \<Rightarrow> 'a tool_io \<Rightarrow> bool" where
  "run_settles m f \<equiv> traced f (\<lambda>r tr. finished r \<longrightarrow>
     requests tr = [] \<or> requests tr = [(setReadOnlyAPI m, False)] \<or> settled m (requests tr))"

lemma do_switch_settles: "run_settles m (do_switch cfg m ss)"
proof -
  have "run_settles m (andthen (getMysqlAgent (setReadOnlyAPI m)) (\<lambda>closed. if closed then switch_loop cfg 10 m ss else ret ()))"
  proof (rule traced_andthen [OF traced_request])
    fix ok tr assume "case Ret ok () of Ret ok _ \<Rightarrow> tr = [Requested (setReadOnlyAPI m) ok] | Exit _ _ \<Rightarrow> False | _ \<Rightarrow> tr = []"
    then show "traced (if ok then switch_loop cfg 10 m ss else ret ()) (\<lambda>r tr'. finished r \<longrightarrow> requests (tr @ tr') = [] \<or>
        requests (tr @ tr') = [(setReadOnlyAPI m, False)] \<or> settled m (requests (tr @ tr')))"
      using settles_after [OF switch_loop_settles, of cfg 10 m ss tr] by (auto intro: traced_weaken traced_ret)
  qed auto
  then show ?thesis
    unfolding do_switch_def
    by (intro traced_andthen [OF quiet_prefixSwitchCheck]) (auto intro: traced_weaken traced_ret)
qed

definition well_ended :: "(string \<times> bool) list \<Rightarrow> bool" where
  "well_ended rs \<longleftrightarrow> (\<exists>m. rs = [] \<or> rs = [(setReadOnlyAPI m, False)] \<or> settled m rs)"

lemma well_ended_Nil [simp]: "well_ended []"
  by (simp add: well_ended_def)

abbreviation ends_well :: "'a tool_io \<Rightarrow> bool" where
  "ends_well f \<equiv> traced f (\<lambda>r tr. finished r \<longrightarrow> well_ended (requests tr))"

lemma ends_well_after: "quiet f \<Longrightarrow> (\<And>a. ends_well (g a)) \<Longrightarrow> ends_well (andthen f g)"
  by (rule traced_andthen [where P = "\<lambda>_ tr. requests tr = []"]) auto

lemma switch_main_ends_well: "ends_well (switch_main h decoded)"
proof -
  have halt: "ends_well (tool_exit :: unit tool_io)" by (simp add: traced_def tool_exit_def)
  have run: "ends_well (do_switch cfg m ss)" for cfg m ss
    by (rule traced_weaken [OF do_switch_settles [of cfg m ss]]) (unfold well_ended_def, blast)
  show ?thesis
    unfolding switch_main_def
    by (auto split: sum.split intro!: ends_well_after quiet_etcd quiet_real_slaves run halt)
qed

section \<open>Properties\<close>



section \<open>Runs\<close>

definition ex_uuid :: string where
  "ex_uuid = ''3e11fa47-71ca-11e1-9e33-c80aa9429562''"

definition ex_cfg :: switch_config where
  "ex_cfg = \<lparr>sw_EtcdRootPath = ''/dbproxy/'', sw_EtcdCluster = ''c1'', sw_MysqlUser = ''root'', sw_MysqlPwd = ''pw''\<rparr>"

definition ex_threads :: sql_reply where
  "ex_threads = SqlReply None [''Variable_name'', ''Value''] [[Some ''Threads_running'', Some ''3'']] None 1"

definition ex_master :: sql_reply where
  "ex_master = SqlReply None [''File'', ''Position'', ''Binlog_Do_DB'', ''Binlog_Ignore_DB'', ''Executed_Gtid_Set'']
     [[Some ''b.7'', Some ''120'', Some [], Some [], Some (ex_uuid @ '':1-5'')]] None 1"

definition ex_server :: sql_reply where
  "ex_server = SqlReply None [''@@server_uuid''] [[Some ex_uuid]] None 1"

definition ex_status :: "string \<Rightarrow> string \<Rightarrow> rows" where
  "ex_status pos gtid = ([''Slave_IO_Running'', ''Slave_SQL_Running'', ''Relay_Master_Log_File'', ''Exec_Master_Log_Pos'', ''Executed_Gtid_Set''],
     [[Some ''Yes'', Some ''Yes'', Some ''b.7'', Some pos, Some gtid]], None)"

definition ex_slave :: "string \<Rightarrow> string \<Rightarrow> sql_reply" where
  "ex_slave pos gtid = (case ex_status pos gtid of (cols, rws, rerr) \<Rightarrow> SqlReply None cols rws rerr 1)"

definition ex_nodes :: etcd where
  "ex_nodes = snd (etcd_put ''/dbproxy/c1/slave/10.0.0.2:3306'' [] 0 (snd (etcd_put ''/dbproxy/c1/slave/10.0.0.1:3306'' [] 0
     (snd (etcd_put ''/dbproxy/c1/master'' ''10.0.0.1:3306'' 0 empty_etcd)))))"

definition ex_tool :: "sql_reply list \<Rightarrow> http_reply list \<Rightarrow> tool" where
  "ex_tool sqls https = \<lparr>n_etcd = ex_nodes, n_script = replicate 3 (Rpc id RpcOK 1 1), n_clock = 0, t_dial = [None, None, None],
     t_sql = sqls, t_http = https, t_cmds = [], t_trace = []\<rparr>"

text \<open>The slave lags at the first check and has caught up at the second; the agent closes the database and hands over.\<close>

definition ex_run :: tool where
  "ex_run = ex_tool [ex_threads, ex_server, ex_master, ex_slave ''100'' (ex_uuid @ '':1-4''),
     ex_master, ex_server, ex_slave ''100'' (ex_uuid @ '':1-4''), ex_master, ex_server, ex_slave ''120'' (ex_uuid @ '':1-5'')]
     [HttpReply 200 ''success'', HttpReply 200 ''success'']"

abbreviation ex_m :: node_addr where
  "ex_m \<equiv> (''10.0.0.1'', ''3306'')"

abbreviation ex_s :: string where
  "ex_s \<equiv> ''10.0.0.2:3306''"

lemma ex_replies [simp]:
  "reply_rows ex_threads = Inr ([''Variable_name'', ''Value''], [[Some ''Threads_running'', Some ''3'']], None)"
  "master_of (reply_rows ex_master) = (None, ''b.7'', 120, ex_uuid @ '':1-5'')"
  "scanned_string (reply_rows ex_server) = Inr ex_uuid"
  "getTxnIDFromGTIDStr (ex_uuid @ '':1-5'') ex_uuid = Inr 6" "getTxnIDFromGTIDStr (ex_uuid @ '':1-4'') ex_uuid = Inr 5"
  "contains_go ''success'' ''success''" "show_int 120 = ''120''" "wrap64 0 = 0" "wrap64 1 = 1"
  "scan_threads 0 [[Some ''Threads_running'', Some ''3'']] = Inr 3"
  by code_simp+

lemma ex_slave_rows [simp]: "reply_rows (ex_slave p g) = Inr (ex_status p g)"
  by (simp add: reply_rows_def ex_slave_def ex_status_def)

lemma ex_status_get [simp]:
  "status_get (slave_status_of (ex_status p g)) ''Slave_IO_Running'' = ''Yes''"
  "status_get (slave_status_of (ex_status p g)) ''Slave_SQL_Running'' = ''Yes''"
  "status_get (slave_status_of (ex_status p g)) ''Relay_Master_Log_File'' = ''b.7''"
  "status_get (slave_status_of (ex_status p g)) ''Exec_Master_Log_Pos'' = p"
  "status_get (slave_status_of (ex_status p g)) ''Executed_Gtid_Set'' = g"
  by (simp_all add: ex_status_def slave_status_of_def status_map_def scan_bytes_def status_get_def)

lemma ex_split [simp]: "split_addr ex_s = ret (''10.0.0.2'', ''3306'')" "split_addr (fst ex_m @ CHR '':'' # snd ex_m) = ret ex_m"
proof -
  have "split_go (CHR '':'') ex_s = [''10.0.0.2'', ''3306'']" "split_go (CHR '':'') ''10.0.0.1:3306'' = [''10.0.0.1'', ''3306'']" by code_simp+
  then show "split_addr ex_s = ret (''10.0.0.2'', ''3306'')" "split_addr (fst ex_m @ CHR '':'' # snd ex_m) = ret ex_m"
    by (simp_all add: split_addr_def)
qed

lemmas switch_eval = do_switch_def prefixSwitchCheck_def threadsRunning_def tool_getServerUUID_def masterStatus_def check_slave_def
  tool_GetSlaveStatus_def andthen_def tool_Query_def ex_run_def ex_tool_def maxRuningThred_def maxNotExecGtid_def getMysqlAgent_def
  numeral_eq_Suc Let_def checkConsistency_def slave_caught_up_def tool_Sleep_def tool_exit_def

lemma ex_switch: "\<exists>w'. do_switch ex_cfg ex_m [ex_s] (ex_run\<lparr>n_clock := c, n_script := r, t_dial := d\<rparr>) = Exit (- 1) w' \<and>
    (\<exists>pre. t_trace w' = pre @ [Requested (setChangeMaster ex_m) True] \<and> requests pre = [(setReadOnlyAPI ex_m, True)])"
  by (simp add: switch_eval del: scan_threads.simps)

lemma ex_ranges:
  "etcd_range ex_nodes ''/dbproxy/c1/single_point_master'' = []"
  "map kv_value (etcd_range ex_nodes ''/dbproxy/c1/master'') = [''10.0.0.1:3306'']"
  "map (\<lambda>x. path_file (kv_key x)) (etcd_range_prefix ex_nodes ''/dbproxy/c1/slave'') = [''10.0.0.1:3306'', ''10.0.0.2:3306'']"
  by code_simp+

lemma ex_main: "switch_main False (Inr ex_cfg) ex_run = do_switch ex_cfg ex_m [ex_s] (ex_run\<lparr>n_clock := 6, n_script := [], t_dial := []\<rparr>)"
proof -
  obtain kv where m: "etcd_range ex_nodes ''/dbproxy/c1/master'' = [kv]" "kv_value kv = ''10.0.0.1:3306''" using ex_ranges(2) by auto
  obtain k1 k2 where s: "etcd_range_prefix ex_nodes ''/dbproxy/c1/slave'' = [k1, k2]" "path_file (kv_key k1) = ''10.0.0.1:3306''"
    "path_file (kv_key k2) = ex_s" using ex_ranges(3) by auto
  show ?thesis
    by (simp add: switch_main_def getSingleMasterMode_def getInstanceGroupMaster_def getInstanceGroupSlave_def initEtcdClient_def tool_Get_def
      rpc_call_def range_req_def Let_def andthen_def ex_run_def ex_tool_def ex_cfg_def numeral_eq_Suc ex_ranges(1) m s ex_split(2) [simplified])
qed



subsection \<open>Where the tool falls short\<close>

text \<open>The check before the database is closed looks at the first slave only.\<close>

lemma first_slave_only: "prefixSwitchCheck cfg m (s # ss) = prefixSwitchCheck cfg m [s]"
  unfolding prefixSwitchCheck_def list.case ..

text \<open>An agent that does not answer the request for the change: the tool panics and the database stays closed.\<close>

lemma panic_leaves_closed: "\<exists>w'. do_switch ex_cfg ex_m [ex_s] (ex_run\<lparr>t_http := [HttpReply 200 ''success'', HttpFailed]\<rparr>) = Panic w' \<and>
    requests (t_trace w') = [(setReadOnlyAPI ex_m, True)]"
  by (simp add: switch_eval del: scan_threads.simps)

text \<open>
  After a refused change the database is opened, but the next rounds ask for the change again without closing it first.
\<close>

lemma change_while_open: "\<exists>w'. do_switch ex_cfg ex_m [ex_s]
      (ex_run\<lparr>t_sql := t_sql ex_run @ [ex_master, ex_server, ex_slave ''120'' (ex_uuid @ '':1-5'')],
        t_http := [HttpReply 200 ''success'', HttpReply 500 [], HttpReply 200 ''success'', HttpReply 200 ''success'']\<rparr>) = Exit (- 1) w' \<and>
    requests (t_trace w') = [(setReadOnlyAPI ex_m, True), (setChangeMaster ex_m, False), (setReadWriteAPI ex_m, True), (setChangeMaster ex_m, True)]"
  by (simp add: switch_eval del: scan_threads.simps)

end
