(* ===== verification/Go_Flags.thy ===== *)
theory Go_Flags
  imports Go_Json
begin

text \<open>
  What is used of the \<open>flag\<close> package of the Go library, and of \<open>strconv\<close> behind it: a set of flags, each bound to a field of a
  configuration, and a command line that assigns to them. The agent and the checker read their configurations in the same way,
  first the command line, then the file it names, then the command line again (\<open>parse_config\<close>); the locale \<open>flag_fields\<close> states what their
  fields have to satisfy, and shows which value is left in a field at the end.
\<close>

section \<open>Numbers and truth values on the command line\<close>

definition digit_value :: "char \<Rightarrow> nat option" where
  "digit_value c =
     (let n = of_char c in
      if 48 \<le> n \<and> n \<le> 57 then Some (n - 48)
      else if 97 \<le> n \<and> n \<le> 122 then Some (n - 97 + 10)
      else if 65 \<le> n \<and> n \<le> 90 then Some (n - 65 + 10)
      else None)"

fun digits_in :: "nat \<Rightarrow> nat \<Rightarrow> string \<Rightarrow> nat option" where
  "digits_in b acc [] = Some acc"
| "digits_in b acc (c # cs) =
     (case digit_value c of None \<Rightarrow> None | Some d \<Rightarrow> if b \<le> d then None else digits_in b (acc * b + d) cs)"

text \<open>\<open>strconv.ParseUint(s, 0, 64)\<close> without its bound, which the caller's smaller one includes.\<close>

definition parse_prefixed :: "string \<Rightarrow> nat option" where
  "parse_prefixed s =
     (case s of
        [] \<Rightarrow> None
      | [c] \<Rightarrow> if c = CHR ''0'' then Some 0 else digits_in 10 0 [c]
      | c # d # cs \<Rightarrow>
          if c = CHR ''0'' \<and> (d = CHR ''x'' \<or> d = CHR ''X'') then (if cs = [] then None else digits_in 16 0 cs)
          else if c = CHR ''0'' then digits_in 8 0 (d # cs)
          else digits_in 10 0 (c # d # cs))"

definition ParseInt0 :: "string \<Rightarrow> int option" where
  "ParseInt0 s =
     (let neg = (s \<noteq> [] \<and> hd s = CHR ''-'');
          ds = (if s \<noteq> [] \<and> (hd s = CHR ''-'' \<or> hd s = CHR ''+'') then tl s else s)
      in case parse_prefixed ds of
           None \<Rightarrow> None
         | Some n \<Rightarrow>
             if neg then (if int n \<le> 2 ^ 63 then Some (- int n) else None)
             else (if int n < 2 ^ 63 then Some (int n) else None))"

definition ParseBool :: "string \<Rightarrow> bool option" where
  "ParseBool s =
     (if s \<in> {''1'', ''t'', ''T'', ''true'', ''TRUE'', ''True''} then Some True
      else if s \<in> {''0'', ''f'', ''F'', ''false'', ''FALSE'', ''False''} then Some False
      else None)"

section \<open>Flags\<close>

datatype flag_kind = StringFlag | IntFlag | BoolFlag

datatype flag_value = StringValue string | IntValue int | BoolValue bool

fun flag_set :: "flag_kind \<Rightarrow> string \<Rightarrow> flag_value option" where
  "flag_set IntFlag s = map_option IntValue (ParseInt0 s)"
| "flag_set BoolFlag s = map_option BoolValue (ParseBool s)"
| "flag_set StringFlag s = Some (StringValue s)"

datatype flags_end = FlagsOk | FlagsHelp | FlagsBad

definition flag_text :: "string \<Rightarrow> string" where
  "flag_text s = (if s ! 1 = CHR ''-'' then drop 2 s else drop 1 s)"

definition flag_assign :: "string \<Rightarrow> string \<times> string option" where
  "flag_assign s =
     (takeWhile (\<lambda>c. c \<noteq> CHR ''='') s, if CHR ''='' \<in> set s then Some (tl (dropWhile (\<lambda>c. c \<noteq> CHR ''='') s)) else None)"

text \<open>\<open>FlagSet.parseOne\<close>: an assignment and the remaining arguments, or the end.\<close>

datatype 'f flag_step = Seen 'f flag_value "string list" | Stop flags_end "string list"

definition set_value :: "('f \<Rightarrow> flag_kind) \<Rightarrow> 'f \<Rightarrow> string \<Rightarrow> string list \<Rightarrow> 'f flag_step" where
  "set_value kind f v args = (case flag_set (kind f) v of None \<Rightarrow> Stop FlagsBad args | Some x \<Rightarrow> Seen f x args)"

fun parseOne :: "(string \<times> 'f) list \<Rightarrow> ('f \<Rightarrow> flag_kind) \<Rightarrow> string list \<Rightarrow> 'f flag_step" where
  "parseOne names kind [] = Stop FlagsOk []"
| "parseOne names kind (s # args) =
     (if length s < 2 \<or> hd s \<noteq> CHR ''-'' then Stop FlagsOk (s # args)
      else if s = ''--'' then Stop FlagsOk args
      else if flag_text s = [] \<or> hd (flag_text s) = CHR ''-'' \<or> hd (flag_text s) = CHR ''='' then Stop FlagsBad (s # args)
      else case flag_assign (flag_text s) of (name, given) \<Rightarrow>
        (case map_of names name of
           None \<Rightarrow> Stop (if name = ''help'' \<or> name = ''h'' then FlagsHelp else FlagsBad) args
         | Some f \<Rightarrow>
             (case given of
                Some v \<Rightarrow> set_value kind f v args
              | None \<Rightarrow>
                  if kind f = BoolFlag then set_value kind f ''true'' args
                  else (case args of [] \<Rightarrow> Stop FlagsBad [] | v # args' \<Rightarrow> set_value kind f v args'))))"

lemma set_value_Seen: "set_value kind f v args = Seen g x rest \<Longrightarrow> g = f \<and> flag_set (kind f) v = Some x \<and> rest = args"
  by (simp add: set_value_def split: option.splits)

lemma parseOne_Seen: "parseOne names kind args = Seen f x rest \<Longrightarrow> length rest < length args \<and> (\<exists>v. flag_set (kind f) v = Some x)"
  by (induction names kind args rule: parseOne.induct)
    (auto split: if_splits option.splits list.splits prod.splits dest!: set_value_Seen)

text \<open>\<open>FlagSet.Parse\<close>: how it ends, the arguments that are left, and the configuration.\<close>

function parse_flags ::
  "(string \<times> 'f) list \<Rightarrow> ('f \<Rightarrow> flag_kind) \<Rightarrow> ('f \<Rightarrow> flag_value \<Rightarrow> 'c \<Rightarrow> 'c) \<Rightarrow> string list \<Rightarrow> 'c \<Rightarrow> flags_end \<times> string list \<times> 'c" where
  "parse_flags names kind put args c =
     (case parseOne names kind args of Stop e rest \<Rightarrow> (e, rest, c) | Seen f x rest \<Rightarrow> parse_flags names kind put rest (put f x c))"
  by pat_completeness auto
termination
  by (relation "measure (\<lambda>(_, _, _, args, _). length args)") (auto dest: parseOne_Seen)

declare parse_flags.simps [simp del]

text \<open>The assignments of a command line, in their order; they do not depend on the configuration they are made to.\<close>

function settings :: "(string \<times> 'f) list \<Rightarrow> ('f \<Rightarrow> flag_kind) \<Rightarrow> string list \<Rightarrow> ('f \<times> flag_value) list" where
  "settings names kind args = (case parseOne names kind args of Stop e rest \<Rightarrow> [] | Seen f x rest \<Rightarrow> (f, x) # settings names kind rest)"
  by pat_completeness auto
termination
  by (relation "measure (\<lambda>(_, _, args). length args)") (auto dest: parseOne_Seen)

declare settings.simps [simp del]

text \<open>The last value a command line gives to a flag.\<close>

definition given_value :: "(string \<times> 'f) list \<Rightarrow> ('f \<Rightarrow> flag_kind) \<Rightarrow> string list \<Rightarrow> 'f \<Rightarrow> flag_value option" where
  "given_value names kind args f = map_of (rev (settings names kind args)) f"

section \<open>Reading a configuration\<close>

text \<open>The second pass, and the whole: its parameters are the fields for the file and the version, and the decoder of files.\<close>

definition parse_again ::
  "(string list \<Rightarrow> 'c \<Rightarrow> flags_end \<times> string list \<times> 'c) \<Rightarrow> string list \<Rightarrow> 'c \<Rightarrow> error option \<times> 'c" where
  "parse_again parse arguments c =
     (case parse arguments c of
        (_, [], c') \<Rightarrow> (None, c')
      | (_, a # _, c') \<Rightarrow> (Some (EMsg (CHR 0x27 # a @ CHR 0x27 # '' is not a valid flag'')), c'))"

definition parse_config ::
  "(string list \<Rightarrow> 'c \<Rightarrow> flags_end \<times> string list \<times> 'c) \<Rightarrow> ('c \<Rightarrow> string) \<Rightarrow> ('c \<Rightarrow> bool) \<Rightarrow>
    (string \<Rightarrow> 'c \<Rightarrow> error option \<times> 'c) \<Rightarrow> string list \<Rightarrow> 'c \<Rightarrow> ('w, error option \<times> 'c) io" where
  "parse_config parse path version decode arguments cfg =
     (case parse arguments cfg of
        (FlagsHelp, _, _) \<Rightarrow> os_Exit 0
      | (FlagsBad, _, _) \<Rightarrow> os_Exit 2
      | (FlagsOk, _, c) \<Rightarrow>
          if version c then os_Exit 0
          else if path c \<noteq> [] then
            (case decode (path c) c of
               (Some e, c') \<Rightarrow> ret (Some e, c')
             | (None, c') \<Rightarrow> ret (parse_again parse arguments c'))
          else ret (parse_again parse arguments c))"

section \<open>What the command line sets\<close>

lemma settings_cases:
  "parseOne names kind args = Stop e rest \<Longrightarrow> settings names kind args = []"
  "parseOne names kind args = Stop e rest \<Longrightarrow> parse_flags names kind put args c = (e, rest, c)"
  "parseOne names kind args = Seen f x rest \<Longrightarrow> settings names kind args = (f, x) # settings names kind rest"
  "parseOne names kind args = Seen f x rest \<Longrightarrow> parse_flags names kind put args c = parse_flags names kind put rest (put f x c)"
  by (subst settings.simps parse_flags.simps, simp)+

lemma parse_flags_settings: "snd (snd (parse_flags names kind put args c)) = fold (\<lambda>(f, x). put f x) (settings names kind args) c"
proof (induction names kind put args c rule: parse_flags.induct)
  case (1 names kind put args c)
  then show ?case by (cases "parseOne names kind args") (simp_all add: settings_cases)
qed

fun typed :: "flag_kind \<Rightarrow> flag_value \<Rightarrow> bool" where
  "typed k (IntValue n) \<longleftrightarrow> k = IntFlag"
| "typed k (BoolValue b) \<longleftrightarrow> k = BoolFlag"
| "typed k (StringValue s) \<longleftrightarrow> k = StringFlag"

lemma flag_set_typed: "flag_set k s = Some x \<Longrightarrow> typed k x"
  by (cases k) auto

lemma settings_typed: "(f, x) \<in> set (settings names kind args) \<Longrightarrow> typed (kind f) x"
proof (induction names kind args rule: settings.induct)
  case (1 names kind args)
  show ?case
  proof (cases "parseOne names kind args")
    case (Seen g y rest)
    then show ?thesis using 1(2) 1(1) [OF Seen] parseOne_Seen [OF Seen] by (auto simp: settings_cases(3) intro: flag_set_typed)
  qed (use 1(2) in \<open>simp add: settings_cases\<close>)
qed

text \<open>
  The fields of a configuration: what is assigned to a flag is read back from it, and from no other; one field names the file.
\<close>

locale flag_fields =
  fixes names :: "(string \<times> 'f) list" and kind :: "'f \<Rightarrow> flag_kind"
    and put :: "'f \<Rightarrow> flag_value \<Rightarrow> 'c \<Rightarrow> 'c" and get :: "'f \<Rightarrow> 'c \<Rightarrow> flag_value"
    and path_flag :: 'f and path :: "'c \<Rightarrow> string"
  assumes get_put: "typed (kind g) x \<Longrightarrow> get f (put g x c) = (if f = g then x else get f c)"
    and get_path: "get path_flag c = StringValue (path c)"
begin

lemma get_fold_put:
  "(\<And>f x. (f, x) \<in> set fs \<Longrightarrow> typed (kind f) x) \<Longrightarrow>
   get f (fold (\<lambda>(f, x). put f x) fs c) = (case map_of (rev fs) f of Some x \<Rightarrow> x | None \<Rightarrow> get f c)"
proof (induction fs rule: rev_induct)
  case (snoc p fs)
  then show ?case by (cases p) (simp add: get_put)
qed simp

lemma get_parse_flags:
  "get f (snd (snd (parse_flags names kind put args c))) = (case given_value names kind args f of Some x \<Rightarrow> x | None \<Rightarrow> get f c)"
  unfolding parse_flags_settings given_value_def by (rule get_fold_put) (rule settings_typed)

lemma precedence:
  assumes "parse_config (parse_flags names kind put) path version decode args c0 w = Ret (None, cfg) w'" and "path c0 = []"
  shows "get f cfg =
    (case given_value names kind args f of
       Some x \<Rightarrow> x
     | None \<Rightarrow> get f (case given_value names kind args path_flag of
           Some (StringValue p) \<Rightarrow> if p = [] then c0 else snd (decode p (snd (snd (parse_flags names kind put args c0))))
         | _ \<Rightarrow> c0))"
proof -
  let ?p = "parse_flags names kind put" and ?c = "snd (snd (parse_flags names kind put args c0))"
  have chosen: "StringValue (path ?c) = (case given_value names kind args path_flag of Some x \<Rightarrow> x | None \<Rightarrow> StringValue [])"
    using get_parse_flags [of path_flag args c0] assms(2) by (simp add: get_path split: option.splits)
  have again: "snd (parse_again ?p args c) = snd (snd (?p args c))" for c
    by (simp add: parse_again_def split: prod.split list.split)
  have "cfg = snd (parse_again ?p args (if path ?c = [] then ?c else snd (decode (path ?c) ?c)))"
    using assms by (auto simp: parse_config_def split: prod.splits flags_end.splits if_splits option.splits)
  then show ?thesis
    using chosen by (auto simp: again get_parse_flags split: option.splits if_splits)
qed

end

section \<open>Printed numbers\<close>

lemma digits_in_decimal: "list_all is_digit s \<Longrightarrow> digits_in 10 acc s = Some (foldl (\<lambda>n c. 10 * n + digit_val c) acc s)"
  by (induction s arbitrary: acc) (auto simp: digit_value_def Let_def is_digit_def digit_val_def mult.commute)

lemma ParseInt0_show: "n < 2 ^ 63 \<Longrightarrow> ParseInt0 (show_nat n) = Some (int n)"
proof -
  assume n: "n < 2 ^ 63"
  obtain c cs where s: "show_nat n = c # cs" and c: "is_digit c" by (rule show_nat_Cons)
  have d: "digits_in 10 0 (show_nat n) = Some n"
    using digits_in_decimal [of "show_nat n" 0] all_digits_show [of n] digits_val_show [of n] unfolding all_digits_def digits_val_def by simp
  have "parse_prefixed (show_nat n) = Some n"
  proof (cases "n = 0")
    case True
    have "parse_prefixed (show_nat 0) = Some 0" by code_simp
    then show ?thesis using True by simp
  next
    case False
    have "hd (show_nat n) \<noteq> CHR ''0''"
    proof
      assume "hd (show_nat n) = CHR ''0''"
      then have "digits_val (show_nat n) = digits_val ''0''" using show_nat_leading by metis
      moreover have "digits_val ''0'' = 0" by code_simp
      ultimately show False using False by simp
    qed
    then show ?thesis using d s by (auto simp: parse_prefixed_def split: list.split)
  qed
  then show ?thesis using is_digit_not_sign [OF c] s n by (simp add: ParseInt0_def Let_def)
qed

end
