(* ===== verification/Agent_Config.thy ===== *)
theory Agent_Config
  imports Agent_State Go_Flags
begin

text \<open>
  The configuration of the agent (\<open>src/agent/config.go\<close>). The decoding of the configuration file is a parameter. The command line goes before the file
  and the file before the defaults; and an agent started by the supervisor reads its configuration file and writes to the descriptor
  the supervisor waits on.
\<close>

section \<open>Flags\<close>

text \<open>The flags of the agent, each bound to a field of the configuration.\<close>

datatype config_flag =
    FlagDataDir | FlagNodeID | FlagAddr | FlagEtcdURLs | FlagRefreshInterval | FlagHeartbeatInterval | FlagL | FlagLogFile
  | FlagConfig | FlagV | FlagFd

definition flag_names :: "(string \<times> config_flag) list" where
  "flag_names =
     [(''data-dir'', FlagDataDir), (''node-id'', FlagNodeID), (''addr'', FlagAddr), (''etcd-urls'', FlagEtcdURLs),
      (''refresh-interval'', FlagRefreshInterval), (''heartbeat-interval'', FlagHeartbeatInterval), (''L'', FlagL),
      (''log-file'', FlagLogFile), (''config'', FlagConfig), (''V'', FlagV), (''fd'', FlagFd)]"

fun flag_kind_of :: "config_flag \<Rightarrow> flag_kind" where
  "flag_kind_of FlagRefreshInterval = IntFlag"
| "flag_kind_of FlagHeartbeatInterval = IntFlag"
| "flag_kind_of FlagFd = IntFlag"
| "flag_kind_of FlagV = BoolFlag"
| "flag_kind_of f = StringFlag"

fun put_flag :: "config_flag \<Rightarrow> flag_value \<Rightarrow> Config \<Rightarrow> Config" where
  "put_flag FlagDataDir (StringValue s) c = c\<lparr>DataDir := s\<rparr>"
| "put_flag FlagNodeID (StringValue s) c = c\<lparr>cfg_NodeID := s\<rparr>"
| "put_flag FlagAddr (StringValue s) c = c\<lparr>ListenAddr := s\<rparr>"
| "put_flag FlagEtcdURLs (StringValue s) c = c\<lparr>EtcdURLs := s\<rparr>"
| "put_flag FlagRefreshInterval (IntValue n) c = c\<lparr>RefreshInterval := n\<rparr>"
| "put_flag FlagHeartbeatInterval (IntValue n) c = c\<lparr>RegisterTTL := n\<rparr>"
| "put_flag FlagL (StringValue s) c = c\<lparr>LogLevel := s\<rparr>"
| "put_flag FlagLogFile (StringValue s) c = c\<lparr>LogFile := s\<rparr>"
| "put_flag FlagConfig (StringValue s) c = c\<lparr>configFile := s\<rparr>"
| "put_flag FlagV (BoolValue b) c = c\<lparr>printVersion := b\<rparr>"
| "put_flag FlagFd (IntValue n) c = c\<lparr>cfg_fd := n\<rparr>"
| "put_flag _ _ c = c"

fun get_flag :: "config_flag \<Rightarrow> Config \<Rightarrow> flag_value" where
  "get_flag FlagDataDir c = StringValue (DataDir c)"
| "get_flag FlagNodeID c = StringValue (cfg_NodeID c)"
| "get_flag FlagAddr c = StringValue (ListenAddr c)"
| "get_flag FlagEtcdURLs c = StringValue (EtcdURLs c)"
| "get_flag FlagRefreshInterval c = IntValue (RefreshInterval c)"
| "get_flag FlagHeartbeatInterval c = IntValue (RegisterTTL c)"
| "get_flag FlagL c = StringValue (LogLevel c)"
| "get_flag FlagLogFile c = StringValue (LogFile c)"
| "get_flag FlagConfig c = StringValue (configFile c)"
| "get_flag FlagV c = BoolValue (printVersion c)"
| "get_flag FlagFd c = IntValue (cfg_fd c)"

definition agent_flags :: "string list \<Rightarrow> Config \<Rightarrow> flags_end \<times> string list \<times> Config" where
  "agent_flags = parse_flags flag_names flag_kind_of put_flag"

section \<open>The configuration\<close>

text \<open>All fields start with the zero values of their types but those set here.\<close>

definition NewConfig :: Config where
  "NewConfig =
     \<lparr>ClusterName = [], LeaderLeaseTTL = 0, ShutdownThreshold = 0, DataDir = [], cfg_NodeID = [], ListenAddr = ''127.0.0.1:9527'',
      cfg_OnlyFollow = False, EtcdURLs = ''http://127.0.0.1:2379'', EtcdDialTimeout = 5 * time_Second, RefreshInterval = 2, RegisterTTL = 30,
      EtcdRootPath = [], EtcdUsername = [], EtcdPassword = [], LogLevel = ''info'', LogFile = [], ErrorLog = [], LogMaxSize = 0, LogMaxDays = 0,
      LogCompress = False, ServiceType = [],
      DBConfig = \<lparr>db_Host = [], db_User = [], db_Password = [], db_Port = 0, db_Timeout = [], db_ReplicationUser = [],
        db_ReplicationPassword = [], db_ReplicationNet = []\<rparr>,
      LockTTL = 0, InternalServiceHost = [], ExternalServiceHost = [], ForkProcessFile = [], ForkProcessArgs = [], ForkProcessWaitSecond = 0,
      CampaignWaitTime = 2 * time_Second, cfg_fd = 1, configFile = [], printVersion = False\<rparr>"

definition Parse :: "(string \<Rightarrow> Config \<Rightarrow> error option \<times> Config) \<Rightarrow> string list \<Rightarrow> Config \<Rightarrow> ('w, error option \<times> Config) io" where
  "Parse decode arguments cfg = parse_config agent_flags configFile printVersion decode arguments cfg"

interpretation agent_fields: flag_fields flag_names flag_kind_of put_flag get_flag FlagConfig configFile
proof
  show "typed (flag_kind_of g) x \<Longrightarrow> get_flag f (put_flag g x c) = (if f = g then x else get_flag f c)" for g x f c
    by (cases g; cases x; cases f) simp_all
qed simp

section \<open>The arguments the supervisor gives the agent\<close>

text \<open>\<open>run_child\<close> of \<open>supervise.c\<close>; its buffer for the descriptor has ten bytes, one of them for the end of the string.\<close>

definition agent_arguments :: "nat \<Rightarrow> string list" where
  "agent_arguments fd = [''-config=/agent/config.toml'', take 9 (''-fd='' @ show_nat fd)]"

lemma show_nat_length: "n < 10 ^ k \<Longrightarrow> 0 < k \<Longrightarrow> length (show_nat n) \<le> k"
proof (induction n arbitrary: k rule: show_nat.induct)
  case (1 n)
  show ?case
  proof (cases "n < 10")
    case False
    then have k: "1 < k" using 1(2) by (cases k; cases "k - 1") auto
    then have "n div 10 < 10 ^ (k - 1)" using 1(2) by (cases k) (auto simp: less_mult_imp_div_less mult.commute)
    then show ?thesis using 1(1) [OF False, of "k - 1"] k False by (simp add: show_nat.simps [of n])
  qed (use 1 in \<open>simp add: show_nat.simps [of n]\<close>)
qed

lemma agent_arguments_settings:
  assumes "fd < 100000"
  shows "agent_flags (agent_arguments fd) c = (FlagsOk, [], c\<lparr>configFile := ''/agent/config.toml'', cfg_fd := int fd\<rparr>)"
proof -
  have len: "length (show_nat fd) \<le> 5" using assms show_nat_length [of fd 5] by simp
  have p: "ParseInt0 (show_nat fd) = Some (int fd)" using assms by (intro ParseInt0_show) simp
  have "parseOne flag_names flag_kind_of (agent_arguments fd) = Seen FlagConfig (StringValue ''/agent/config.toml'') [''-fd='' @ show_nat fd]"
    using len by (simp add: agent_arguments_def flag_text_def flag_assign_def flag_names_def set_value_def)
  moreover have "parseOne flag_names flag_kind_of [''-fd='' @ show_nat fd] = Seen FlagFd (IntValue (int fd)) []"
    using p by (simp add: flag_text_def flag_assign_def flag_names_def set_value_def)
  ultimately show ?thesis by (simp add: settings_cases(4) settings_cases(2) [where args = "[]"] agent_flags_def)
qed

section \<open>Properties\<close>

text \<open>
  C34: After a successful parse every field that has a flag holds the last value the command line gives it; without one, what the
  configuration file leaves there, or the default where no file is named. This holds whatever the file contains.
\<close>

theorem config_precedence:
  assumes "Parse decode args NewConfig w = Ret (None, cfg) w'"
  shows "get_flag f cfg =
    (case given_value flag_names flag_kind_of args f of
       Some x \<Rightarrow> x
     | None \<Rightarrow> get_flag f (case given_value flag_names flag_kind_of args FlagConfig of
           Some (StringValue p) \<Rightarrow> if p = [] then NewConfig else snd (decode p (snd (snd (agent_flags args NewConfig))))
         | _ \<Rightarrow> NewConfig))"
  using assms unfolding Parse_def agent_flags_def by (intro agent_fields.precedence) (simp_all add: NewConfig_def)

text \<open>
  An agent started by the supervisor reads the configuration file of the supervisor's command line and writes its ticks to the
  descriptor the supervisor waits on, whatever the file says, as long as the descriptor has at most five digits.
\<close>

theorem agent_gets_fd:
  assumes "fd < 100000" and "decode ''/agent/config.toml'' (NewConfig\<lparr>configFile := ''/agent/config.toml'', cfg_fd := int fd\<rparr>) = (None, c)"
  shows "Parse decode (agent_arguments fd) NewConfig w = Ret (None, c\<lparr>configFile := ''/agent/config.toml'', cfg_fd := int fd\<rparr>) w"
  using assms(2) by (simp add: Parse_def parse_config_def parse_again_def agent_arguments_settings [OF assms(1)]) (simp add: NewConfig_def)

text \<open>A file that sets another node id and another descriptor than the command line.\<close>

definition ex_decode :: "string \<Rightarrow> Config \<Rightarrow> error option \<times> Config" where
  "ex_decode p c = (if p = ''/agent/config.toml'' then (None, c\<lparr>cfg_NodeID := ''n7'', DataDir := ''/data'', cfg_fd := 9\<rparr>) else (Some (EMsg ''no such file''), c))"

theorem agent_gets_fd_witness:
  "Parse ex_decode (agent_arguments 12) NewConfig (0 :: nat) =
    Ret (None, NewConfig\<lparr>cfg_NodeID := ''n7'', DataDir := ''/data'', configFile := ''/agent/config.toml'', cfg_fd := 12\<rparr>) 0"
  using agent_gets_fd [of 12 ex_decode "NewConfig\<lparr>cfg_NodeID := ''n7'', DataDir := ''/data'', configFile := ''/agent/config.toml'', cfg_fd := 9\<rparr>" "0 :: nat"]
  by (simp add: ex_decode_def NewConfig_def)

definition ex_arguments :: "string list" where
  "ex_arguments = [''-config'', ''/agent/config.toml'', ''--addr=:9000'', ''-node-id=n1'', ''-node-id=n2'']"

theorem config_precedence_witness:
  "\<exists>cfg. Parse ex_decode ex_arguments NewConfig (0 :: nat) = Ret (None, cfg) 0 \<and> get_flag FlagNodeID cfg = StringValue ''n2'' \<and>
     get_flag FlagDataDir cfg = StringValue ''/data'' \<and> get_flag FlagLogFile cfg = StringValue []"
proof -
  have one: "parseOne flag_names flag_kind_of ex_arguments = Seen FlagConfig (StringValue ''/agent/config.toml'') (drop 2 ex_arguments)"
    "parseOne flag_names flag_kind_of (drop 2 ex_arguments) = Seen FlagAddr (StringValue '':9000'') (drop 3 ex_arguments)"
    "parseOne flag_names flag_kind_of (drop 3 ex_arguments) = Seen FlagNodeID (StringValue ''n1'') (drop 4 ex_arguments)"
    "parseOne flag_names flag_kind_of (drop 4 ex_arguments) = Seen FlagNodeID (StringValue ''n2'') []" "parseOne flag_names flag_kind_of [] = Stop FlagsOk []"
    by code_simp+
  have p: "agent_flags ex_arguments c = (FlagsOk, [], c\<lparr>configFile := ''/agent/config.toml'', ListenAddr := '':9000'', cfg_NodeID := ''n2''\<rparr>)" for c
    using one by (simp add: settings_cases(2) [OF one(5)] settings_cases(4) agent_flags_def)
  have s: "settings flag_names flag_kind_of ex_arguments = [(FlagConfig, StringValue ''/agent/config.toml''), (FlagAddr, StringValue '':9000''),
      (FlagNodeID, StringValue ''n1''), (FlagNodeID, StringValue ''n2'')]"
    using one by (simp add: settings_cases(1) [OF one(5)] settings_cases(3))
  obtain cfg where cfg: "Parse ex_decode ex_arguments NewConfig (0 :: nat) = Ret (None, cfg) 0"
    by (simp add: Parse_def parse_config_def p parse_again_def ex_decode_def NewConfig_def)
  show ?thesis
    using cfg config_precedence [OF cfg, of FlagNodeID] config_precedence [OF cfg, of FlagDataDir] config_precedence [OF cfg, of FlagLogFile]
    by (simp add: given_value_def s p ex_decode_def NewConfig_def)
qed

end
