(* ===== verification/Agent_Log.thy ===== *)
theory Agent_Log
  imports Agent_Config
begin

text \<open>
  The logger of the agent: its set-up and formatting (\<open>src/agent/logutil.go\<close>), the wrappers that add the place of the call
  (\<open>src/pkg/log/log.go\<close>), and what they use of the vendored \<open>logrus\<close>. Every entry that passes the configured level is written once,
  and once more to the error log when it is a warning or worse.
\<close>

section \<open>Levels\<close>

datatype log_level = PanicLevel | FatalLevel | ErrorLevel | WarnLevel | InfoLevel | DebugLevel

fun level_number :: "log_level \<Rightarrow> nat" where
  "level_number PanicLevel = 0"
| "level_number FatalLevel = 1"
| "level_number ErrorLevel = 2"
| "level_number WarnLevel = 3"
| "level_number InfoLevel = 4"
| "level_number DebugLevel = 5"

lemma level_number_inject: "level_number a = level_number b \<Longrightarrow> a = b"
  by (cases a; cases b) simp_all

instantiation log_level :: linorder
begin
definition less_eq_log_level :: "log_level \<Rightarrow> log_level \<Rightarrow> bool" where
  "less_eq_log_level a b \<longleftrightarrow> level_number a \<le> level_number b"
definition less_log_level :: "log_level \<Rightarrow> log_level \<Rightarrow> bool" where
  "less_log_level a b \<longleftrightarrow> level_number a < level_number b"
instance
  by standard (auto simp: less_eq_log_level_def less_log_level_def intro: level_number_inject)
end

fun level_String :: "log_level \<Rightarrow> string" where
  "level_String PanicLevel = ''panic''"
| "level_String FatalLevel = ''fatal''"
| "level_String ErrorLevel = ''error''"
| "level_String WarnLevel = ''warning''"
| "level_String InfoLevel = ''info''"
| "level_String DebugLevel = ''debug''"

definition stringToLogLevel :: "string \<Rightarrow> log_level" where
  "stringToLogLevel level =
     (let l = to_lower level in
      if l = ''fatal'' then FatalLevel
      else if l = ''error'' then ErrorLevel
      else if l = ''warn'' \<or> l = ''warning'' then WarnLevel
      else if l = ''debug'' then DebugLevel
      else if l = ''info'' then InfoLevel
      else InfoLevel)"

section \<open>Entries and formatters\<close>

text \<open>An entry has its time as it is printed, and its fields in the order the runtime iterates over them.\<close>

record log_entry =
  le_Time :: string
  le_Level :: log_level
  le_Message :: string
  le_Data :: "(string \<times> string) list"

datatype log_formatter = AgentText bool | JSONFormatter bool | ConsoleFormatter bool

definition stringToLogFormatter :: "string \<Rightarrow> bool \<Rightarrow> log_formatter" where
  "stringToLogFormatter format disableTimestamp =
     (let f = to_lower format in
      if f = ''text'' then AgentText disableTimestamp
      else if f = ''json'' then JSONFormatter disableTimestamp
      else if f = ''console'' then ConsoleFormatter disableTimestamp
      else AgentText False)"

definition text_Format :: "bool \<Rightarrow> log_entry \<Rightarrow> string" where
  "text_Format disableTimestamp e =
     (if disableTimestamp then [] else le_Time e @ '' '') @
     (case map_of (le_Data e) ''file'' of
        None \<Rightarrow> []
      | Some f \<Rightarrow> f @ '':'' @ (case map_of (le_Data e) ''line'' of None \<Rightarrow> ''<nil>'' | Some l \<Rightarrow> l) @ '' '') @
     ''['' @ level_String (le_Level e) @ ''] '' @ le_Message e @
     concat (map (\<lambda>(k, v). if k \<noteq> ''file'' \<and> k \<noteq> ''line'' then '' '' @ k @ ''='' @ v else []) (le_Data e)) @ [CHR 0x0A]"

text \<open>The formatters of the library itself are not modelled: their lines are left open.\<close>

datatype log_line = Line string | LibraryLine "log_formatter option" log_entry

fun Format :: "log_formatter option \<Rightarrow> log_entry \<Rightarrow> log_line" where
  "Format (Some (AgentText d)) e = Line (text_Format d e)"
| "Format f e = LibraryLine f e"

section \<open>Outputs and hooks\<close>

text \<open>A rotated file has the largest size in MB, the number of old files kept and their age in days.\<close>

datatype log_output = Stdout | Stderr | Rotated string int int int

record logging =
  lg_Level :: log_level
  lg_Formatter :: "log_formatter option"
  lg_Out :: log_output
  lg_Hooks :: "(log_formatter \<times> log_output) list"
  lg_written :: "(log_output \<times> log_line) list"

type_synonym 'a logging_io = "(logging, 'a) io"

definition Levels :: "log_level list" where
  "Levels = [WarnLevel, ErrorLevel, FatalLevel, PanicLevel]"

definition write_log :: "log_output \<Rightarrow> log_line \<Rightarrow> unit logging_io" where
  "write_log out l = updates (\<lambda>w. w\<lparr>lg_written := lg_written w @ [(out, l)]\<rparr>)"

definition Fire :: "log_formatter \<times> log_output \<Rightarrow> log_entry \<Rightarrow> unit logging_io" where
  "Fire h e = write_log (snd h) (Format (Some (fst h)) e)"

fun fireHooks :: "(log_formatter \<times> log_output) list \<Rightarrow> log_entry \<Rightarrow> unit logging_io" where
  "fireHooks [] e = ret ()"
| "fireHooks (h # hs) e = andthen (if le_Level e \<in> set Levels then Fire h e else ret ()) (\<lambda>_. fireHooks hs e)"

definition entry_log :: "log_entry \<Rightarrow> unit logging_io" where
  "entry_log e =
     andthen (reads lg_Hooks) (\<lambda>hs.
     andthen (fireHooks hs e) (\<lambda>_.
     andthen (reads (\<lambda>w. (lg_Out w, lg_Formatter w))) (\<lambda>(out, f).
     andthen (write_log out (Format f e)) (\<lambda>_. if le_Level e \<le> PanicLevel then go_panic else ret ()))))"

section \<open>Calls\<close>

text \<open>The place of the call, where the runtime knows it: the file with its directory, and the line.\<close>

definition logWithFilename :: "(string \<times> nat) option \<Rightarrow> (string \<times> string) list" where
  "logWithFilename caller =
     (case caller of
        None \<Rightarrow> [(''file'', ''<???>''), (''line'', ''0'')]
      | Some (f, line) \<Rightarrow>
          (let path = split_go (CHR ''/'') f in
           [(''file'', if 1 < length path then path ! (length path - 2) @ ''/'' @ path ! (length path - 1) else f), (''line'', show_nat line)]))"

definition logs :: "log_level \<Rightarrow> string \<Rightarrow> (string \<times> nat) option \<Rightarrow> string \<Rightarrow> unit logging_io" where
  "logs level time caller msg =
     andthen (reads lg_Level) (\<lambda>l.
     andthen (if level \<le> l then entry_log \<lparr>le_Time = time, le_Level = level, le_Message = msg, le_Data = logWithFilename caller\<rparr> else ret ()) (\<lambda>_.
       if level = PanicLevel then go_panic else if level = FatalLevel then os_Exit 1 else ret ()))"

section \<open>Set-up\<close>

definition initFileLog :: "(string \<Rightarrow> error + bool) \<Rightarrow> string \<Rightarrow> Config \<Rightarrow> (error + log_output) \<times> Config" where
  "initFileLog stat filename cfg =
     (if stat filename = Inr True then (Inl (EMsg ''can't use directory as log file name''), cfg)
      else let cfg' = (if LogMaxSize cfg = 0 then cfg\<lparr>LogMaxSize := 300\<rparr> else cfg)
           in (Inr (Rotated filename (LogMaxSize cfg') 30 (LogMaxDays cfg')), cfg'))"

definition set_logger :: "(logging \<Rightarrow> logging) \<Rightarrow> unit logging_io" where
  "set_logger f = updates f"

definition InitLogger :: "(string \<Rightarrow> error + bool) \<Rightarrow> Config \<Rightarrow> (error option \<times> Config) logging_io" where
  "InitLogger stat cfg =
     (let formatter = stringToLogFormatter ''text'' False in
      andthen (set_logger (\<lambda>w. w\<lparr>lg_Level := stringToLogLevel (LogLevel cfg), lg_Formatter := Some formatter\<rparr>)) (\<lambda>_.
      case (if LogFile cfg \<noteq> [] then initFileLog stat (LogFile cfg) cfg else (Inr Stdout, cfg)) of
        (Inl e, cfg') \<Rightarrow> ret (Some e, cfg')
      | (Inr output, cfg') \<Rightarrow>
          andthen (set_logger (\<lambda>w. w\<lparr>lg_Out := output\<rparr>)) (\<lambda>_.
            if ErrorLog cfg' \<noteq> [] then
              (case initFileLog stat (ErrorLog cfg') cfg' of
                 (Inl e, cfg'') \<Rightarrow> ret (None, cfg'')
               | (Inr warnOutput, cfg'') \<Rightarrow>
                   andthen (set_logger (\<lambda>w. w\<lparr>lg_Hooks := lg_Hooks w @ [(formatter, warnOutput)]\<rparr>)) (\<lambda>_. ret (None, cfg'')))
            else ret (None, cfg'))))"

text \<open>The logger of the library before it is set up.\<close>

definition std_logger :: logging where
  "std_logger = \<lparr>lg_Level = InfoLevel, lg_Formatter = None, lg_Out = Stderr, lg_Hooks = [], lg_written = []\<rparr>"

section \<open>Where entries go\<close>

lemma fireHooks_apply: "fireHooks hs e w =
    Ret () (w\<lparr>lg_written := lg_written w @ (if le_Level e \<le> WarnLevel then map (\<lambda>h. (snd h, Format (Some (fst h)) e)) hs else [])\<rparr>)"
proof (induction hs arbitrary: w)
  case (Cons h hs)
  have "le_Level e \<in> set Levels \<longleftrightarrow> le_Level e \<le> WarnLevel" by (cases "le_Level e") (simp_all add: Levels_def less_eq_log_level_def)
  then show ?case using Cons by (simp add: Fire_def write_log_def)
qed simp

definition line_of :: "log_level \<Rightarrow> string \<Rightarrow> (string \<times> nat) option \<Rightarrow> string \<Rightarrow> log_line" where
  "line_of level time caller msg =
     Line (text_Format False \<lparr>le_Time = time, le_Level = level, le_Message = msg, le_Data = logWithFilename caller\<rparr>)"

lemma entry_log_world: "final_world (entry_log e w) =
    w\<lparr>lg_written := lg_written w @ (if le_Level e \<le> WarnLevel then map (\<lambda>h. (snd h, Format (Some (fst h)) e)) (lg_Hooks w) else []) @
      [(lg_Out w, Format (lg_Formatter w) e)]\<rparr>"
  by (simp add: entry_log_def andthen_def fireHooks_apply write_log_def)

lemma logs_world: "final_world (logs level time caller msg w) =
    (if level \<le> lg_Level w then final_world (entry_log \<lparr>le_Time = time, le_Level = level, le_Message = msg, le_Data = logWithFilename caller\<rparr> w) else w)"
  by (cases "entry_log \<lparr>le_Time = time, le_Level = level, le_Message = msg, le_Data = logWithFilename caller\<rparr> w")
    (simp_all add: logs_def andthen_def)

text \<open>
  After the set-up with an error log, a call of the logger writes its line to the log file (or the standard output) exactly if its
  level passes the configured one, and then also to the error log exactly if it is a warning or worse.
\<close>

theorem error_log_copies:
  assumes "InitLogger stat cfg std_logger = Ret (None, cfg') w" and "ErrorLog cfg \<noteq> []" and "stat (ErrorLog cfg) \<noteq> Inr True"
  shows "lg_written (final_world (logs level time caller msg w)) =
    (if stringToLogLevel (LogLevel cfg) < level then []
     else (if level \<le> WarnLevel then [(Rotated (ErrorLog cfg) (LogMaxSize cfg') 30 (LogMaxDays cfg), line_of level time caller msg)] else []) @
       [(if LogFile cfg = [] then Stdout else Rotated (LogFile cfg) (LogMaxSize cfg') 30 (LogMaxDays cfg), line_of level time caller msg)])"
proof -
  have fmt: "stringToLogFormatter ''text'' False = AgentText False" by code_simp
  have "w = std_logger\<lparr>lg_Level := stringToLogLevel (LogLevel cfg), lg_Formatter := Some (AgentText False),
      lg_Out := (if LogFile cfg = [] then Stdout else Rotated (LogFile cfg) (LogMaxSize cfg') 30 (LogMaxDays cfg)),
      lg_Hooks := [(AgentText False, Rotated (ErrorLog cfg) (LogMaxSize cfg') 30 (LogMaxDays cfg))]\<rparr>"
    using assms by (auto simp: InitLogger_def fmt set_logger_def initFileLog_def Let_def std_logger_def split: if_splits)
  then show ?thesis by (auto simp: logs_world entry_log_world line_of_def std_logger_def)
qed

definition ex_log_cfg :: Config where
  "ex_log_cfg = NewConfig\<lparr>LogFile := ''/log/agent.log'', ErrorLog := ''/log/error.log'', LogMaxDays := 7\<rparr>"

theorem error_log_copies_witness:
  "\<exists>w. InitLogger (\<lambda>_. Inl (EMsg ''no such file'')) ex_log_cfg std_logger = Ret (None, ex_log_cfg\<lparr>LogMaxSize := 300\<rparr>) w \<and>
     map fst (lg_written (final_world (logs ErrorLevel ''now'' (Some (''/go/agent/server.go'', 12)) ''lost'' w))) =
       [Rotated ''/log/error.log'' 300 30 7, Rotated ''/log/agent.log'' 300 30 7] \<and>
     lg_written (final_world (logs DebugLevel ''now'' None ''tick'' w)) = []"
proof -
  let ?s = "\<lambda>_. Inl (EMsg ''no such file'')"
  have l: "stringToLogLevel ''info'' = InfoLevel" by code_simp
  obtain w where w: "InitLogger ?s ex_log_cfg std_logger = Ret (None, ex_log_cfg\<lparr>LogMaxSize := 300\<rparr>) w"
    by (simp add: InitLogger_def ex_log_cfg_def NewConfig_def set_logger_def initFileLog_def Let_def)
  show ?thesis
    using w error_log_copies [OF w, of ErrorLevel "''now''" "Some (''/go/agent/server.go'', 12)" "''lost''"] error_log_copies [OF w, of DebugLevel "''now''" None "''tick''"]
    by (simp add: ex_log_cfg_def NewConfig_def l less_eq_log_level_def less_log_level_def)
qed

end
