(* ===== verification/Checker_Config.thy ===== *)
theory Checker_Config
  imports Go_Flags Moha_Mysql
begin

text \<open>
  The configuration of the checker, the program that runs against a test cluster (\<open>src/checker/config.go\<close>). It is read like that of the
  agent, so that the same precedence holds.
\<close>

record checker_config =
  ck_ClusterName :: string
  ck_EtcdURLs :: string
  ck_EtcdDialTimeout :: int
  ck_EtcdRootPath :: string
  ck_EtcdUsername :: string
  ck_EtcdPassword :: string
  ck_MaxCounter :: int
  ck_LogLevel :: string
  ck_LogFile :: string
  ck_LogRotate :: string
  ck_DBConfig :: db_config
  ck_RootUser :: string
  ck_RootPassword :: string
  ck_IDContainerMapping :: "(string \<times> string) list"
  ck_ContainerAZMapping :: "(string \<times> string) list"
  ck_PartitionTemplate :: string
  ck_PartitionType :: string
  ck_ChaosJob :: string
  ck_configFile :: string
  ck_printVersion :: bool

datatype checker_flag = CkEtcdURLs | CkL | CkLogFile | CkLogRotate | CkChaos | CkConfig | CkV

definition checker_flag_names :: "(string \<times> checker_flag) list" where
  "checker_flag_names =
     [(''etcd-urls'', CkEtcdURLs), (''L'', CkL), (''log-file'', CkLogFile), (''log-rotate'', CkLogRotate), (''chaos'', CkChaos),
      (''config'', CkConfig), (''V'', CkV)]"

fun checker_flag_kind :: "checker_flag \<Rightarrow> flag_kind" where
  "checker_flag_kind CkV = BoolFlag"
| "checker_flag_kind f = StringFlag"

fun put_checker_flag :: "checker_flag \<Rightarrow> flag_value \<Rightarrow> checker_config \<Rightarrow> checker_config" where
  "put_checker_flag CkEtcdURLs (StringValue s) c = c\<lparr>ck_EtcdURLs := s\<rparr>"
| "put_checker_flag CkL (StringValue s) c = c\<lparr>ck_LogLevel := s\<rparr>"
| "put_checker_flag CkLogFile (StringValue s) c = c\<lparr>ck_LogFile := s\<rparr>"
| "put_checker_flag CkLogRotate (StringValue s) c = c\<lparr>ck_LogRotate := s\<rparr>"
| "put_checker_flag CkChaos (StringValue s) c = c\<lparr>ck_ChaosJob := s\<rparr>"
| "put_checker_flag CkConfig (StringValue s) c = c\<lparr>ck_configFile := s\<rparr>"
| "put_checker_flag CkV (BoolValue b) c = c\<lparr>ck_printVersion := b\<rparr>"
| "put_checker_flag _ _ c = c"

fun get_checker_flag :: "checker_flag \<Rightarrow> checker_config \<Rightarrow> flag_value" where
  "get_checker_flag CkEtcdURLs c = StringValue (ck_EtcdURLs c)"
| "get_checker_flag CkL c = StringValue (ck_LogLevel c)"
| "get_checker_flag CkLogFile c = StringValue (ck_LogFile c)"
| "get_checker_flag CkLogRotate c = StringValue (ck_LogRotate c)"
| "get_checker_flag CkChaos c = StringValue (ck_ChaosJob c)"
| "get_checker_flag CkConfig c = StringValue (ck_configFile c)"
| "get_checker_flag CkV c = BoolValue (ck_printVersion c)"

definition checker_NewConfig :: checker_config where
  "checker_NewConfig =
     \<lparr>ck_ClusterName = [], ck_EtcdURLs = ''http://127.0.0.1:2379'', ck_EtcdDialTimeout = 2 * time_Second, ck_EtcdRootPath = [],
      ck_EtcdUsername = [], ck_EtcdPassword = [], ck_MaxCounter = 0, ck_LogLevel = ''info'', ck_LogFile = [], ck_LogRotate = [],
      ck_DBConfig = \<lparr>db_Host = [], db_User = [], db_Password = [], db_Port = 0, db_Timeout = [], db_ReplicationUser = [],
        db_ReplicationPassword = [], db_ReplicationNet = []\<rparr>,
      ck_RootUser = [], ck_RootPassword = [], ck_IDContainerMapping = [], ck_ContainerAZMapping = [], ck_PartitionTemplate = [],
      ck_PartitionType = [], ck_ChaosJob = ''change_master'', ck_configFile = [], ck_printVersion = False\<rparr>"

definition checker_flags :: "string list \<Rightarrow> checker_config \<Rightarrow> flags_end \<times> string list \<times> checker_config" where
  "checker_flags = parse_flags checker_flag_names checker_flag_kind put_checker_flag"

definition checker_Parse ::
  "(string \<Rightarrow> checker_config \<Rightarrow> error option \<times> checker_config) \<Rightarrow> string list \<Rightarrow> checker_config \<Rightarrow>
    ('w, error option \<times> checker_config) io" where
  "checker_Parse decode arguments cfg = parse_config checker_flags ck_configFile ck_printVersion decode arguments cfg"

interpretation checker_fields: flag_fields checker_flag_names checker_flag_kind put_checker_flag get_checker_flag CkConfig ck_configFile
proof
  show "typed (checker_flag_kind g) x \<Longrightarrow> get_checker_flag f (put_checker_flag g x c) = (if f = g then x else get_checker_flag f c)" for g x f c
    by (cases g; cases x; cases f) simp_all
qed simp

text \<open>The chaos job that runs is the one the command line names, or the default, unless a file is read.\<close>

lemma chaos_job_chosen:
  assumes "checker_Parse decode args checker_NewConfig w = Ret (None, cfg) w'"
    and "given_value checker_flag_names checker_flag_kind args CkConfig = None"
  shows "StringValue (ck_ChaosJob cfg) =
    (case given_value checker_flag_names checker_flag_kind args CkChaos of Some x \<Rightarrow> x | None \<Rightarrow> StringValue ''change_master'')"
  using checker_fields.precedence [OF assms(1) [unfolded checker_Parse_def checker_flags_def], of CkChaos] assms(2)
  by (simp add: checker_NewConfig_def split: option.splits)

end
