(* ===== verification/Checker_Server.thy ===== *)
theory Checker_Server
  imports Checker_Config Tool_Runs Go_Url
begin

text \<open>
  The checker (\<open>src/checker/server.go\<close>, \<open>job.go\<close>, \<open>agent_maniplate.go\<close>): it writes to the master of a test cluster while a chaos job disturbs
  the cluster, and compares at the end what the databases hold with what was acknowledged. Another goroutine follows the leader
  key and replaces the connection; before each look at the connection it may have done so, which a script says.
\<close>

section \<open>The checker and its surroundings\<close>

record az_maps =
  azSet :: "string list"
  ipAZMapping :: "(string \<times> string) list"
  azNodeMapping :: "(string \<times> string list) list"
  azIPMapping :: "(string \<times> string list) list"

text \<open>A goroutine in the background: what it still has to call, or the error it stopped with, and whether it panics then.\<close>

record background =
  b_panics :: bool
  b_rest :: "error + string list"

record checker = tool +
  k_mysqlID :: string
  k_conn :: "string option"
  k_polls :: "string option list"
  k_done :: int
  k_dones :: "int list"
  k_rand :: "nat list"
  k_az :: az_maps
  k_bg :: "background list"
  k_sched :: "nat list list"

type_synonym 'a ck_io = "(checker, 'a) io"

text \<open>What does not change: the configuration, which data source names the driver refuses, and the order of iteration over a map.\<close>

record checker_env =
  q_cfg :: checker_config
  q_open :: "string \<Rightarrow> error option"
  q_range :: "string list \<Rightarrow> string list"

definition ck_root :: "checker_env \<Rightarrow> string" where
  "ck_root E = NewClientFromCfg_rootPath (ck_EtcdRootPath (q_cfg E)) (ck_ClusterName (q_cfg E))"

section \<open>Connections\<close>

definition id_port :: "string list \<Rightarrow> int" where
  "id_port hs = (case hs of _ # p # _ \<Rightarrow> fst (parseInt64 p) | _ \<Rightarrow> 3306)"

definition conn_of :: "checker_env \<Rightarrow> string \<Rightarrow> string \<Rightarrow> string \<Rightarrow> string" where
  "conn_of E user pwd leaderID =
     (let hs = split_go (CHR '':'') leaderID in
      mysql_dsn \<lparr>db_Host = hd hs, db_User = user, db_Password = pwd, db_Port = id_port hs, db_Timeout = db_Timeout (ck_DBConfig (q_cfg E)),
        db_ReplicationUser = [], db_ReplicationPassword = [], db_ReplicationNet = []\<rparr>)"

definition open_conn :: "checker_env \<Rightarrow> string \<Rightarrow> error + string" where
  "open_conn E dsn = (case q_open E dsn of Some e \<Rightarrow> Inl e | None \<Rightarrow> Inr dsn)"

definition buildDBConnFromID :: "checker_env \<Rightarrow> string \<Rightarrow> error + string" where
  "buildDBConnFromID E leaderID = open_conn E (conn_of E (db_User (ck_DBConfig (q_cfg E))) (db_Password (ck_DBConfig (q_cfg E))) leaderID)"

definition buildDBRootConnFromID :: "checker_env \<Rightarrow> string \<Rightarrow> error + string" where
  "buildDBRootConnFromID E leaderID = open_conn E (conn_of E (ck_RootUser (q_cfg E)) (ck_RootPassword (q_cfg E)) leaderID)"

definition setDBConnection :: "checker_env \<Rightarrow> string \<Rightarrow> unit ck_io" where
  "setDBConnection E newMasterID =
     (case buildDBConnFromID E newMasterID of
        Inl e \<Rightarrow> os_Exit 1
      | Inr c \<Rightarrow> updates (\<lambda>w. w\<lparr>k_mysqlID := newMasterID, k_conn := Some c\<rparr>))"

definition getDBConnection :: "checker_env \<Rightarrow> (string \<times> string option) ck_io" where
  "getDBConnection E =
     andthen (\<lambda>w. case k_polls w of [] \<Rightarrow> Wait w | p # ps \<Rightarrow> Ret p (w\<lparr>k_polls := ps\<rparr>)) (\<lambda>p.
     andthen (case p of None \<Rightarrow> ret () | Some newMasterID \<Rightarrow> setDBConnection E newMasterID) (\<lambda>_.
     reads (\<lambda>w. (k_mysqlID w, k_conn w))))"

text \<open>
  One tick of the goroutine that follows the leader key, with the id it knows: the id it knows afterwards, and what it hands to the goroutine
  that sets the connection.
\<close>

definition poll_tick :: "checker_env \<Rightarrow> string \<Rightarrow> (string \<times> string option) ck_io" where
  "poll_tick E masterID =
     andthen (Client_Get (ck_root E) False ''master'') (\<lambda>r.
       let newMasterID = (case r of Inl e \<Rightarrow> [] | Inr (v, _) \<Rightarrow> v) in
       ret (newMasterID, if newMasterID = masterID \<or> newMasterID = [] then None else Some newMasterID))"

text \<open>A statement on a connection; a connection that was never set is a nil pointer.\<close>

definition ck_Query :: "string option \<Rightarrow> string \<Rightarrow> (error + rows) ck_io" where
  "ck_Query c stmt = (case c of None \<Rightarrow> go_panic | Some dsn \<Rightarrow> tool_Query dsn stmt)"

definition ck_Exec :: "string option \<Rightarrow> string \<Rightarrow> error option ck_io" where
  "ck_Exec c stmt = andthen (ck_Query c stmt) (\<lambda>r. ret (case r of Inl e \<Rightarrow> Some e | Inr _ \<Rightarrow> None))"

section \<open>Commands\<close>

definition RunStopSlave :: "string option \<Rightarrow> error option ck_io" where
  "RunStopSlave rootConn = ck_Exec rootConn ''STOP SLAVE;''"

definition ran :: "error + string \<Rightarrow> error option" where
  "ran r = (case r of Inl e \<Rightarrow> Some e | Inr _ \<Rightarrow> None)"

definition RunStopAgent :: "string \<Rightarrow> error option ck_io" where
  "RunStopAgent containerName = andthen (tool_run [''docker'', ''stop'', containerName]) (\<lambda>r. ret (ran r))"

definition RunStartAgent :: "string \<Rightarrow> error option ck_io" where
  "RunStartAgent containerName = andthen (tool_run [''docker'', ''start'', containerName]) (\<lambda>r. ret (ran r))"

text \<open>Reading a line from an empty buffer yields nothing for ever.\<close>

definition RunKill9Agent :: "string \<Rightarrow> error option ck_io" where
  "RunKill9Agent containerName =
     andthen (tool_run [''docker'', ''exec'', containerName, ''pgrep'', ''-f'', ''mysql-agent'']) (\<lambda>r. case r of
       Inl e \<Rightarrow> ret (Some e)
     | Inr out \<Rightarrow>
         if out = [] then (\<lambda>w. Wait w)
         else andthen (tool_run [''docker'', ''exec'', containerName, ''kill'', ''-9'', takeWhile (\<lambda>c. c \<noteq> CHR 0x0A) out]) (\<lambda>r. ret (ran r)))"

definition IPOf :: "string \<Rightarrow> (error + string) ck_io" where
  "IPOf node =
     andthen (tool_run [''docker'', ''inspect'', ''-f'',
       [CHR 0x27] @ ''{{range .NetworkSettings.Networks}}{{.IPAddress}}{{end}}'' @ [CHR 0x27], node]) (\<lambda>r.
     ret (map_sum id (filter (\<lambda>c. c \<noteq> CHR 0x0A \<and> c \<noteq> CHR 0x27)) r))"

definition command_words :: "string \<Rightarrow> string list" where
  "command_words command = filter (\<lambda>c. c \<noteq> []) (split_go (CHR '' '') command)"

definition CheckCall :: "string \<Rightarrow> (error + string) ck_io" where
  "CheckCall command =
     (if command = [] then ret (Inl (ENotValid ''command is empty''))
      else if command_words command = [] then go_panic
      else tool_run (command_words command))"

section \<open>Partitions\<close>

fun call_all :: "string list \<Rightarrow> error option ck_io" where
  "call_all [] = ret None"
| "call_all (c # cs) = andthen (CheckCall c) (\<lambda>r. case r of Inl e \<Rightarrow> ret (Some e) | Inr _ \<Rightarrow> call_all cs)"

definition targets :: "string list \<Rightarrow> string" where
  "targets ips = concat (map (\<lambda>ip. ''--target '' @ ip @ '' '') ips)"

definition members :: "(string \<times> string list) list \<Rightarrow> string \<Rightarrow> string list" where
  "members m az = (case map_of m az of None \<Rightarrow> [] | Some xs \<Rightarrow> xs)"

definition node_query :: "string \<Rightarrow> string \<Rightarrow> string \<Rightarrow> string" where
  "node_query query partitionType node = query @ '' '' @ partitionType @ '' '' @ node"

definition not_an_az :: "string \<Rightarrow> error" where
  "not_an_az az = EMsg (''the az '' @ az @ '' is not in azSet'')"

text \<open>The commands of a partition, from maps that no longer change once the zones are set up.\<close>

definition outgoing_commands :: "checker_env \<Rightarrow> az_maps \<Rightarrow> string \<Rightarrow> string \<Rightarrow> string \<Rightarrow> error + string list" where
  "outgoing_commands E m partitionTemplate partitionedAZ partitionType =
     (if partitionedAZ \<notin> set (azSet m) then Inl (not_an_az partitionedAZ)
      else
        (let ips = filter (\<lambda>ip. ip \<noteq> [] \<and> map_of (ipAZMapping m) ip \<noteq> Some partitionedAZ) (q_range E (map fst (ipAZMapping m)));
             query = partitionTemplate @ targets ips
         in Inr (map (node_query query partitionType) (q_range E (members (azNodeMapping m) partitionedAZ)))))"

definition incoming_commands :: "checker_env \<Rightarrow> az_maps \<Rightarrow> string \<Rightarrow> string \<Rightarrow> string \<Rightarrow> error + string list" where
  "incoming_commands E m partitionTemplate partitionedAZ partitionType =
     (if partitionedAZ \<notin> set (azSet m) then Inl (not_an_az partitionedAZ)
      else
        (let query = partitionTemplate @ targets (q_range E (members (azIPMapping m) partitionedAZ));
             azs = filter (\<lambda>az. az \<noteq> partitionedAZ) (q_range E (map fst (azNodeMapping m)))
         in Inr (map (node_query query partitionType) (concat (map (\<lambda>az. q_range E (members (azNodeMapping m) az)) azs)))))"

definition PartitionOutgoing :: "checker_env \<Rightarrow> string \<Rightarrow> string \<Rightarrow> string \<Rightarrow> error option ck_io" where
  "PartitionOutgoing E partitionTemplate partitionedAZ partitionType =
     andthen (reads k_az) (\<lambda>m. case outgoing_commands E m partitionTemplate partitionedAZ partitionType of
       Inl e \<Rightarrow> ret (Some e) | Inr cs \<Rightarrow> call_all cs)"

definition PartitionIncoming :: "checker_env \<Rightarrow> string \<Rightarrow> string \<Rightarrow> string \<Rightarrow> error option ck_io" where
  "PartitionIncoming E partitionTemplate partitionedAZ partitionType =
     andthen (reads k_az) (\<lambda>m. case incoming_commands E m partitionTemplate partitionedAZ partitionType of
       Inl e \<Rightarrow> ret (Some e) | Inr cs \<Rightarrow> call_all cs)"

section \<open>Jobs that write\<close>

datatype dml_job = SimpleDMLJob | LongTxnJob

fun job_table :: "dml_job \<Rightarrow> string" where
  "job_table SimpleDMLJob = ''checker.check''"
| "job_table LongTxnJob = ''checker.long_txn''"

definition sql_line :: "nat \<Rightarrow> string \<Rightarrow> string" where
  "sql_line tabs s = CHR 0x0A # replicate tabs (CHR 0x09) @ s"

definition Prepare :: "dml_job \<Rightarrow> string option \<Rightarrow> error option ck_io" where
  "Prepare job db =
     ck_Exec db (sql_line 5 (''CREATE TABLE '' @ job_table job @ '' ('') @ sql_line 5 ''id INT UNSIGNED NOT NULL,'' @
       sql_line 5 ''value VARCHAR(45) NOT NULL'' @ sql_line 4 ''    )ENGINE=InnoDB DEFAULT CHARSET=utf8;'')"

definition insert_stmt :: "dml_job \<Rightarrow> nat \<Rightarrow> string" where
  "insert_stmt job c = ''INSERT INTO '' @ job_table job @ ''(`id`, `value`) VALUES ('' @ show_nat c @ '', '' @ show_nat c @ '')''"

text \<open>A transaction that could not be committed is over, so that rolling it back is an error and sends nothing.\<close>

fun RunDML :: "dml_job \<Rightarrow> string option \<Rightarrow> nat \<Rightarrow> error option ck_io" where
  "RunDML SimpleDMLJob conn c = ck_Exec conn (insert_stmt SimpleDMLJob c)"
| "RunDML LongTxnJob conn c =
     andthen (ck_Exec conn ''START TRANSACTION'') (\<lambda>err. case err of
       Some e \<Rightarrow> ret (Some e)
     | None \<Rightarrow>
         andthen (ck_Exec conn (insert_stmt LongTxnJob c)) (\<lambda>err. case err of
           Some e \<Rightarrow> andthen (ck_Exec conn ''ROLLBACK'') (\<lambda>_. ret (Some e))
         | None \<Rightarrow>
             andthen (ck_Exec conn ''SELECT SLEEP(1)'') (\<lambda>_.
             andthen (ck_Exec conn ''COMMIT'') (\<lambda>err.
             ret (if err = None then None else Some (EMsg ''sql: Transaction has already been committed or rolled back''))))))"

definition count_stmt :: "dml_job \<Rightarrow> string" where
  "count_stmt job = ''select count(0) from '' @ job_table job"

definition scanned_count :: "error + rows \<Rightarrow> int" where
  "scanned_count r =
     (case r of
        Inr (_, [Some v] # _, _) \<Rightarrow> (case parseInt64 v of (n, ok) \<Rightarrow> if ok then n else - 1)
      | _ \<Rightarrow> - 1)"

definition Check :: "dml_job \<Rightarrow> string option \<Rightarrow> int ck_io" where
  "Check job conn = andthen (ck_Query conn (count_stmt job)) (\<lambda>r. ret (scanned_count r))"

fun GetInterval :: "dml_job \<Rightarrow> int" where
  "GetInterval SimpleDMLJob = 100 * time_Millisecond"
| "GetInterval LongTxnJob = 3 * time_Second"

fun GetMaxCounter :: "dml_job \<Rightarrow> nat" where
  "GetMaxCounter SimpleDMLJob = 500"
| "GetMaxCounter LongTxnJob = 5"

fun GetCheckWaitTime :: "dml_job \<Rightarrow> int" where
  "GetCheckWaitTime SimpleDMLJob = 5 * time_Second"
| "GetCheckWaitTime LongTxnJob = 30 * time_Second"

section \<open>The comparison\<close>

definition failed_check :: error where
  "failed_check = EMsg ''fail to pass the check''"

fun check_nodes :: "checker_env \<Rightarrow> dml_job \<Rightarrow> string \<Rightarrow> int \<Rightarrow> string list \<Rightarrow> error option ck_io" where
  "check_nodes E job masterID masterRecord [] = ret None"
| "check_nodes E job masterID masterRecord (k # ks) =
     (let i = trim_prefix k ''slave/'' in
      if i = masterID then check_nodes E job masterID masterRecord ks
      else
        (case buildDBConnFromID E i of
           Inl e \<Rightarrow> ret (Some e)
         | Inr c \<Rightarrow>
             andthen (Check job (Some c)) (\<lambda>r.
               if r \<noteq> masterRecord then ret (Some failed_check) else check_nodes E job masterID masterRecord ks)))"

text \<open>The flag of the chaos job is stored once, before the check starts.\<close>

definition check :: "checker_env \<Rightarrow> dml_job \<Rightarrow> error option ck_io" where
  "check E job =
     andthen (tool_Sleep time_Second) (\<lambda>_.
     andthen (getDBConnection E) (\<lambda>(masterID, masterConn).
     andthen (Check job masterConn) (\<lambda>masterRecord.
     andthen (reads k_done) (\<lambda>done.
       if masterRecord \<noteq> int (GetMaxCounter job) \<and> done \<noteq> 2 \<and> done \<noteq> 3 then ret (Some failed_check)
       else if done = 3 then ret None
       else
         andthen (Client_PrefixGet (ck_root E) False ''slave'') (\<lambda>r. case r of
           Inl e \<Rightarrow> ret (Some e)
         | Inr registeredNodes \<Rightarrow> check_nodes E job masterID masterRecord (q_range E (map fst registeredNodes)))))))"

text \<open>Waiting for the chaos job: each look at its flag finds what the other goroutine has stored by then.\<close>

fun wait_chaos :: "int list \<Rightarrow> unit ck_io" where
  "wait_chaos [] = (\<lambda>w. Wait w)"
| "wait_chaos (d # ds) =
     andthen (updates (\<lambda>w. w\<lparr>k_done := d, k_dones := ds\<rparr>)) (\<lambda>_.
       if d = 0 then andthen (tool_Sleep (500 * time_Millisecond)) (\<lambda>_. wait_chaos ds) else ret ())"

definition finish_job :: "checker_env \<Rightarrow> dml_job \<Rightarrow> unit ck_io" where
  "finish_job E job =
     andthen (reads k_dones) (\<lambda>ds.
     andthen (wait_chaos ds) (\<lambda>_.
     andthen (tool_Sleep (GetCheckWaitTime job)) (\<lambda>_.
     andthen (check E job) (\<lambda>err. if err \<noteq> None then os_Exit 2 else ret ()))))"

text \<open>The loop of a job over the ticks of its ticker.\<close>

fun dml_loop :: "checker_env \<Rightarrow> dml_job \<Rightarrow> nat \<Rightarrow> nat \<Rightarrow> unit ck_io" where
  "dml_loop E job 0 c = (\<lambda>w. Wait w)"
| "dml_loop E job (Suc n) c =
     andthen (getDBConnection E) (\<lambda>(_, conn).
     andthen (RunDML job conn c) (\<lambda>err.
       if err \<noteq> None then dml_loop E job n c
       else if Suc c = GetMaxCounter job then finish_job E job
       else dml_loop E job n (Suc c)))"

section \<open>Start\<close>

definition add_member :: "string \<Rightarrow> string \<Rightarrow> (string \<times> string list) list \<Rightarrow> (string \<times> string list) list" where
  "add_member az x m = AList.update az (List.insert x (members m az)) m"

definition add_container :: "string \<Rightarrow> string \<Rightarrow> string \<Rightarrow> az_maps \<Rightarrow> az_maps" where
  "add_container container az ip m =
     m\<lparr>azSet := List.insert az (azSet m), ipAZMapping := AList.update ip az (ipAZMapping m),
       azNodeMapping := add_member az container (azNodeMapping m), azIPMapping := add_member az ip (azIPMapping m)\<rparr>"

definition az_of :: "checker_env \<Rightarrow> string \<Rightarrow> string" where
  "az_of E container = (case map_of (ck_ContainerAZMapping (q_cfg E)) container of None \<Rightarrow> [] | Some az \<Rightarrow> az)"

fun init_azs :: "checker_env \<Rightarrow> string list \<Rightarrow> unit ck_io" where
  "init_azs E [] = ret ()"
| "init_azs E (c # cs) =
     andthen (IPOf c) (\<lambda>r. case r of
       Inl e \<Rightarrow> os_Exit 1
     | Inr ip \<Rightarrow> andthen (updates (\<lambda>w. w\<lparr>k_az := add_container c (az_of E c) ip (k_az w)\<rparr>)) (\<lambda>_. init_azs E cs))"

definition no_azs :: az_maps where
  "no_azs = \<lparr>azSet = [], ipAZMapping = [], azNodeMapping = [], azIPMapping = []\<rparr>"

text \<open>The set-up of the zones, and the template of the partition commands with a space at its end.\<close>

definition start_azs :: "checker_env \<Rightarrow> checker_env ck_io" where
  "start_azs E =
     andthen (updates (\<lambda>w. w\<lparr>k_az := no_azs\<rparr>)) (\<lambda>_.
     andthen (init_azs E (q_range E (map fst (ck_ContainerAZMapping (q_cfg E))))) (\<lambda>_.
     ret (let t = ck_PartitionTemplate (q_cfg E) in
          if has_suffix t '' '' then E else E\<lparr>q_cfg := (q_cfg E)\<lparr>ck_PartitionTemplate := t @ '' ''\<rparr>\<rparr>)))"

text \<open>Waiting for a first master, for at most ten minutes; the script of the connection bounds the rounds.\<close>

fun await_first :: "checker_env \<Rightarrow> nat \<Rightarrow> int \<Rightarrow> string ck_io" where
  "await_first E 0 start = (\<lambda>w. Wait w)"
| "await_first E (Suc n) start =
     andthen (getDBConnection E) (\<lambda>(masterID, _).
       if masterID \<noteq> [] then ret masterID
       else
         andthen (reads n_clock) (\<lambda>now.
           if now - start > 600 * time_Second then os_Exit 2
           else andthen (tool_Sleep time_Second) (\<lambda>_. await_first E n start)))"

fun await_works :: "checker_env \<Rightarrow> nat \<Rightarrow> int \<Rightarrow> string option \<Rightarrow> string option ck_io" where
  "await_works E 0 start conn = (\<lambda>w. Wait w)"
| "await_works E (Suc n) start conn =
     andthen (ck_Query conn ''SELECT 1'') (\<lambda>r. case r of
       Inr _ \<Rightarrow> ret conn
     | Inl _ \<Rightarrow>
         andthen (reads n_clock) (\<lambda>now.
           if now - start > 600 * time_Second then os_Exit 2
           else
             andthen (tool_Sleep (500 * time_Millisecond)) (\<lambda>_.
             andthen (getDBConnection E) (\<lambda>(_, conn'). await_works E n start conn'))))"

fun prepare_all :: "string option \<Rightarrow> dml_job list \<Rightarrow> error option ck_io" where
  "prepare_all conn [] = ret None"
| "prepare_all conn (j # js) = andthen (Prepare j conn) (\<lambda>err. if err \<noteq> None then ret err else prepare_all conn js)"

definition initDB :: "checker_env \<Rightarrow> dml_job list \<Rightarrow> error option ck_io" where
  "initDB E jobs =
     andthen (reads (\<lambda>w. (length (k_polls w), n_clock w))) (\<lambda>(n, start).
     andthen (await_first E (Suc n) start) (\<lambda>masterID.
     case buildDBRootConnFromID E masterID of
       Inl e \<Rightarrow> os_Exit 1
     | Inr c \<Rightarrow>
         andthen (reads (\<lambda>w. (length (k_polls w), n_clock w))) (\<lambda>(n, start).
         andthen (await_works E (Suc n) start (Some c)) (\<lambda>conn.
         andthen (ck_Exec conn ''DROP SCHEMA IF EXISTS checker;'') (\<lambda>err.
         if err \<noteq> None then ret err
         else
           andthen (ck_Exec conn ''CREATE SCHEMA checker;'') (\<lambda>err.
           if err \<noteq> None then ret err
           else
             andthen (prepare_all conn jobs) (\<lambda>err.
             if err \<noteq> None then ret err
             else andthen (tool_Sleep (5 * time_Second)) (\<lambda>_. ret None))))))))"

text \<open>
  The construction of the checker, with the root of its keys, and its start up to the goroutines of the jobs, with the environment in which
  they run; the order of the jobs is that of a map.
\<close>

definition checker_NewServer :: "(string list \<Rightarrow> error option) \<Rightarrow> checker_config \<Rightarrow> error + string" where
  "checker_NewServer dial cfg =
     (case NewURLsValue (ck_EtcdURLs cfg) of
        Inl e \<Rightarrow> Inl e
      | Inr uv \<Rightarrow>
          (case dial (URLs_StringSlice uv) of
             Some e \<Rightarrow> Inl e
           | None \<Rightarrow> Inr (NewClientFromCfg_rootPath (ck_EtcdRootPath cfg) (ck_ClusterName cfg))))"

definition start_checker :: "checker_env \<Rightarrow> dml_job list \<Rightarrow> (error + checker_env) ck_io" where
  "start_checker E jobs =
     andthen (start_azs E) (\<lambda>E'.
     andthen (initDB E' jobs) (\<lambda>err. ret (case err of Some e \<Rightarrow> Inl e | None \<Rightarrow> Inr E')))"

section \<open>What was acknowledged\<close>

fun acked :: "tool_action list \<Rightarrow> string list" where
  "acked [] = []"
| "acked (Queried c stmt x # tr) = (if sr_err x = None then stmt # acked tr else acked tr)"
| "acked (a # tr) = acked tr"

lemma acked_append [simp]: "acked (a @ b) = acked a @ acked b"
  by (induction a rule: acked.induct) simp_all

text \<open>The statement whose acknowledgement makes a write of a job permanent.\<close>

fun mark :: "dml_job \<Rightarrow> nat \<Rightarrow> string" where
  "mark SimpleDMLJob c = insert_stmt SimpleDMLJob c"
| "mark LongTxnJob c = ''COMMIT''"

fun is_mark :: "dml_job \<Rightarrow> string \<Rightarrow> bool" where
  "is_mark SimpleDMLJob stmt \<longleftrightarrow> True"
| "is_mark LongTxnJob stmt \<longleftrightarrow> stmt = ''COMMIT''"

definition writes :: "dml_job \<Rightarrow> tool_action list \<Rightarrow> string list" where
  "writes job tr = filter (is_mark job) (acked tr)"

lemma writes_append [simp]: "writes job (a @ b) = writes job a @ writes job b" "writes job [] = []"
  by (simp_all add: writes_def)

lemma reply_error: "sr_err x = None \<longleftrightarrow> (case reply_rows x of Inl e \<Rightarrow> False | Inr _ \<Rightarrow> True)"
  by (cases x) (simp add: reply_rows_def split: option.split)

text \<open>An operation that leaves the script of the chaos flag alone, with the entries it adds.\<close>

definition extends :: "checker \<Rightarrow> tool_action list \<Rightarrow> checker \<Rightarrow> bool" where
  "extends w tr w' \<longleftrightarrow> t_trace w' = t_trace w @ tr \<and> k_dones w' = k_dones w"

lemma extends_trans: "extends w a w1 \<Longrightarrow> extends w1 b w2 \<Longrightarrow> extends w (a @ b) w2"
  by (simp add: extends_def)

lemma extends_refl [simp]: "extends w tr w \<longleftrightarrow> tr = []"
  by (auto simp: extends_def)

lemma query_Ret: "ck_Query c stmt w = Ret r w' \<Longrightarrow> \<exists>x dsn. c = Some dsn \<and> r = reply_rows x \<and> extends w [Queried dsn stmt x] w'"
  by (auto simp: ck_Query_def tool_Query_def extends_def split: option.splits list.splits)

lemma exec_Ret: "ck_Exec c stmt w = Ret err w' \<Longrightarrow> \<exists>tr. extends w tr w' \<and> acked tr = (if err = None then [stmt] else [])"
  by (auto simp: ck_Exec_def reply_error elim!: andthen_RetE dest!: query_Ret split: sum.splits intro!: exI)

lemma insert_not_commit [simp]: "insert_stmt job c \<noteq> ''COMMIT''"
  by (simp add: insert_stmt_def)

lemma RunDML_Ret: "RunDML job conn c w = Ret err w' \<Longrightarrow> \<exists>tr. extends w tr w' \<and> writes job tr = (if err = None then [mark job c] else [])"
proof (cases job)
  case SimpleDMLJob
  assume "RunDML job conn c w = Ret err w'"
  with SimpleDMLJob show ?thesis using exec_Ret by (fastforce simp: writes_def)
next
  case LongTxnJob
  assume "RunDML job conn c w = Ret err w'"
  then show ?thesis
    unfolding LongTxnJob RunDML.simps
    by (auto elim!: andthen_RetE split: option.splits if_splits dest!: exec_Ret simp: writes_def extends_def)
qed

section \<open>A job that ends\<close>

lemma getDB_extends: "getDBConnection E w = Ret x w' \<Longrightarrow> extends w [] w'"
  by (auto simp: getDBConnection_def setDBConnection_def extends_def elim!: andthen_RetE split: list.splits option.splits sum.splits)

lemma dml_loop_Ret:
  "dml_loop E job n c w = Ret () w' \<Longrightarrow> c < GetMaxCounter job \<Longrightarrow>
   \<exists>tr w1. extends w tr w1 \<and> writes job tr = map (mark job) [c..<GetMaxCounter job] \<and> finish_job E job w1 = Ret () w'"
proof (induction n arbitrary: c w)
  case (Suc n)
  from Suc.prems(1) obtain x w1 err w2 where g: "getDBConnection E w = Ret x w1" and r: "RunDML job (snd x) c w1 = Ret err w2"
    and rest: "(if err \<noteq> None then dml_loop E job n c else if Suc c = GetMaxCounter job then finish_job E job else dml_loop E job n (Suc c)) w2 = Ret () w'"
    by (auto elim!: andthen_RetE)
  from RunDML_Ret [OF r] getDB_extends [OF g] obtain tr where tr: "extends w tr w2" "writes job tr = (if err = None then [mark job c] else [])"
    by (auto dest: extends_trans)
  have final: "finish_job E job w2 = Ret () w' \<Longrightarrow> \<exists>tr' w3. extends w2 tr' w3 \<and> writes job tr' = [] \<and> finish_job E job w3 = Ret () w'"
    by (intro exI [of _ "[]"] exI [of _ w2]) simp
  have "\<exists>tr' w3. extends w2 tr' w3 \<and> writes job tr' = map (mark job) [(if err = None then Suc c else c)..<GetMaxCounter job] \<and>
      finish_job E job w3 = Ret () w'"
    using rest Suc.IH [of c w2] Suc.IH [of "Suc c" w2] Suc.prems(2) by (auto split: if_splits intro: final)
  then obtain tr' w3 where "extends w2 tr' w3" "finish_job E job w3 = Ret () w'"
    "writes job tr' = map (mark job) [(if err = None then Suc c else c)..<GetMaxCounter job]" by blast
  then show ?case
    using tr Suc.prems(2) by (intro exI [of _ "tr @ tr'"] exI [of _ w3]) (auto simp: upt_conv_Cons dest: extends_trans)
qed simp

lemma wait_chaos_Ret: "wait_chaos ds w = Ret () w' \<Longrightarrow> t_trace w' = t_trace w \<and> k_done w' \<in> set ds \<and> k_done w' \<noteq> 0"
  by (induction ds arbitrary: w) (auto simp: tool_Sleep_def split: if_splits)

lemma finish_job_Ret:
  assumes "finish_job E job w = Ret () w'"
  shows "\<exists>w1. t_trace w1 = t_trace w \<and> k_done w1 \<in> set (k_dones w) \<and> k_done w1 \<noteq> 0 \<and> check E job w1 = Ret None w'"
proof -
  from assms obtain w0 where "wait_chaos (k_dones w) w = Ret () w0" and "check E job (w0\<lparr>n_clock := n_clock w0 + GetCheckWaitTime job\<rparr>) = Ret None w'"
    by (auto simp: finish_job_def tool_Sleep_def elim!: andthen_RetE split: if_splits)
  then show ?thesis using wait_chaos_Ret by (intro exI [of _ "w0\<lparr>n_clock := n_clock w0 + GetCheckWaitTime job\<rparr>"]) auto
qed

text \<open>Every node in the list but the master was asked and holds as many rows as the master.\<close>

definition counted :: "checker_env \<Rightarrow> dml_job \<Rightarrow> int \<Rightarrow> tool_action list \<Rightarrow> string \<Rightarrow> bool" where
  "counted E job n tr i \<longleftrightarrow> (\<exists>c x. buildDBConnFromID E i = Inr c \<and> Queried c (count_stmt job) x \<in> set tr \<and> scanned_count (reply_rows x) = n)"

lemma counted_mono: "counted E job n tr i \<Longrightarrow> counted E job n (a # tr) i"
  by (auto simp: counted_def)

lemma Check_Ret: "Check job conn w = Ret n w' \<Longrightarrow>
    \<exists>x dsn. conn = Some dsn \<and> n = scanned_count (reply_rows x) \<and> extends w [Queried dsn (count_stmt job) x] w'"
  by (auto simp: Check_def elim!: andthen_RetE dest!: query_Ret)

lemma check_nodes_Ret:
  "check_nodes E job m n ks w = Ret None w' \<Longrightarrow>
   \<exists>tr. extends w tr w' \<and> (\<forall>k \<in> set ks. trim_prefix k ''slave/'' \<noteq> m \<longrightarrow> counted E job n tr (trim_prefix k ''slave/''))"
proof (induction ks arbitrary: w)
  case (Cons k ks)
  let ?i = "trim_prefix k ''slave/''"
  show ?case
  proof (cases "?i = m")
    case True
    with Cons show ?thesis by (auto simp: Let_def)
  next
    case False
    with Cons.prems obtain c w1 where b: "buildDBConnFromID E ?i = Inr c" and k: "Check job (Some c) w = Ret n w1"
      and rest: "check_nodes E job m n ks w1 = Ret None w'"
      by (auto simp: Let_def elim!: andthen_RetE split: sum.splits if_splits)
    from Check_Ret [OF k] obtain x where x: "scanned_count (reply_rows x) = n" "extends w [Queried c (count_stmt job) x] w1" by auto
    from Cons.IH [OF rest] obtain tr where "extends w1 tr w'"
      "\<forall>k \<in> set ks. trim_prefix k ''slave/'' \<noteq> m \<longrightarrow> counted E job n tr (trim_prefix k ''slave/'')" by blast
    then show ?thesis
      using b x by (intro exI [of _ "Queried c (count_stmt job) x # tr"]) (auto simp: counted_def extends_def)
  qed
qed simp

lemma prefix_get_extends: "Client_PrefixGet root b k w = Ret r w' \<Longrightarrow> extends w [] w'"
  by (auto simp: Client_PrefixGet_def rpc_call_def extends_def Let_def elim!: andthen_RetE
      split: if_splits list.splits rpc_event.splits rpc_status.splits sum.splits)

lemma check_Ret:
  assumes "check E job w = Ret None w'" and "k_done w \<noteq> 2" and "k_done w \<noteq> 3" and "\<And>xs. set (q_range E xs) = set xs"
  shows "\<exists>tr m dsn x (w1 :: checker) w2 nodes. extends w tr w' \<and> Queried dsn (count_stmt job) x \<in> set tr \<and> scanned_count (reply_rows x) = int (GetMaxCounter job) \<and>
    Client_PrefixGet (ck_root E) False ''slave'' w1 = Ret (Inr nodes) w2 \<and>
    (\<forall>(k, v) \<in> set nodes. trim_prefix k ''slave/'' \<noteq> m \<longrightarrow> counted E job (int (GetMaxCounter job)) tr (trim_prefix k ''slave/''))"
proof -
  let ?w = "w\<lparr>n_clock := n_clock w + time_Second\<rparr>"
  from assms(1) obtain m conn wa n wb where g: "getDBConnection E ?w = Ret (m, conn) wa" and c: "Check job conn wa = Ret n wb"
    and rest: "(if n \<noteq> int (GetMaxCounter job) \<and> k_done wb \<noteq> 2 \<and> k_done wb \<noteq> 3 then ret (Some failed_check)
      else if k_done wb = 3 then ret None
      else andthen (Client_PrefixGet (ck_root E) False ''slave'') (\<lambda>r. case r of Inl e \<Rightarrow> ret (Some e)
        | Inr nodes \<Rightarrow> check_nodes E job m n (q_range E (map fst nodes)))) wb = Ret None w'"
    by (auto simp: check_def tool_Sleep_def elim!: andthen_RetE)
  have d: "k_done wb = k_done w"
    using g c by (auto simp: getDBConnection_def setDBConnection_def Check_def ck_Query_def tool_Query_def elim!: andthen_RetE
      split: list.splits option.splits sum.splits)
  with rest assms(2,3) have n: "n = int (GetMaxCounter job)" by (auto split: if_splits)
  with rest d assms(2,3) obtain nodes wc where p: "Client_PrefixGet (ck_root E) False ''slave'' wb = Ret (Inr nodes) wc"
    and k: "check_nodes E job m n (q_range E (map fst nodes)) wc = Ret None w'"
    by (auto elim!: andthen_RetE split: if_splits sum.splits)
  from check_nodes_Ret [OF k] assms(4) obtain tr where tr: "extends wc tr w'"
    "\<forall>(k, v) \<in> set nodes. trim_prefix k ''slave/'' \<noteq> m \<longrightarrow> counted E job n tr (trim_prefix k ''slave/'')" by fastforce
  from Check_Ret [OF c] obtain x dsn where x: "n = scanned_count (reply_rows x)" "extends wa [Queried dsn (count_stmt job) x] wb" by auto
  have "extends ?w ([] @ [Queried dsn (count_stmt job) x] @ [] @ tr) w'"
    by (intro extends_trans [OF getDB_extends [OF g]] extends_trans [OF x(2)] extends_trans [OF prefix_get_extends [OF p]] tr(1))
  then have "extends w (Queried dsn (count_stmt job) x # tr) w'" by (simp add: extends_def)
  moreover have "\<forall>(k, v) \<in> set nodes. trim_prefix k ''slave/'' \<noteq> m \<longrightarrow>
      counted E job (int (GetMaxCounter job)) (Queried dsn (count_stmt job) x # tr) (trim_prefix k ''slave/'')"
    using tr(2) n by (auto intro: counted_mono)
  moreover have "Queried dsn (count_stmt job) x \<in> set (Queried dsn (count_stmt job) x # tr)" by simp
  moreover have "scanned_count (reply_rows x) = int (GetMaxCounter job)" using x(1) n by simp
  ultimately show ?thesis using p by blast
qed


text \<open>A cluster of two nodes under the job with long transactions; the chaos job is over at the second look.\<close>

definition ck_nodes :: etcd where
  "ck_nodes = snd (etcd_put ''/r/c1/slave/b:3306'' ''1'' 0 (snd (etcd_put ''/r/c1/slave/a:3306'' ''1'' 0 empty_etcd)))"

definition ck_E :: checker_env where
  "ck_E = \<lparr>q_cfg = checker_NewConfig\<lparr>ck_EtcdRootPath := ''/r'', ck_ClusterName := ''c1''\<rparr>, q_open = \<lambda>_. None, q_range = \<lambda>xs. xs\<rparr>"

definition ck_count :: "string \<Rightarrow> sql_reply" where
  "ck_count n = SqlReply None [''count(0)''] [[Some n]] None 1"

definition ck_w :: checker where
  "ck_w = \<lparr>n_etcd = ck_nodes, n_script = [Rpc id RpcOK 1 1], n_clock = 0, t_dial = [],
     t_sql = replicate 20 (SqlReply None [] [] None 1) @ [ck_count ''5'', ck_count ''5''], t_http = [], t_cmds = [], t_trace = [],
     k_mysqlID = [], k_conn = None, k_polls = Some ''a:3306'' # replicate 5 None, k_done = 0, k_dones = [0, 1], k_rand = [], k_az = no_azs, k_bg = [], k_sched = []\<rparr>"

lemma ck_facts:
  "split_go (CHR '':'') ''a:3306'' = [''a'', ''3306'']" "split_go (CHR '':'') ''b:3306'' = [''b'', ''3306'']"
  "collect_kvs (ck_root ck_E) (etcd_range_prefix ck_nodes (KeyWithRootPath (ck_root ck_E) ''slave'')) [] =
     [(''slave/a:3306'', ''1''), (''slave/b:3306'', ''1'')]"
  "parseInt64 ''5'' = (5, True)" "trim_prefix ''slave/a:3306'' ''slave/'' = ''a:3306''" "trim_prefix ''slave/b:3306'' ''slave/'' = ''b:3306''"
  "KeyWithRootPath (ck_root ck_E) ''slave'' \<noteq> []"
  by code_simp+

lemma ck_sel: "q_open ck_E dsn = None" "q_range ck_E xs = xs"
  by (simp_all add: ck_E_def)

lemma ck_run: "\<exists>w'. dml_loop ck_E LongTxnJob 5 0 ck_w = Ret () w'"
  by (simp add: ck_w_def numeral_eq_Suc andthen_def getDBConnection_def setDBConnection_def buildDBConnFromID_def open_conn_def ck_sel
    Client_PrefixGet_def rpc_call_def range_req_def Let_def ck_facts ck_Exec_def ck_Query_def tool_Query_def reply_rows_def finish_job_def tool_Sleep_def check_def Check_def ck_count_def scanned_count_def)


end
