(* ===== verification/Checker_Chaos.thy ===== *)
theory Checker_Chaos
  imports Checker_Server
begin

text \<open>
  The chaos jobs of the checker (\<open>src/checker/chaos.go\<close> and the rest of \<open>agent_maniplate.go\<close>): changes of the master, agents that
  are stopped and network partitions between availability zones. A partition that runs in goroutines advances whenever the job looks at the
  connection, by the steps a schedule gives.
\<close>

section \<open>Requests to the cluster\<close>

definition stripPort :: "string \<Rightarrow> string" where
  "stripPort hostport =
     (case cut_first (CHR '':'') hostport of
        None \<Rightarrow> hostport
      | Some (h, _) \<Rightarrow>
          (case cut_first (CHR '']'') hostport of
             Some (a, _) \<Rightarrow> trim_prefix a ''[''
           | None \<Rightarrow> h))"

fun after_bracket :: "string \<Rightarrow> string option" where
  "after_bracket (a # b # s) = (if a = CHR '']'' \<and> b = CHR '':'' then Some s else after_bracket (b # s))"
| "after_bracket s = None"

definition portOnly :: "string \<Rightarrow> string" where
  "portOnly hostport =
     (case cut_first (CHR '':'') hostport of
        None \<Rightarrow> []
      | Some (_, p) \<Rightarrow>
          (case after_bracket hostport of
             Some q \<Rightarrow> q
           | None \<Rightarrow> if CHR '']'' \<in> set hostport then [] else p))"

definition ck_http :: "string \<Rightarrow> error option ck_io" where
  "ck_http url w =
     (case t_http w of
        [] \<Rightarrow> Wait w
      | x # rest \<Rightarrow>
          (let err = (case x of HttpFailed \<Rightarrow> Some ERpc | HttpReply _ _ \<Rightarrow> None)
           in Ret err (w\<lparr>t_http := rest, t_trace := t_trace w @ [Requested url (err = None)]\<rparr>)))"

definition change_api :: "URL \<Rightarrow> string \<Rightarrow> string" where
  "change_api u api = ''http://'' @ stripPort (u_Host u) @ '':'' @ (CHR ''1'' # portOnly (u_Host u)) @ api"

definition runChangeMaster :: "checker_env \<Rightarrow> error option ck_io" where
  "runChangeMaster E =
     andthen (Client_Get (ck_root E) False ''master'') (\<lambda>r. case r of
       Inl _ \<Rightarrow> ret None
     | Inr (leaderID, _) \<Rightarrow>
         (case url_Parse (''http://'' @ leaderID) of
            Inl _ \<Rightarrow> go_panic
          | Inr u \<Rightarrow>
              andthen (ck_http (change_api u ''/setReadOnly'')) (\<lambda>_.
              andthen (tool_Sleep (3 * time_Second)) (\<lambda>_.
              ck_http (change_api u ''/changeMaster'')))))"

definition deleteTerm :: "checker_env \<Rightarrow> string \<Rightarrow> (error + unit) ck_io" where
  "deleteTerm E agentID = Client_Delete (ck_root E) False (path_join [''election'', ''terms'', agentID]) False"

definition getASlave :: "checker_env \<Rightarrow> string ck_io" where
  "getASlave E =
     andthen (getDBConnection E) (\<lambda>(masterID, _).
     ret (case filter (\<lambda>i. i \<noteq> masterID) (q_range E (map fst (ck_IDContainerMapping (q_cfg E)))) of [] \<Rightarrow> [] | i # _ \<Rightarrow> i))"

definition getContainerFromID :: "checker_env \<Rightarrow> string \<Rightarrow> string" where
  "getContainerFromID E i = (case map_of (ck_IDContainerMapping (q_cfg E)) i of None \<Rightarrow> [] | Some c \<Rightarrow> c)"

definition set_done :: "int \<Rightarrow> error option ck_io" where
  "set_done d = andthen (updates (\<lambda>w. w\<lparr>k_done := d\<rparr>)) (\<lambda>_. ret None)"

section \<open>Changing the master, stopping agents\<close>

text \<open>Each round of a waiting loop takes an entry of the script of the connection, whose length is therefore fuel enough.\<close>

fun await_any :: "checker_env \<Rightarrow> nat \<Rightarrow> string \<Rightarrow> string \<Rightarrow> string ck_io" where
  "await_any E 0 masterID newMasterID = (\<lambda>w. Wait w)"
| "await_any E (Suc n) masterID newMasterID =
     (if newMasterID = masterID \<or> newMasterID = [] then
        andthen (getDBConnection E) (\<lambda>(i, _).
          if i \<noteq> [] then ret i
          else andthen (tool_Sleep (500 * time_Millisecond)) (\<lambda>_. await_any E n masterID i))
      else ret newMasterID)"

definition polls_left :: "nat ck_io" where
  "polls_left = reads (\<lambda>w. Suc (length (k_polls w)))"

definition changeMasterCheck :: "checker_env \<Rightarrow> error option ck_io" where
  "changeMasterCheck E =
     andthen (runChangeMaster E) (\<lambda>err.
     if err \<noteq> None then ret err
     else
       andthen (tool_Sleep (10 * time_Second)) (\<lambda>_.
       andthen (getDBConnection E) (\<lambda>(masterID, _).
       andthen (getASlave E) (\<lambda>slaveID.
       andthen (RunStopSlave (case buildDBRootConnFromID E slaveID of Inl _ \<Rightarrow> None | Inr c \<Rightarrow> Some c)) (\<lambda>_.
       andthen (tool_Sleep (500 * time_Millisecond)) (\<lambda>_.
       andthen (runChangeMaster E) (\<lambda>_.
       andthen polls_left (\<lambda>n.
       andthen (await_any E n masterID masterID) (\<lambda>newMasterID.
       if slaveID = newMasterID then os_Exit 1 else set_done 1)))))))))"

text \<open>The goroutine that waits for another master, against a timer of a minute.\<close>

fun await_other :: "checker_env \<Rightarrow> nat \<Rightarrow> int \<Rightarrow> string \<Rightarrow> string \<Rightarrow> unit ck_io" where
  "await_other E 0 start masterID newMasterID = (\<lambda>w. Wait w)"
| "await_other E (Suc n) start masterID newMasterID =
     (if newMasterID = masterID then
        andthen (getDBConnection E) (\<lambda>(i, _).
          if i \<noteq> masterID then ret ()
          else
            andthen (tool_Sleep (500 * time_Millisecond)) (\<lambda>_.
            andthen (reads n_clock) (\<lambda>now.
              if now - start \<ge> 60 * time_Second then os_Exit 1 else await_other E n start masterID i)))
      else ret ())"

definition stopMasterAgentCheck :: "checker_env \<Rightarrow> error option ck_io" where
  "stopMasterAgentCheck E =
     andthen (getDBConnection E) (\<lambda>(masterID, _).
     andthen (RunStopAgent (getContainerFromID E masterID)) (\<lambda>_.
     andthen (reads n_clock) (\<lambda>start.
     andthen polls_left (\<lambda>n.
     andthen (await_other E n start masterID []) (\<lambda>_.
     andthen (tool_Sleep (5 * time_Second)) (\<lambda>_. set_done 1))))))"

definition stopSlaveAgentCheck :: "checker_env \<Rightarrow> error option ck_io" where
  "stopSlaveAgentCheck E =
     andthen (getDBConnection E) (\<lambda>(masterID, _).
     andthen (getASlave E) (\<lambda>slaveID.
     andthen (RunStopAgent (getContainerFromID E slaveID)) (\<lambda>_.
     andthen (RunStartAgent (getContainerFromID E slaveID)) (\<lambda>_.
     andthen (tool_Sleep (5 * time_Second)) (\<lambda>_.
     andthen (getDBConnection E) (\<lambda>(newMasterID, _).
     if newMasterID \<noteq> masterID then os_Exit 1
     else andthen (tool_Sleep (5 * time_Second)) (\<lambda>_. set_done 1)))))))"

section \<open>Partitions\<close>

definition not_in_mapping :: "string \<Rightarrow> error" where
  "not_in_mapping i = EMsg (''cannot find '' @ i @ '' from IDContainerMapping'')"

text \<open>Drawing a zone until it is not that of the master; with no zone the code divides by zero.\<close>

fun pick_az :: "checker_env \<Rightarrow> string \<Rightarrow> nat list \<Rightarrow> string ck_io" where
  "pick_az E masterAZ [] = (\<lambda>w. Wait w)"
| "pick_az E masterAZ (r # rs) =
     andthen (reads (\<lambda>w. azSet (k_az w))) (\<lambda>azs.
     if azs = [] then go_panic
     else
       andthen (updates (\<lambda>w. w\<lparr>k_rand := rs\<rparr>)) (\<lambda>_.
       let az = q_range E azs ! (r mod length azs) in
       if az = masterAZ then pick_az E masterAZ rs else ret az))"

definition partitionOneAZCheck :: "checker_env \<Rightarrow> error option ck_io" where
  "partitionOneAZCheck E =
     andthen (getDBConnection E) (\<lambda>(masterID, _).
     case map_of (ck_IDContainerMapping (q_cfg E)) masterID of
       None \<Rightarrow> ret (Some (not_in_mapping masterID))
     | Some container \<Rightarrow>
         andthen (reads k_rand) (\<lambda>rs.
         andthen (pick_az E (az_of E container) rs) (\<lambda>partitionedAZ.
         andthen (PartitionIncoming E (ck_PartitionTemplate (q_cfg E)) partitionedAZ (ck_PartitionType (q_cfg E))) (\<lambda>err.
         if err \<noteq> None then ret err
         else
           andthen (PartitionOutgoing E (ck_PartitionTemplate (q_cfg E)) partitionedAZ (ck_PartitionType (q_cfg E))) (\<lambda>err.
           if err \<noteq> None then ret err
           else andthen (tool_Sleep (10 * time_Second)) (\<lambda>_. set_done 2))))))"

text \<open>A goroutine is started with its commands; one step of it makes the next call, panics after an error, or ends it.\<close>

definition go_commands :: "bool \<Rightarrow> error + string list \<Rightarrow> unit ck_io" where
  "go_commands panics cs = updates (\<lambda>w. w\<lparr>k_bg := k_bg w @ [\<lparr>b_panics = panics, b_rest = cs\<rparr>]\<rparr>)"

definition go_partition :: "checker_env \<Rightarrow> bool \<Rightarrow> string \<Rightarrow> string \<Rightarrow> string \<Rightarrow> unit ck_io" where
  "go_partition E panics template az ty =
     andthen (reads k_az) (\<lambda>m.
     andthen (go_commands panics (incoming_commands E m template az ty)) (\<lambda>_.
     go_commands panics (outgoing_commands E m template az ty)))"

definition put_rest :: "nat \<Rightarrow> background \<Rightarrow> error + string list \<Rightarrow> unit ck_io" where
  "put_rest i b cs = updates (\<lambda>w. w\<lparr>k_bg := (k_bg w)[i := b\<lparr>b_rest := cs\<rparr>]\<rparr>)"

definition background_step :: "nat \<Rightarrow> unit ck_io" where
  "background_step i =
     andthen (reads k_bg) (\<lambda>bs.
     if i \<ge> length bs then ret ()
     else
       (case b_rest (bs ! i) of
          Inl e \<Rightarrow> if b_panics (bs ! i) then go_panic else ret ()
        | Inr [] \<Rightarrow> ret ()
        | Inr (c # cs) \<Rightarrow>
            andthen (CheckCall c) (\<lambda>r. put_rest i (bs ! i) (case r of Inl e \<Rightarrow> Inl e | Inr _ \<Rightarrow> Inr cs))))"

fun background_steps :: "nat list \<Rightarrow> unit ck_io" where
  "background_steps [] = ret ()"
| "background_steps (i # is) = andthen (background_step i) (\<lambda>_. background_steps is)"

definition others_run :: "unit ck_io" where
  "others_run =
     andthen (reads k_sched) (\<lambda>ss. case ss of
       [] \<Rightarrow> ret ()
     | is # rest \<Rightarrow> andthen (updates (\<lambda>w. w\<lparr>k_sched := rest\<rparr>)) (\<lambda>_. background_steps is))"

fun await_change :: "checker_env \<Rightarrow> nat \<Rightarrow> string \<Rightarrow> string \<Rightarrow> string ck_io" where
  "await_change E 0 masterID newMasterID = (\<lambda>w. Wait w)"
| "await_change E (Suc n) masterID newMasterID =
     (if newMasterID = masterID then
        andthen others_run (\<lambda>_.
        andthen (getDBConnection E) (\<lambda>(i, _).
        andthen (tool_Sleep time_Second) (\<lambda>_. await_change E n masterID i)))
      else ret newMasterID)"

definition partitionMasterAZCheck :: "checker_env \<Rightarrow> error option ck_io" where
  "partitionMasterAZCheck E =
     andthen (getDBConnection E) (\<lambda>(masterID, _).
     case map_of (ck_IDContainerMapping (q_cfg E)) masterID of
       None \<Rightarrow> ret (Some (not_in_mapping masterID))
     | Some container \<Rightarrow>
         andthen (go_partition E True (ck_PartitionTemplate (q_cfg E)) (az_of E container) (ck_PartitionType (q_cfg E))) (\<lambda>_.
         andthen polls_left (\<lambda>n.
         andthen (await_change E n masterID masterID) (\<lambda>_.
         andthen others_run (\<lambda>_.
         andthen (tool_Sleep (5 * time_Second)) (\<lambda>_. set_done 2))))))"

section \<open>Single point mode\<close>

definition spm_template :: string where
  "spm_template = ''docker run -v /var/run/docker.sock:/var/run/docker.sock --rm -d moiot/pumba:latest netem -d 30s ''"

definition spm_type :: string where
  "spm_type = ''loss -p 100 ''"

fun partition_azs :: "checker_env \<Rightarrow> string list \<Rightarrow> unit ck_io" where
  "partition_azs E [] = ret ()"
| "partition_azs E (az # azs) = andthen (go_partition E False spm_template az spm_type) (\<lambda>_. partition_azs E azs)"

definition partition_all :: "checker_env \<Rightarrow> unit ck_io" where
  "partition_all E = andthen (reads (\<lambda>w. azSet (k_az w))) (\<lambda>azs. partition_azs E (q_range E azs))"

definition not_in_spm :: "checker_env \<Rightarrow> bool ck_io" where
  "not_in_spm E =
     andthen (Client_Get (ck_root E) False ''single_point_master'') (\<lambda>r.
     ret (case r of Inl (ENotFound _) \<Rightarrow> True | _ \<Rightarrow> False))"

text \<open>The rounds that kill a master each, with the last former master.\<close>

fun spm_rounds :: "checker_env \<Rightarrow> nat \<Rightarrow> string \<Rightarrow> string \<Rightarrow> (error + string \<times> string) ck_io" where
  "spm_rounds E 0 masterID newMasterID = ret (Inr (masterID, newMasterID))"
| "spm_rounds E (Suc k) masterID newMasterID =
     andthen (not_in_spm E) (\<lambda>ok.
     if \<not> ok then ret (Inl (EMsg ''should not be in spm mode''))
     else
       andthen (partition_all E) (\<lambda>_.
       andthen polls_left (\<lambda>n.
       andthen (await_change E n newMasterID newMasterID) (\<lambda>i.
       andthen others_run (\<lambda>_.
       andthen (tool_Sleep (30 * time_Second)) (\<lambda>_. spm_rounds E k newMasterID i))))))"

definition spm_left :: "checker_env \<Rightarrow> error option ck_io" where
  "spm_left E =
     andthen (Client_PrefixGet (ck_root E) False ''/slave'') (\<lambda>r. case r of
       Inl e \<Rightarrow> ret (Some e)
     | Inr slaves \<Rightarrow>
         if length slaves > 1 then
           andthen (not_in_spm E) (\<lambda>ok. if ok then set_done 3 else ret (Some (ENotValid ''get single_point_master again'')))
         else set_done 3)"

definition singlePointMasterCheck :: "checker_env \<Rightarrow> error option ck_io" where
  "singlePointMasterCheck E =
     andthen (getDBConnection E) (\<lambda>(firstID, _).
     andthen (spm_rounds E 2 [] firstID) (\<lambda>r. case r of
       Inl e \<Rightarrow> ret (Some e)
     | Inr (masterID, newMasterID) \<Rightarrow>
         andthen (Client_Get (ck_root E) False ''single_point_master'') (\<lambda>g.
         if newMasterID \<noteq> (case g of Inl _ \<Rightarrow> [] | Inr (v, _) \<Rightarrow> v) then ret (Some (ENotValid ''single_point_master''))
         else
           andthen (partition_all E) (\<lambda>_.
           andthen others_run (\<lambda>_.
           andthen (tool_Sleep (30 * time_Second)) (\<lambda>_.
           andthen (getDBConnection E) (\<lambda>_.
           andthen (deleteTerm E masterID) (\<lambda>_.
           andthen (RunStartAgent (getContainerFromID E masterID)) (\<lambda>err.
           if err \<noteq> None then ret err
           else andthen (tool_Sleep (60 * time_Second)) (\<lambda>_. spm_left E))))))))))"

section \<open>The registry\<close>

definition ChaosRegistry :: "(string \<times> (checker_env \<Rightarrow> error option ck_io)) list" where
  "ChaosRegistry =
     [(''change_master'', changeMasterCheck), (''stop_master_agent'', stopMasterAgentCheck), (''stop_slave_agent'', stopSlaveAgentCheck),
      (''partition_one_az'', partitionOneAZCheck), (''partition_master_az'', partitionMasterAZCheck), (''spm'', singlePointMasterCheck)]"

definition runChaosJob :: "checker_env \<Rightarrow> error option ck_io" where
  "runChaosJob E =
     (case map_of ChaosRegistry (ck_ChaosJob (q_cfg E)) of
        None \<Rightarrow> ret (Some (EMsg ''cannot find target chaos job''))
      | Some job \<Rightarrow> job E)"

text \<open>The goroutine of the chaos job; an error ends the checker.\<close>

definition chaos_goroutine :: "checker_env \<Rightarrow> unit ck_io" where
  "chaos_goroutine E = andthen (runChaosJob E) (\<lambda>err. if err \<noteq> None then os_Exit 1 else ret ())"

section \<open>What a partition cuts\<close>

text \<open>The words of the commands.\<close>

abbreviation plain :: "string \<Rightarrow> bool" where
  "plain x \<equiv> x \<noteq> [] \<and> CHR '' '' \<notin> set x"

lemma words_append: "command_words (a @ CHR '' '' # b) = command_words a @ command_words b"
  by (simp add: command_words_def split_go_append)

lemma words_plain: "plain x \<Longrightarrow> command_words x = [x]"
  by (simp add: command_words_def split_no_sep)

lemma words_targets: "\<forall>ip \<in> set ips. plain ip \<Longrightarrow> command_words (targets ips) = concat (map (\<lambda>ip. [''--target'', ip]) ips)"
proof (induction ips)
  case Nil
  then show ?case by (simp add: targets_def command_words_def)
next
  case (Cons ip ips)
  have "targets (ip # ips) = ''--target'' @ CHR '' '' # ip @ CHR '' '' # targets ips" by (simp add: targets_def)
  then show ?case
    using Cons by (simp only: words_append) (simp add: words_plain [of "''--target''", simplified] words_plain)
qed

lemma words_query:
  assumes "\<forall>ip \<in> set ips. plain ip" and "plain c" and "has_suffix t '' ''" and "ip \<in> set ips"
  shows "\<exists>pre mid. command_words (node_query (t @ targets ips) ty c) = pre @ [''--target'', ip] @ mid @ [c]"
proof -
  obtain t0 where t: "t = t0 @ '' ''" using assms(3) by (auto simp: has_suffix_def suffix_def)
  have eq: "node_query (t @ targets ips) ty c = t0 @ CHR '' '' # targets ips @ CHR '' '' # ty @ CHR '' '' # c"
    by (simp add: node_query_def t)
  obtain a b where "ips = a @ ip # b" using assms(4) by (meson split_list)
  with assms(1,2) have "command_words (node_query (t @ targets ips) ty c) =
      (command_words t0 @ concat (map (\<lambda>ip. [''--target'', ip]) a)) @ [''--target'', ip] @
      (concat (map (\<lambda>ip. [''--target'', ip]) b) @ command_words ty) @ [c]"
    unfolding eq words_append by (simp add: words_targets words_plain)
  then show ?thesis by blast
qed

text \<open>A command that was executed on a node against the traffic from an address.\<close>

definition cuts :: "tool_action list \<Rightarrow> string \<Rightarrow> string \<Rightarrow> bool" where
  "cuts tr c ip \<longleftrightarrow> (\<exists>pre mid r. Ran (pre @ [''--target'', ip] @ mid @ [c]) (Inr r) \<in> set tr)"

lemma call_all_Ret: "call_all cs w = Ret None w' \<Longrightarrow>
    \<exists>tr. t_trace w' = t_trace w @ tr \<and> k_az w' = k_az w \<and> k_mysqlID w' = k_mysqlID w \<and> (\<forall>c \<in> set cs. \<exists>r. Ran (command_words c) (Inr r) \<in> set tr)"
proof (induction cs arbitrary: w)
  case (Cons c cs)
  from Cons.prems obtain r w1 where c: "CheckCall c w = Ret (Inr r) w1" and rest: "call_all cs w1 = Ret None w'"
    by (auto elim!: andthen_RetE split: sum.splits)
  from c have "t_trace w1 = t_trace w @ [Ran (command_words c) (Inr r)]" "k_az w1 = k_az w" "k_mysqlID w1 = k_mysqlID w"
    by (auto simp: CheckCall_def tool_run_def split: if_splits list.splits)
  with Cons.IH [OF rest] obtain tr where "t_trace w' = t_trace w @ Ran (command_words c) (Inr r) # tr" "k_az w' = k_az w"
    "k_mysqlID w' = k_mysqlID w" "\<forall>c \<in> set cs. \<exists>r. Ran (command_words c) (Inr r) \<in> set tr" by auto
  then show ?case by (intro exI [of _ "Ran (command_words c) (Inr r) # tr"]) fastforce
qed simp

text \<open>The maps after containers were added, each with its zone and its address.\<close>

definition zones :: "(string \<times> string \<times> string) list \<Rightarrow> az_maps" where
  "zones hosts = foldl (\<lambda>m (c, az, ip). add_container c az ip m) no_azs hosts"

lemma members_update: "members (AList.update k xs m) az = (if az = k then xs else members m az)"
  by (simp add: members_def update_conv')

abbreviation host_az :: "string \<times> string \<times> string \<Rightarrow> string" where
  "host_az h \<equiv> fst (snd h)"

abbreviation host_ip :: "string \<times> string \<times> string \<Rightarrow> string" where
  "host_ip h \<equiv> snd (snd h)"

lemma zones_snoc: "zones (hosts @ [h]) = add_container (fst h) (host_az h) (host_ip h) (zones hosts)"
  by (simp add: zones_def split: prod.split)

lemma zones_Nil: "zones [] = no_azs"
  by (simp add: zones_def)

lemma members_Nil: "members [] az = []"
  by (simp add: members_def)

lemmas zones_sets = zones_snoc zones_Nil no_azs_def add_container_def add_member_def members_update members_Nil update_keys

lemma snoc_filter: "{x \<in> set (hs @ [h]). P x} = (if P h then insert h {x \<in> set hs. P x} else {x \<in> set hs. P x})"
  by auto

lemma zones_nodes: "set (members (azNodeMapping (zones hosts)) az) = fst ` {h \<in> set hosts. host_az h = az}"
  by (induction hosts rule: rev_induct) (simp_all add: zones_sets snoc_filter del: set_append)

lemma zones_ips: "set (members (azIPMapping (zones hosts)) az) = host_ip ` {h \<in> set hosts. host_az h = az}"
  by (induction hosts rule: rev_induct) (simp_all add: zones_sets snoc_filter del: set_append)

lemma zones_azs: "set (azSet (zones hosts)) = host_az ` set hosts"
  by (induction hosts rule: rev_induct) (simp_all add: zones_sets)

lemma zones_node_keys: "set (map fst (azNodeMapping (zones hosts))) = host_az ` set hosts"
  by (induction hosts rule: rev_induct) (simp_all add: zones_sets insert_absorb del: set_map)

lemma zones_ip_keys: "set (map fst (ipAZMapping (zones hosts))) = host_ip ` set hosts"
  by (induction hosts rule: rev_induct) (simp_all add: zones_sets insert_absorb del: set_map)

lemma zones_ip: "distinct (map host_ip hosts) \<Longrightarrow> h \<in> set hosts \<Longrightarrow> map_of (ipAZMapping (zones hosts)) (host_ip h) = Some (host_az h)"
  by (induction hosts rule: rev_induct) (auto simp: zones_snoc add_container_def update_conv')

lemma pick_az_Ret: "pick_az E a rs w = Ret az w' \<Longrightarrow> az \<noteq> a \<and> t_trace w' = t_trace w \<and> k_az w' = k_az w \<and> k_mysqlID w' = k_mysqlID w"
proof (induction rs arbitrary: w)
  case (Cons r rs)
  let ?w = "w\<lparr>k_rand := rs\<rparr>" and ?az = "q_range E (azSet (k_az w)) ! (r mod length (azSet (k_az w)))"
  from Cons.prems have "(if ?az = a then pick_az E a rs else ret ?az) ?w = Ret az w'" by (simp add: Let_def split: if_splits)
  then show ?case using Cons.IH [of ?w] by (cases "?az = a") auto
qed simp

lemma outgoing_cuts:
  assumes "outgoing_commands E (zones hosts) t az ty = Inr cs" and "\<And>xs. set (q_range E xs) = set xs" and "distinct (map host_ip hosts)"
    and "\<forall>h \<in> set hosts. plain (fst h) \<and> plain (host_ip h)" and "has_suffix t '' ''"
    and "a \<in> set hosts" and "host_az a = az" and "b \<in> set hosts" and "host_az b \<noteq> az"
  shows "\<exists>c \<in> set cs. \<exists>pre mid. command_words c = pre @ [''--target'', host_ip b] @ mid @ [fst a]"
proof -
  let ?ips = "filter (\<lambda>ip. ip \<noteq> [] \<and> map_of (ipAZMapping (zones hosts)) ip \<noteq> Some az) (q_range E (map fst (ipAZMapping (zones hosts))))"
  from assms(1) have cs: "cs = map (node_query (t @ targets ?ips) ty) (q_range E (members (azNodeMapping (zones hosts)) az))"
    by (simp add: outgoing_commands_def Let_def split: if_splits)
  have keys: "set (q_range E (map fst (ipAZMapping (zones hosts)))) = host_ip ` set hosts" by (simp only: assms(2) zones_ip_keys)
  have "host_ip b \<in> set ?ips" using assms(4,8,9) zones_ip [OF assms(3,8)] by (simp only: set_filter keys mem_Collect_eq) simp
  moreover have "\<forall>ip \<in> set ?ips. plain ip" using assms(4) by (simp only: set_filter keys) blast
  moreover have "fst a \<in> set (q_range E (members (azNodeMapping (zones hosts)) az))" using assms(6,7) by (simp add: assms(2) zones_nodes)
  then have "node_query (t @ targets ?ips) ty (fst a) \<in> set cs"
    by (simp only: cs set_map) (rule imageI)
  ultimately show ?thesis using words_query [of ?ips "fst a" t "host_ip b" ty] assms(4,5,6) by blast
qed

lemma incoming_cuts:
  assumes "incoming_commands E (zones hosts) t az ty = Inr cs" and "\<And>xs. set (q_range E xs) = set xs"
    and "\<forall>h \<in> set hosts. plain (fst h) \<and> plain (host_ip h)" and "has_suffix t '' ''"
    and "a \<in> set hosts" and "host_az a = az" and "b \<in> set hosts" and "host_az b \<noteq> az"
  shows "\<exists>c \<in> set cs. \<exists>pre mid. command_words c = pre @ [''--target'', host_ip a] @ mid @ [fst b]"
proof -
  let ?ips = "q_range E (members (azIPMapping (zones hosts)) az)"
  let ?azs = "filter (\<lambda>az'. az' \<noteq> az) (q_range E (map fst (azNodeMapping (zones hosts))))"
  from assms(1) have cs: "cs = map (node_query (t @ targets ?ips) ty)
      (concat (map (\<lambda>az. q_range E (members (azNodeMapping (zones hosts)) az)) ?azs))"
    by (simp add: incoming_commands_def Let_def split: if_splits)
  have "host_az b \<in> set ?azs" using assms(7,8) by (simp only: set_filter assms(2) zones_node_keys) simp
  moreover have "fst b \<in> set (q_range E (members (azNodeMapping (zones hosts)) (host_az b)))" using assms(7) by (simp add: assms(2) zones_nodes)
  ultimately have "fst b \<in> set (concat (map (\<lambda>az. q_range E (members (azNodeMapping (zones hosts)) az)) ?azs))" by force
  then have "node_query (t @ targets ?ips) ty (fst b) \<in> set cs"
    by (simp only: cs set_map) (rule imageI)
  moreover have "host_ip a \<in> set ?ips" "\<forall>ip \<in> set ?ips. plain ip" using assms(3,5,6) by (simp_all add: assms(2) zones_ips)
  ultimately show ?thesis using words_query [of ?ips "fst b" t "host_ip a" ty] assms(3,4,7) by blast
qed

lemma IPOf_az: "IPOf c w = Ret r w' \<Longrightarrow> k_az w' = k_az w"
  by (auto simp: IPOf_def tool_run_def elim!: andthen_RetE split: list.splits)

lemma init_azs_zones:
  "init_azs E cs w = Ret () w' \<Longrightarrow> k_az w = zones hosts \<Longrightarrow>
   \<exists>hs. map fst hs = cs \<and> (\<forall>h \<in> set hs. host_az h = az_of E (fst h)) \<and> k_az w' = zones (hosts @ hs)"
proof (induction cs arbitrary: w hosts)
  case (Cons c cs)
  from Cons.prems(1) obtain ip w0 where ip: "IPOf c w = Ret (Inr ip) w0"
    and rest: "init_azs E cs (w0\<lparr>k_az := add_container c (az_of E c) ip (k_az w0)\<rparr>) = Ret () w'"
    by (auto elim!: andthen_RetE split: sum.splits)
  have w1: "k_az (w0\<lparr>k_az := add_container c (az_of E c) ip (k_az w0)\<rparr>) = zones (hosts @ [(c, az_of E c, ip)])"
    using IPOf_az [OF ip] Cons.prems(2) by (simp add: zones_snoc)
  from Cons.IH [OF rest w1] obtain hs where "map fst hs = cs" "\<forall>h \<in> set hs. host_az h = az_of E (fst h)"
    "k_az w' = zones ((hosts @ [(c, az_of E c, ip)]) @ hs)" by blast
  then show ?case by (intro exI [of _ "(c, az_of E c, ip) # hs"]) simp
qed auto

text \<open>The start of the checker puts every container into its zone, and ends the template with a space.\<close>

lemma start_azs_zones:
  assumes "start_azs E w = Ret E' w'"
  shows "\<exists>hosts. map fst hosts = q_range E (map fst (ck_ContainerAZMapping (q_cfg E))) \<and> (\<forall>h \<in> set hosts. host_az h = az_of E (fst h)) \<and>
    k_az w' = zones hosts \<and> has_suffix (ck_PartitionTemplate (q_cfg E')) '' ''"
proof -
  from assms have i: "init_azs E (q_range E (map fst (ck_ContainerAZMapping (q_cfg E)))) (w\<lparr>k_az := no_azs\<rparr>) = Ret () w'"
    and t: "has_suffix (ck_PartitionTemplate (q_cfg E')) '' ''"
    by (auto simp: start_azs_def Let_def has_suffix_def elim!: andthen_RetE)
  from init_azs_zones [OF i, of "[]"] t show ?thesis by (auto simp: zones_Nil)
qed

lemma incoming_Ret: "PartitionIncoming E t az ty w = Ret None w' \<Longrightarrow>
    \<exists>cs. incoming_commands E (k_az w) t az ty = Inr cs \<and> call_all cs w = Ret None w'"
  by (auto simp: PartitionIncoming_def split: sum.splits)

lemma outgoing_Ret: "PartitionOutgoing E t az ty w = Ret None w' \<Longrightarrow>
    \<exists>cs. outgoing_commands E (k_az w) t az ty = Inr cs \<and> call_all cs w = Ret None w'"
  by (auto simp: PartitionOutgoing_def split: sum.splits)

lemma ran_cuts: "\<exists>c \<in> set cs. \<exists>pre mid. command_words c = pre @ [''--target'', ip] @ mid @ [n] \<Longrightarrow>
    \<forall>c \<in> set cs. \<exists>r. Ran (command_words c) (Inr r) \<in> set tr \<Longrightarrow> cuts (tr0 @ tr @ tr1) n ip"
  by (fastforce simp: cuts_def)

text \<open>
  C39: a chaos job that partitions one zone, when it reports success, has picked a zone of the cluster that is not the zone of the master, and has
  cut every pair of nodes on the two sides in both directions: on each node of the zone a command against the address of each node outside was
  executed, and on each node outside one against the address of each node of the zone. The nodes are those the start of the checker has put into
  zones; their addresses are distinct, and names and addresses are single words.
\<close>

theorem partition_cuts:
  assumes "partitionOneAZCheck E w = Ret None w'" and "k_az w = zones hosts" and "\<And>xs. set (q_range E xs) = set xs"
    and "distinct (map host_ip hosts)" and "\<forall>h \<in> set hosts. plain (fst h) \<and> plain (host_ip h)" and "has_suffix (ck_PartitionTemplate (q_cfg E)) '' ''"
  shows "\<exists>az container tr. az \<in> host_az ` set hosts \<and> map_of (ck_IDContainerMapping (q_cfg E)) (k_mysqlID w') = Some container \<and>
    az \<noteq> az_of E container \<and> t_trace w' = t_trace w @ tr \<and>
    (\<forall>a \<in> set hosts. \<forall>b \<in> set hosts. host_az a = az \<longrightarrow> host_az b \<noteq> az \<longrightarrow> cuts tr (fst a) (host_ip b) \<and> cuts tr (fst b) (host_ip a))"
proof -
  let ?t = "ck_PartitionTemplate (q_cfg E)" and ?ty = "ck_PartitionType (q_cfg E)"
  from assms(1) obtain m conn w1 c az w2 w3 w4 where g: "getDBConnection E w = Ret (m, conn) w1"
    and m: "map_of (ck_IDContainerMapping (q_cfg E)) m = Some c" and p: "pick_az E (az_of E c) (k_rand w1) w1 = Ret az w2"
    and i: "PartitionIncoming E ?t az ?ty w2 = Ret None w3" and out: "PartitionOutgoing E ?t az ?ty w3 = Ret None w4"
    and w': "w' = w4\<lparr>n_clock := n_clock w4 + 10 * time_Second, k_done := 2\<rparr>"
    by (auto simp: partitionOneAZCheck_def tool_Sleep_def set_done_def elim!: andthen_RetE split: option.splits if_splits)
  from g assms(2) have w1: "k_mysqlID w1 = m" "k_az w1 = zones hosts" "t_trace w1 = t_trace w"
    by (auto simp: getDBConnection_def setDBConnection_def elim!: andthen_RetE split: list.splits option.splits sum.splits)
  from pick_az_Ret [OF p] w1 have w2: "az \<noteq> az_of E c" "k_mysqlID w2 = m" "k_az w2 = zones hosts" "t_trace w2 = t_trace w" by auto
  from incoming_Ret [OF i] w2(3) obtain cs where cs: "incoming_commands E (zones hosts) ?t az ?ty = Inr cs" "call_all cs w2 = Ret None w3" by auto
  from call_all_Ret [OF cs(2)] w2 obtain tr where w3: "t_trace w3 = t_trace w @ tr" "k_az w3 = zones hosts" "k_mysqlID w3 = m"
    "\<forall>c \<in> set cs. \<exists>r. Ran (command_words c) (Inr r) \<in> set tr" by auto
  from outgoing_Ret [OF out] w3(2) obtain ds where ds: "outgoing_commands E (zones hosts) ?t az ?ty = Inr ds" "call_all ds w3 = Ret None w4" by auto
  from call_all_Ret [OF ds(2)] w3 obtain tr' where w4: "t_trace w4 = t_trace w @ tr @ tr'" "k_mysqlID w4 = m"
    "\<forall>c \<in> set ds. \<exists>r. Ran (command_words c) (Inr r) \<in> set tr'" by auto
  have az: "az \<in> host_az ` set hosts" using ds(1) zones_azs [of hosts] by (auto simp: outgoing_commands_def split: if_splits)
  have "cuts (tr @ tr') (fst a) (host_ip b) \<and> cuts (tr @ tr') (fst b) (host_ip a)"
    if "a \<in> set hosts" "b \<in> set hosts" "host_az a = az" "host_az b \<noteq> az" for a b
    using ran_cuts [OF outgoing_cuts [OF ds(1) assms(3-6) that(1,3,2,4)] w4(3), of tr "[]"]
      ran_cuts [OF incoming_cuts [OF cs(1) assms(3,5,6) that(1,3,2,4)] w3(4), of "[]" tr'] by simp
  moreover have "k_mysqlID w' = m" "t_trace w' = t_trace w @ tr @ tr'" using w' w4 by simp_all
  ultimately show ?thesis using az m w2(1) by blast
qed

text \<open>Three nodes, two of them in one zone; the master is in the other one.\<close>

definition ch_hosts :: "(string \<times> string \<times> string) list" where
  "ch_hosts = [(''n1'', ''z1'', ''10.0.0.1''), (''n2'', ''z2'', ''10.0.0.2''), (''n3'', ''z2'', ''10.0.0.3'')]"

definition ch_E :: checker_env where
  "ch_E = ck_E\<lparr>q_cfg := checker_NewConfig\<lparr>ck_IDContainerMapping := [(''a:3306'', ''n1''), (''b:3306'', ''n2''), (''c:3306'', ''n3'')],
     ck_ContainerAZMapping := [(''n1'', ''z1''), (''n2'', ''z2''), (''n3'', ''z2'')], ck_PartitionTemplate := ''pumba netem -d 1m '',
     ck_PartitionType := ''loss -p 100''\<rparr>\<rparr>"

definition ch_w :: checker where
  "ch_w = ck_w\<lparr>k_polls := [Some ''a:3306''], k_rand := [1, 0], k_az := zones ch_hosts, t_cmds := replicate 3 (Inr [])\<rparr>"

lemma ch_facts:
  "azSet (zones ch_hosts) = [''z2'', ''z1'']" "az_of ch_E ''n1'' = ''z1''"
  "map_of (ck_IDContainerMapping (q_cfg ch_E)) ''a:3306'' = Some ''n1''"
  "incoming_commands ch_E (zones ch_hosts) (ck_PartitionTemplate (q_cfg ch_E)) ''z2'' (ck_PartitionType (q_cfg ch_E)) =
     Inr [''pumba netem -d 1m --target 10.0.0.3 --target 10.0.0.2  loss -p 100 n1'']"
  "outgoing_commands ch_E (zones ch_hosts) (ck_PartitionTemplate (q_cfg ch_E)) ''z2'' (ck_PartitionType (q_cfg ch_E)) =
     Inr [''pumba netem -d 1m --target 10.0.0.1  loss -p 100 n3'', ''pumba netem -d 1m --target 10.0.0.1  loss -p 100 n2'']"
  by code_simp+

lemma ch_call: "t_cmds w = Inr r # rest \<Longrightarrow> CheckCall (CHR ''p'' # c) w =
    Ret (Inr r) (w\<lparr>t_cmds := rest, t_trace := t_trace w @ [Ran (command_words (CHR ''p'' # c)) (Inr r)]\<rparr>)"
  by (simp add: CheckCall_def tool_run_def command_words_def)

lemma ch_run: "\<exists>w'. partitionOneAZCheck ch_E ch_w = Ret None w'"
proof -
  have e: "q_open ch_E dsn = None" "q_range ch_E xs = xs" for dsn xs by (simp_all add: ch_E_def ck_E_def)
  show ?thesis
    by (simp add: partitionOneAZCheck_def andthen_def getDBConnection_def setDBConnection_def buildDBConnFromID_def open_conn_def e ch_w_def ck_w_def
      ch_facts PartitionIncoming_def PartitionOutgoing_def Let_def ch_call tool_Sleep_def set_done_def numeral_eq_Suc)
qed

theorem partition_cuts_witness:
  "\<exists>w' az container tr. partitionOneAZCheck ch_E ch_w = Ret None w' \<and> az \<in> host_az ` set ch_hosts \<and>
    map_of (ck_IDContainerMapping (q_cfg ch_E)) (k_mysqlID w') = Some container \<and> az \<noteq> az_of ch_E container \<and> t_trace w' = t_trace ch_w @ tr \<and>
    (\<forall>a \<in> set ch_hosts. \<forall>b \<in> set ch_hosts. host_az a = az \<longrightarrow> host_az b \<noteq> az \<longrightarrow> cuts tr (fst a) (host_ip b) \<and> cuts tr (fst b) (host_ip a))"
proof -
  obtain w' where w': "partitionOneAZCheck ch_E ch_w = Ret None w'" using ch_run by blast
  have "k_az ch_w = zones ch_hosts" "\<And>xs. set (q_range ch_E xs) = set xs" "distinct (map host_ip ch_hosts)"
    "\<forall>h \<in> set ch_hosts. plain (fst h) \<and> plain (host_ip h)" "has_suffix (ck_PartitionTemplate (q_cfg ch_E)) '' ''"
    by (simp_all add: ch_w_def ch_E_def ck_E_def ch_hosts_def has_suffix_def suffix_def)
  from partition_cuts [OF w' this] w' show ?thesis by blast
qed

section \<open>Where the jobs fall short\<close>

text \<open>
  After the agent of the master was stopped, the job waits while the new id, at first empty, is the id of the master: it does not wait at all.
\<close>

lemma stop_master_does_not_wait: "masterID \<noteq> [] \<Longrightarrow> await_other E (Suc n) start masterID [] = ret ()"
  by simp

text \<open>After the request for a change, the job takes the first id it sees, even that of the old master.\<close>

lemma change_master_takes_old: "getDBConnection E w = Ret (m, c) w1 \<Longrightarrow> m \<noteq> [] \<Longrightarrow> await_any E (Suc n) m m w = Ret m w1"
  by (simp add: andthen_def)

end
