(* ===== verification/Tool_Files.thy ===== *)
theory Tool_Files
  imports Tool_Runs
begin

text \<open>
  The files the tools of \<open>src/moctl\<close> read and write: contents by name. A call on a file may fail, as a script says, and a shell command
  may change any file.
\<close>

type_synonym files = "string \<Rightarrow> string option"

record file_tool = tool +
  v_files :: files
  v_faults :: "error option list"
  v_effects :: "(files \<Rightarrow> files) list"

type_synonym 'a rc_io = "(file_tool, 'a) io"

text \<open>Each call on a file may fail, and then has no effect.\<close>

definition fault :: "error option rc_io" where
  "fault w = (case v_faults w of [] \<Rightarrow> Ret None w | e # es \<Rightarrow> Ret e (w\<lparr>v_faults := es\<rparr>))"

definition put_file :: "string \<Rightarrow> string \<Rightarrow> unit rc_io" where
  "put_file f c = updates (\<lambda>w. w\<lparr>v_files := (v_files w)(f \<mapsto> c)\<rparr>)"

definition rc_Stat :: "string \<Rightarrow> bool rc_io" where
  "rc_Stat f = andthen fault (\<lambda>e. reads (\<lambda>w. e = None \<and> v_files w f \<noteq> None))"

definition rc_Remove :: "string \<Rightarrow> unit rc_io" where
  "rc_Remove f = andthen fault (\<lambda>e. if e \<noteq> None then ret () else updates (\<lambda>w. w\<lparr>v_files := (v_files w)(f := None)\<rparr>))"

definition rc_Create :: "string \<Rightarrow> bool rc_io" where
  "rc_Create f = andthen fault (\<lambda>e. if e \<noteq> None then ret False else andthen (put_file f []) (\<lambda>_. ret True))"

definition rc_Open :: "string \<Rightarrow> string option rc_io" where
  "rc_Open f = andthen fault (\<lambda>e. if e \<noteq> None then ret None else reads (\<lambda>w. v_files w f))"

text \<open>Opening for writing with \<open>O_CREATE\<close> and without \<open>O_TRUNC\<close>: the old contents stay.\<close>

definition rc_OpenFile :: "string \<Rightarrow> string option rc_io" where
  "rc_OpenFile f =
     andthen fault (\<lambda>e.
     if e \<noteq> None then ret None
     else
       andthen (reads (\<lambda>w. case v_files w f of None \<Rightarrow> [] | Some c \<Rightarrow> c)) (\<lambda>c.
       andthen (put_file f c) (\<lambda>_. ret (Some c))))"

definition rc_WriteString :: "string \<Rightarrow> string \<Rightarrow> bool rc_io" where
  "rc_WriteString f s =
     andthen fault (\<lambda>e.
     if e \<noteq> None then ret False
     else
       andthen (reads (\<lambda>w. case v_files w f of None \<Rightarrow> [] | Some c \<Rightarrow> c)) (\<lambda>c.
       andthen (put_file f (c @ s)) (\<lambda>_. ret True)))"

lemma fault_Ret: "fault w = Ret e w' \<Longrightarrow> v_files w' = v_files w \<and> t_trace w' = t_trace w"
  by (auto simp: fault_def split: list.splits)

end
