(* ===== verification/Moctl_Recovery.thy ===== *)
theory Moctl_Recovery
  imports Tool_Files Go_Json
begin

text \<open>
  The operator's tool that prepares a former master for its return to the cluster, \<open>src/moctl/recovery.go\<close>: it reads from etcd where the new
  master took over, copies the binary logs written since then to a backup, undoes them in the old database, and writes the configuration of the
  program that replays them on the new master. Files are their contents by name; a shell command may change them, as a script says.
\<close>

section \<open>Data\<close>

record rec_DBConfig =
  r_MysqlHost :: string
  r_MysqlUser :: string
  r_MysqlPwd :: string
  r_MysqlPort :: int

record rec_config =
  r_EtcdURLs :: string
  r_EtcdRootPath :: string
  r_EtcdUsername :: string
  r_EtcdPassword :: string
  r_EtcdCluster :: string
  r_EtcdHostPort :: string
  r_Db :: rec_DBConfig

record MysqlCurrentStat =
  BinlogFile :: string
  BinlogPos :: string
  BinlogGtid :: string
  stat_UUID :: string

record DBConfigNewMaster =
  nm_Host :: string
  nm_Location :: string
  nm_Username :: string
  nm_Password :: string
  nm_Port :: int
  nm_Schema :: string

record MySQLBinlogPosition =
  BinLogFileName :: string
  BinLogFilePos :: "32 word"

record PadderConfig =
  BinLogList :: "string list"
  EnableDelete :: bool
  pd_Target :: DBConfigNewMaster
  pd_StartPosition :: MySQLBinlogPosition

text \<open>The map of the switch, with its five keys.\<close>

record switch_info =
  MohaSwitchFile :: string
  MohaSwitchPost :: string
  MohaSwitchGtid :: string
  MohaNewMasterIp :: string
  MohaNewMasterPort :: string

section \<open>Commands and copies\<close>

definition linuxSystemCommand :: "string \<Rightarrow> (string \<times> error option) rc_io" where
  "linuxSystemCommand systemcommand =
     andthen (tool_run [''/bin/bash'', ''-c'', systemcommand]) (\<lambda>r.
     andthen (updates (\<lambda>w. case v_effects w of [] \<Rightarrow> w | f # fs \<Rightarrow> w\<lparr>v_files := f (v_files w), v_effects := fs\<rparr>)) (\<lambda>_.
     ret (case r of Inl e \<Rightarrow> (''null'', Some e) | Inr out \<Rightarrow> (out, None))))"

definition copyFile :: "string \<Rightarrow> string \<Rightarrow> bool rc_io" where
  "copyFile source dest =
     (if source = [] \<or> dest = [] then ret False
      else
        andthen (rc_Open source) (\<lambda>s. case s of
          None \<Rightarrow> ret False
        | Some _ \<Rightarrow>
            andthen (rc_OpenFile dest) (\<lambda>d. case d of
              None \<Rightarrow> ret False
            | Some old \<Rightarrow>
                andthen fault (\<lambda>e.
                if e \<noteq> None then ret False
                else
                  andthen (reads (\<lambda>w. case v_files w source of None \<Rightarrow> [] | Some c \<Rightarrow> c)) (\<lambda>c.
                  andthen (put_file dest (c @ drop (length c) old)) (\<lambda>_. ret True))))))"

section \<open>The switch in etcd\<close>

definition upd_MysqlCurrentStat :: "string \<Rightarrow> json \<Rightarrow> MysqlCurrentStat \<Rightarrow> MysqlCurrentStat option" where
  "upd_MysqlCurrentStat k v s =
     (if k = ''file'' then dec_string v (\<lambda>x. s\<lparr>BinlogFile := x\<rparr>) s
      else if k = ''pos'' then dec_string v (\<lambda>x. s\<lparr>BinlogPos := x\<rparr>) s
      else if k = ''gtid'' then dec_string v (\<lambda>x. s\<lparr>BinlogGtid := x\<rparr>) s
      else if k = ''uuid'' then dec_string v (\<lambda>x. s\<lparr>stat_UUID := x\<rparr>) s
      else Some s)"

definition zero_MysqlCurrentStat :: MysqlCurrentStat where
  "zero_MysqlCurrentStat = \<lparr>BinlogFile = [], BinlogPos = [], BinlogGtid = [], stat_UUID = []\<rparr>"

definition rec_root :: "rec_config \<Rightarrow> string" where
  "rec_root cfg = r_EtcdRootPath cfg @ r_EtcdCluster cfg"

text \<open>A request whose failure ends the tool.\<close>

definition get_or_exit :: "string \<Rightarrow> bool \<Rightarrow> kv list rc_io" where
  "get_or_exit k withPrefix = andthen (tool_Get k withPrefix) (\<lambda>r. case r of Inl _ \<Rightarrow> tool_exit | Inr kvs \<Rightarrow> ret kvs)"

definition info_of :: "kv \<Rightarrow> (error + switch_info) rc_io" where
  "info_of x =
     (let stat = fst (unmarshal upd_MysqlCurrentStat zero_MysqlCurrentStat (kv_value x));
          ipPort = last (split_go (CHR ''/'') (kv_key x))
      in if ipPort = [] then ret (Inl (EMsg ''MohaSwitchIPPort is null''))
         else case split_go (CHR '':'') ipPort of
           ip # port # _ \<Rightarrow> ret (Inr \<lparr>MohaSwitchFile = BinlogFile stat, MohaSwitchPost = BinlogPos stat, MohaSwitchGtid = BinlogGtid stat,
             MohaNewMasterIp = ip, MohaNewMasterPort = port\<rparr>)
         | _ \<Rightarrow> go_panic)"

text \<open>The store lists keys in ascending order, so that the first key of the descending order is the last one.\<close>

definition GetEtcdSwitchInfo :: "rec_config \<Rightarrow> (error + switch_info) rc_io" where
  "GetEtcdSwitchInfo cfg =
     andthen initEtcdClient (\<lambda>err.
     if err \<noteq> None then tool_exit
     else
       andthen (get_or_exit (rec_root cfg @ ''/election/master/term'') False) (\<lambda>currentterm.
       case currentterm of
         [] \<Rightarrow> go_panic
       | c # _ \<Rightarrow>
           andthen (get_or_exit (rec_root cfg @ ''/election/terms/'' @ r_EtcdHostPort cfg) False) (\<lambda>recoveryNodeTerm.
           case recoveryNodeTerm of
             [] \<Rightarrow> tool_exit
           | r # _ \<Rightarrow>
               if fst (parseInt64 (kv_value r)) \<noteq> wrap64 (fst (parseInt64 (kv_value c)) - 1) then tool_exit
               else
                 andthen (get_or_exit (rec_root cfg @ ''/switch/'' @ kv_value r) True) (\<lambda>resp.
                 if resp = [] then tool_exit else info_of (last resp)))))"

section \<open>The compose file of the recovery\<close>

definition newline :: char where
  "newline = CHR 0x0A"

text \<open>One call of \<open>ReadLine\<close> on a reader with a buffer of 4096 bytes, on text that is not empty.\<close>

definition read_line :: "string \<Rightarrow> string \<times> string" where
  "read_line s =
     (let l = takeWhile (\<lambda>c. c \<noteq> newline) s in
      if length l < 4096 \<and> length l < length s then
        (if l \<noteq> [] \<and> last l = CHR 0x0D then butlast l else l, drop (Suc (length l)) s)
      else if length s \<ge> 4096 then
        (if s ! 4095 = CHR 0x0D then (take 4095 s, drop 4095 s) else (take 4096 s, drop 4096 s))
      else (s, []))"

lemma read_line_shorter: "s \<noteq> [] \<Longrightarrow> length (snd (read_line s)) < length s"
  by (auto simp: read_line_def Let_def)

function read_lines :: "string \<Rightarrow> string list" where
  "read_lines s = (if s = [] then [] else fst (read_line s) # read_lines (snd (read_line s)))"
  by pat_completeness auto
termination by (relation "measure length") (simp_all add: read_line_shorter)

declare read_lines.simps [simp del]

fun replace_first :: "string \<Rightarrow> string \<Rightarrow> string \<Rightarrow> string" where
  "replace_first old new [] = (if old = [] then new else [])"
| "replace_first old new (c # s) = (if prefix old (c # s) then new @ drop (length old) (c # s) else c # replace_first old new s)"

definition rewrite_line :: "string \<Rightarrow> string \<Rightarrow> string option" where
  "rewrite_line mysqlport a =
     (if contains_go a ''entrypoint'' then
        Some (replace_first ''/agent/supervise'' (''mysqld --defaults-file=/etc/my_'' @ mysqlport @ ''.cnf'' @ [newline]) a)
      else if contains_go a ''agentlog'' then None
      else if contains_go a ''container_name'' then Some (a @ ''_recovery'' @ [newline])
      else Some (a @ [newline]))"

fun write_lines :: "string \<Rightarrow> string \<Rightarrow> string list \<Rightarrow> error option rc_io" where
  "write_lines f mysqlport [] = ret None"
| "write_lines f mysqlport (a # as) =
     (case rewrite_line mysqlport a of
        None \<Rightarrow> write_lines f mysqlport as
      | Some s \<Rightarrow> andthen (rc_WriteString f s) (\<lambda>ok.
          if \<not> ok then ret (Some (EMsg ''write New recovery file fail'')) else write_lines f mysqlport as))"

definition CreateRecoveryDockerConf :: "string \<Rightarrow> string \<Rightarrow> string \<Rightarrow> error option rc_io" where
  "CreateRecoveryDockerConf sourceComposeFile recoveryComposeFile mysqlport =
     andthen (rc_Stat recoveryComposeFile) (\<lambda>old.
     andthen (if old then rc_Remove recoveryComposeFile else ret ()) (\<lambda>_.
     andthen (rc_Create recoveryComposeFile) (\<lambda>ok.
     if \<not> ok then ret (Some (EMsg ''create recoveryComposeFile file fail''))
     else
       andthen (rc_Stat sourceComposeFile) (\<lambda>there.
       if \<not> there then ret (Some (EMsg ''sourceComposeFile  not Existed''))
       else
         andthen (rc_Open sourceComposeFile) (\<lambda>s. case s of
           None \<Rightarrow> ret (Some (EMsg ''sourceComposeFile  Open fail''))
         | Some c \<Rightarrow> write_lines recoveryComposeFile mysqlport (read_lines c))))))"

section \<open>Databases\<close>

definition createNewMasterDB :: "string \<Rightarrow> string \<Rightarrow> string \<Rightarrow> int \<Rightarrow> string" where
  "createNewMasterDB user passwd host port =
     user @ '':'' @ passwd @ ''@tcp('' @ host @ '':'' @ show_int port @ '')/?charset=utf8&interpolateParams=true''"

definition rec_CreateDB :: "rec_DBConfig \<Rightarrow> string" where
  "rec_CreateDB cfg = createNewMasterDB (r_MysqlUser cfg) (r_MysqlPwd cfg) (r_MysqlHost cfg) (r_MysqlPort cfg)"

definition dbSet :: "string \<Rightarrow> string \<Rightarrow> error option rc_io" where
  "dbSet db setString = andthen (tool_Query db setString) (\<lambda>r. ret (case r of Inl e \<Rightarrow> Some e | Inr _ \<Rightarrow> None))"

definition getServerDataDir :: "string \<Rightarrow> (error + string) rc_io" where
  "getServerDataDir db = andthen (tool_Query db ''SELECT @@datadir;'') (\<lambda>r. ret (scanned_string r))"

definition master_position :: "error + rows \<Rightarrow> error + string" where
  "master_position r =
     (case r of
        Inl e \<Rightarrow> Inl e
      | Inr (cols, rws, rerr) \<Rightarrow>
          (case scan_master_rows (length cols) [] (([], 0), []) rws of
             Inl e \<Rightarrow> Inl e
           | Inr ((name, pos), gs) \<Rightarrow> (case rerr of Some e \<Rightarrow> Inl e | None \<Rightarrow> Inr name)))"

definition rec_GetMasterStatus :: "string \<Rightarrow> (error + string) rc_io" where
  "rec_GetMasterStatus db = andthen (tool_Query db ''SHOW MASTER STATUS'') (\<lambda>r. ret (master_position r))"

text \<open>The attempts left, after which the error is returned.\<close>

fun await_status :: "nat \<Rightarrow> string \<Rightarrow> (error + string) rc_io" where
  "await_status n db =
     andthen (rec_GetMasterStatus db) (\<lambda>r. case r of
       Inr name \<Rightarrow> ret (Inr name)
     | Inl e \<Rightarrow>
         andthen (tool_Sleep time_Second) (\<lambda>_.
           case n of 0 \<Rightarrow> ret (Inl e) | Suc m \<Rightarrow> await_status m db))"

declare await_status.simps [simp del]

definition binlog_name :: "string \<Rightarrow> int \<Rightarrow> string list" where
  "binlog_name pre i =
     (let s = show_int i; n = length s in
      if n = 1 then [pre @ ''.00000'' @ s]
      else if n = 2 then [pre @ ''.0000'' @ s]
      else if n = 3 then [pre @ ''.000'' @ s]
      else if n = 4 then [pre @ ''.00'' @ s]
      else if n = 5 then [pre @ ''.0'' @ s]
      else if n = 6 then [pre @ ''.'' @ s]
      else [])"

text \<open>A loop up to the largest integer does not end.\<close>

definition binlog_names :: "string \<Rightarrow> int \<Rightarrow> int \<Rightarrow> string list rc_io" where
  "binlog_names pre start stop =
     (if start \<le> stop \<and> stop = 2 ^ 63 - 1 then (\<lambda>w. Wait w) else ret (concat (map (binlog_name pre) [start..stop])))"

definition getBinlogList :: "rec_config \<Rightarrow> string \<Rightarrow> (error + string list) rc_io" where
  "getBinlogList cfg strBinlogFile =
     (case split_go (CHR ''.'') strBinlogFile of
        pre # str # _ \<Rightarrow>
          (case parseInt64 str of (start, ok) \<Rightarrow>
             if \<not> ok then ret (Inl (EMsg ''invalid syntax''))
             else
               andthen (await_status 10 (rec_CreateDB (r_Db cfg))) (\<lambda>r. case r of
                 Inl e \<Rightarrow> ret (Inl e)
               | Inr name \<Rightarrow>
                   (case split_go (CHR ''.'') name of
                      _ # stp # _ \<Rightarrow>
                        (case parseInt64 (hd (split_go (CHR 0x22) stp)) of (stop, ok) \<Rightarrow>
                           if \<not> ok then ret (Inl (EMsg ''invalid syntax''))
                           else andthen (binlog_names pre start stop) (\<lambda>bs. ret (Inr bs)))
                    | _ \<Rightarrow> go_panic)))
      | _ \<Rightarrow> go_panic)"

section \<open>The tool\<close>

fun backup :: "string \<Rightarrow> string \<Rightarrow> string list \<Rightarrow> string list rc_io" where
  "backup dataDir dir [] = ret []"
| "backup dataDir dir (i # is) =
     andthen (copyFile (dataDir @ i) (dir @ i)) (\<lambda>ok.
     if \<not> ok then tool_exit else andthen (backup dataDir dir is) (\<lambda>ds. ret ((dir @ i) # ds)))"

definition flashback_cmd :: "string \<Rightarrow> string \<Rightarrow> string option \<Rightarrow> string \<Rightarrow> string" where
  "flashback_cmd dataDir dir pos i =
     ''flashback --binlogFileNames='' @ dataDir @ i @ (case pos of Some p \<Rightarrow> '' --start-position='' @ p | None \<Rightarrow> []) @
     '' --outBinlogFileNameBase='' @ dir @ i"

fun flashback_rest :: "string \<Rightarrow> string \<Rightarrow> string list \<Rightarrow> string list rc_io" where
  "flashback_rest dataDir dir [] = ret []"
| "flashback_rest dataDir dir (i # is) =
     andthen (linuxSystemCommand (flashback_cmd dataDir dir None i)) (\<lambda>_.
     andthen (flashback_rest dataDir dir is) (\<lambda>fs. ret ((dir @ i @ ''.falshback'') # fs)))"

fun flashback :: "string \<Rightarrow> string \<Rightarrow> string \<Rightarrow> string list \<Rightarrow> string list rc_io" where
  "flashback dataDir dir pos [] = ret []"
| "flashback dataDir dir pos (i # is) =
     andthen (linuxSystemCommand (flashback_cmd dataDir dir (Some pos) i)) (\<lambda>_.
     andthen (flashback_rest dataDir dir is) (\<lambda>fs. ret ((dir @ i @ ''.flashback'') # fs)))"

definition apply_cmd :: "rec_config \<Rightarrow> string \<Rightarrow> string \<Rightarrow> string" where
  "apply_cmd cfg port i =
     ''mysqlbinlog --skip-gtids '' @ i @ '' | mysql -u '' @ r_MysqlUser (r_Db cfg) @ '' -p'' @ r_MysqlPwd (r_Db cfg) @
     '' -h'' @ r_MysqlHost (r_Db cfg) @ '' -P'' @ port"

fun apply_flashbacks :: "rec_config \<Rightarrow> string \<Rightarrow> string list \<Rightarrow> unit rc_io" where
  "apply_flashbacks cfg port [] = ret ()"
| "apply_flashbacks cfg port (i # is) =
     andthen (linuxSystemCommand (apply_cmd cfg port i)) (\<lambda>_. apply_flashbacks cfg port is)"

definition padder_of :: "rec_config \<Rightarrow> switch_info \<Rightarrow> string list \<Rightarrow> PadderConfig" where
  "padder_of cfg mp binlogs =
     \<lparr>BinLogList = binlogs, EnableDelete = True,
      pd_Target = \<lparr>nm_Host = MohaNewMasterIp mp, nm_Location = ''Asia/Shanghai'', nm_Username = r_MysqlUser (r_Db cfg),
        nm_Password = r_MysqlPwd (r_Db cfg), nm_Port = fst (parseInt64 (MohaNewMasterPort mp)), nm_Schema = ''test''\<rparr>,
      pd_StartPosition = \<lparr>BinLogFileName = MohaSwitchFile mp, BinLogFilePos = word_of_int (fst (parseInt64 (MohaSwitchPost mp)))\<rparr>\<rparr>"

definition write_padder :: "(PadderConfig \<Rightarrow> string) \<Rightarrow> PadderConfig \<Rightarrow> unit rc_io" where
  "write_padder encode p =
     andthen fault (\<lambda>e. if e \<noteq> None then go_panic else put_file ''padder.toml'' (encode p))"

definition recoveryComposeFile :: string where
  "recoveryComposeFile = ''/etc/recoverycomposefile.yml''"

text \<open>What happens once the binary logs are known.\<close>

definition undo_and_reset :: "(PadderConfig \<Rightarrow> string) \<Rightarrow> rec_config \<Rightarrow> string \<Rightarrow> string \<Rightarrow> switch_info \<Rightarrow> string \<Rightarrow> string list \<Rightarrow> unit rc_io" where
  "undo_and_reset encode cfg port dir mp dataDir bs =
     andthen (linuxSystemCommand (''mkdir -p '' @ dir)) (\<lambda>_.
     andthen (backup dataDir dir bs) (\<lambda>copies.
     andthen (flashback dataDir dir (MohaSwitchPost mp) bs) (\<lambda>fs.
     andthen (apply_flashbacks cfg port fs) (\<lambda>_.
     andthen (dbSet (rec_CreateDB (r_Db cfg)) ''reset master'') (\<lambda>_.
     andthen (dbSet (rec_CreateDB (r_Db cfg)) (''SET @@GLOBAL.GTID_PURGED='' @ [CHR 0x22] @ MohaSwitchGtid mp @ [CHR 0x22])) (\<lambda>_.
     write_padder encode (padder_of cfg mp copies)))))))"

definition recover :: "(PadderConfig \<Rightarrow> string) \<Rightarrow> rec_config \<Rightarrow> string \<Rightarrow> int \<Rightarrow> string \<Rightarrow> unit rc_io" where
  "recover encode cfg port intPort dir =
     andthen (linuxSystemCommand (''docker ps | grep '' @ r_EtcdCluster cfg @ ''|wc -l'')) (\<lambda>(productDocker, _).
     if filter (\<lambda>c. c \<noteq> newline) productDocker = ''1'' then tool_exit
     else
       andthen (GetEtcdSwitchInfo cfg) (\<lambda>r. case r of
         Inl _ \<Rightarrow> tool_exit
       | Inr mp \<Rightarrow>
           andthen (getServerDataDir (createNewMasterDB (r_MysqlUser (r_Db cfg)) (r_MysqlPwd (r_Db cfg)) (MohaNewMasterIp mp) intPort)) (\<lambda>r. case r of
             Inl _ \<Rightarrow> tool_exit
           | Inr dataDir \<Rightarrow>
               andthen (CreateRecoveryDockerConf (''/etc/'' @ port @ ''_docker-compose.yml'') recoveryComposeFile port) (\<lambda>_.
               andthen (linuxSystemCommand (''docker-compose -f '' @ recoveryComposeFile @ '' up -d'')) (\<lambda>_.
               andthen (getBinlogList cfg (MohaSwitchFile mp)) (\<lambda>r. case r of
                 Inl _ \<Rightarrow> tool_exit
               | Inr bs \<Rightarrow> undo_and_reset encode cfg port dir mp dataDir bs))))))"

definition recovery_main :: "(string \<Rightarrow> error + rec_config) \<Rightarrow> (PadderConfig \<Rightarrow> string) \<Rightarrow> bool \<Rightarrow> string \<Rightarrow> string \<Rightarrow> unit rc_io" where
  "recovery_main decode encode h instanceport binlogbackupdir =
     (if h then tool_exit
      else case parseInt64 instanceport of (intMysqlPort, ok) \<Rightarrow>
        if \<not> ok then tool_exit
        else case decode (''/etc/'' @ instanceport @ ''_config.toml'') of
          Inl _ \<Rightarrow> tool_exit
        | Inr cfg \<Rightarrow> recover encode cfg instanceport intMysqlPort binlogbackupdir)"

section \<open>The names of the binary logs\<close>

lemma length_show_nat: "0 < k \<Longrightarrow> length (show_nat n) \<le> k \<longleftrightarrow> n < 10 ^ k"
proof (induction k arbitrary: n)
  case (Suc k)
  show ?case
  proof (cases "n < 10")
    case True
    moreover have "(10 :: nat) \<le> 10 ^ Suc k" by simp
    ultimately have "n < 10 ^ Suc k" by linarith
    with True show ?thesis by (simp add: show_nat.simps [of n])
  next
    case False
    then have s: "show_nat n = show_nat (n div 10) @ [digit_char (n mod 10)]" by (simp add: show_nat.simps [of n])
    show ?thesis
    proof (cases k)
      case 0
      with False s show ?thesis by simp
    next
      case (Suc k')
      then have "length (show_nat (n div 10)) \<le> k \<longleftrightarrow> n div 10 < 10 ^ k" using Suc.IH by simp
      also have "\<dots> \<longleftrightarrow> n < 10 ^ Suc k" by (auto simp: div_less_iff_less_mult mult.commute)
      finally show ?thesis by (simp add: s)
    qed
  qed
qed simp

text \<open>The six digits of a number.\<close>

definition binlog_file :: "string \<Rightarrow> int \<Rightarrow> string" where
  "binlog_file pre i = pre @ ''.'' @ replicate (6 - length (show_int i)) (CHR ''0'') @ show_int i"

lemma short_number: "0 \<le> i \<Longrightarrow> length (show_int i) \<le> 6 \<longleftrightarrow> i < 1000000"
  using length_show_nat [of 6 "nat i"] by (simp add: show_int_def nat_less_iff)

lemma show_int_pos: "0 \<le> i \<Longrightarrow> 0 < length (show_int i)"
  by (simp add: show_int_def)

lemma binlog_name_eq: "0 \<le> i \<Longrightarrow> binlog_name pre i = (if i < 1000000 then [binlog_file pre i] else [])"
  using short_number [of i] show_int_pos [of i]
  by (auto simp: binlog_name_def binlog_file_def Let_def numeral_eq_Suc le_Suc_eq simp del: length_greater_0_conv)

lemma binlog_name_length: "x \<in> set (binlog_name pre i) \<Longrightarrow> length x = length pre + 7"
  by (auto simp: binlog_name_def Let_def split: if_splits)

text \<open>The number of the first log, where the new master took over, and that of the last one of the old master.\<close>

definition binlog_range :: "string \<Rightarrow> string \<Rightarrow> string \<Rightarrow> int \<Rightarrow> int \<Rightarrow> bool" where
  "binlog_range f name pre start stop \<longleftrightarrow>
     (\<exists>str rest p stp rest'. split_go (CHR ''.'') f = pre # str # rest \<and> parseInt64 str = (start, True) \<and>
        split_go (CHR ''.'') name = p # stp # rest' \<and> parseInt64 (hd (split_go (CHR 0x22) stp)) = (stop, True))"

text \<open>The answer of a database about its own position.\<close>

definition answered :: "string \<Rightarrow> string \<Rightarrow> file_tool \<Rightarrow> bool" where
  "answered db name w \<longleftrightarrow> (\<exists>x. Queried db ''SHOW MASTER STATUS'' x \<in> set (t_trace w) \<and> master_position (reply_rows x) = Inr name)"

lemma status_answered: "rec_GetMasterStatus db w = Ret (Inr name) w' \<Longrightarrow> answered db name w'"
  by (auto simp: rec_GetMasterStatus_def tool_Query_def answered_def elim!: andthen_RetE split: list.splits) blast

lemma await_status_answered: "await_status n db w = Ret (Inr name) w' \<Longrightarrow> answered db name w'"
proof (induction n arbitrary: w)
  case 0
  then show ?case
    by (subst (asm) await_status.simps) (auto dest: status_answered elim!: andthen_RetE split: sum.splits)
next
  case (Suc n)
  then show ?case
    by (subst (asm) (2) await_status.simps) (auto dest: status_answered elim!: andthen_RetE split: sum.splits)
qed

lemma getBinlogList_Ret:
  assumes "getBinlogList cfg f w = Ret (Inr bs) w'"
  shows "\<exists>pre start stop name. binlog_range f name pre start stop \<and> answered (rec_CreateDB (r_Db cfg)) name w' \<and>
    bs = concat (map (binlog_name pre) [start..stop])"
proof -
  from assms obtain pre str rest start r w1 where f: "split_go (CHR ''.'') f = pre # str # rest" "parseInt64 str = (start, True)"
    and a: "await_status 10 (rec_CreateDB (r_Db cfg)) w = Ret r w1"
    and k: "(case r of Inl e \<Rightarrow> ret (Inl e)
      | Inr name \<Rightarrow> (case split_go (CHR ''.'') name of
            _ # stp # _ \<Rightarrow> (case parseInt64 (hd (split_go (CHR 0x22) stp)) of (stop, ok) \<Rightarrow>
              if \<not> ok then ret (Inl (EMsg ''invalid syntax'')) else andthen (binlog_names pre start stop) (\<lambda>bs. ret (Inr bs)))
          | _ \<Rightarrow> go_panic)) w1 = Ret (Inr bs) w'"
    by (auto simp: getBinlogList_def elim!: andthen_RetE split: list.splits prod.splits if_splits)
  from k obtain name p stp rest' stop where n: "r = Inr name" "split_go (CHR ''.'') name = p # stp # rest'"
    "parseInt64 (hd (split_go (CHR 0x22) stp)) = (stop, True)" "bs = concat (map (binlog_name pre) [start..stop])" "w' = w1"
    by (auto simp: binlog_names_def elim!: andthen_RetE split: sum.splits list.splits prod.splits if_splits)
  have "binlog_range f name pre start stop" unfolding binlog_range_def using f n(2,3) by blast
  with await_status_answered a n(1,4,5) show ?thesis by blast
qed

section \<open>Copies\<close>

definition contents :: "file_tool \<Rightarrow> string \<Rightarrow> string" where
  "contents w f = (case v_files w f of None \<Rightarrow> [] | Some c \<Rightarrow> c)"

lemma open_Ret: "rc_Open f w = Ret (Some c) w' \<Longrightarrow> v_files w f = Some c \<and> v_files w' = v_files w \<and> t_trace w' = t_trace w"
  by (auto simp: rc_Open_def dest!: fault_Ret elim!: andthen_RetE split: if_splits)

lemma openFile_Ret: "rc_OpenFile f w = Ret (Some c) w' \<Longrightarrow> c = contents w f \<and> v_files w' = (v_files w)(f \<mapsto> c) \<and> t_trace w' = t_trace w"
  by (auto simp: rc_OpenFile_def put_file_def contents_def dest!: fault_Ret elim!: andthen_RetE split: if_splits)

lemma copyFile_Ret:
  assumes "copyFile s d w = Ret True w'"
  shows "v_files w s \<noteq> None \<and> v_files w' = (v_files w)(d \<mapsto> contents w s @ drop (length (contents w s)) (contents w d)) \<and> t_trace w' = t_trace w"
proof -
  from assms obtain c w1 old w2 e w3 where "rc_Open s w = Ret (Some c) w1" "rc_OpenFile d w1 = Ret (Some old) w2" "fault w2 = Ret e w3"
    and w': "w' = w3\<lparr>v_files := (v_files w3)(d \<mapsto> contents w3 s @ drop (length (contents w3 s)) old)\<rparr>"
    by (auto simp: copyFile_def put_file_def contents_def elim!: andthen_RetE split: if_splits option.split_asm)
  then have "v_files w s = Some c" "old = contents w d" "v_files w3 = (v_files w)(d \<mapsto> contents w d)" "t_trace w3 = t_trace w"
    by (auto dest!: open_Ret openFile_Ret fault_Ret simp: contents_def)
  with w' show ?thesis by (auto simp: contents_def)
qed

lemma backup_frame: "backup D d is w = Ret ds w' \<Longrightarrow> f \<notin> (\<lambda>i. d @ i) ` set is \<Longrightarrow> v_files w' f = v_files w f"
proof (induction "is" arbitrary: w ds)
  case (Cons i "is")
  from Cons.prems(1) obtain w1 ds' where c: "copyFile (D @ i) (d @ i) w = Ret True w1" and b: "backup D d is w1 = Ret ds' w'"
    by (auto simp: tool_exit_def elim!: andthen_RetE split: if_splits)
  have "v_files w' f = v_files w1 f" using Cons.IH [OF b] Cons.prems(2) by simp
  also have "\<dots> = v_files w f" using copyFile_Ret [OF c] Cons.prems(2) by simp
  finally show ?case .
qed simp

text \<open>A copy holds the contents of its source, and may hold more: the file is not truncated.\<close>

definition copy_of :: "file_tool \<Rightarrow> string \<Rightarrow> file_tool \<Rightarrow> string \<Rightarrow> bool" where
  "copy_of w s w' d \<longleftrightarrow> (\<exists>c more. v_files w s = Some c \<and> v_files w' d = Some (c @ more))"

lemma backup_Ret:
  "backup D d is w = Ret ds w' \<Longrightarrow> (\<And>i j. i \<in> set is \<Longrightarrow> j \<in> set is \<Longrightarrow> length i = length j) \<Longrightarrow>
   ds = map (\<lambda>i. d @ i) is \<and> t_trace w' = t_trace w \<and> (\<forall>i \<in> set is. copy_of w (D @ i) w' (d @ i))"
proof (induction "is" arbitrary: w ds)
  case (Cons i "is")
  from Cons.prems(1) obtain w1 ds' where c: "copyFile (D @ i) (d @ i) w = Ret True w1" and b: "backup D d is w1 = Ret ds' w'" and ds: "ds = (d @ i) # ds'"
    by (auto simp: tool_exit_def elim!: andthen_RetE split: if_splits)
  from copyFile_Ret [OF c] obtain x where x: "v_files w (D @ i) = Some x"
    "v_files w1 = (v_files w)(d @ i \<mapsto> x @ drop (length x) (contents w (d @ i)))" "t_trace w1 = t_trace w" by (auto simp: contents_def)
  from Cons.IH [OF b] Cons.prems(2) have IH: "ds' = map (\<lambda>i. d @ i) is" "t_trace w' = t_trace w1" "\<forall>j \<in> set is. copy_of w1 (D @ j) w' (d @ j)" by auto
  have src: "v_files w1 (D @ j) = v_files w (D @ j)" if "j \<in> set (i # is)" for j
  proof (cases "D @ j = d @ i")
    case True
    then have "D = d" "j = i" using Cons.prems(2) [of j i] that by auto
    then show ?thesis using x by (simp add: contents_def)
  qed (use x in simp)
  have "copy_of w (D @ i) w' (d @ i)"
  proof (cases "i \<in> set is")
    case True
    then have "copy_of w1 (D @ i) w' (d @ i)" using IH(3) by blast
    then show ?thesis using src [of i] by (simp add: copy_of_def)
  next
    case False
    with backup_frame [OF b, of "d @ i"] x show ?thesis by (auto simp: copy_of_def)
  qed
  moreover have "copy_of w (D @ j) w' (d @ j)" if "j \<in> set is" for j
  proof -
    have "copy_of w1 (D @ j) w' (d @ j)" using IH(3) that by blast
    then show ?thesis using src [of j] that by (simp add: copy_of_def)
  qed
  ultimately show ?case using ds IH(1,2) x(3) by simp
qed simp

section \<open>Resetting the master\<close>

definition reset_entry :: "tool_action \<Rightarrow> bool" where
  "reset_entry a \<longleftrightarrow> (\<exists>db x. a = Queried db ''reset master'' x)"

abbreviation reset_sent :: "file_tool \<Rightarrow> bool" where
  "reset_sent w \<equiv> list_ex reset_entry (t_trace w)"

text \<open>An operation that does not send the statement.\<close>

abbreviation silent :: "'a rc_io \<Rightarrow> bool" where
  "silent m \<equiv> keeps (\<lambda>w. \<not> reset_sent w) m"

lemma silent_base: "silent (Ret a)" "silent tool_exit" "silent (\<lambda>w. Wait w)" "silent fault" "silent (put_file g c)"
    "silent (tool_run c')" "silent (tool_Sleep d)" "silent initEtcdClient" "silent (tool_Get k b)"
  by (auto simp: keeps_def tool_exit_def fault_def put_file_def tool_run_def tool_Sleep_def initEtcdClient_def tool_Get_def rpc_call_def Let_def
    reset_entry_def split: list.splits rpc_event.splits rpc_status.splits)

lemma silent_query: "stmt \<noteq> ''reset master'' \<Longrightarrow> silent (tool_Query db stmt)"
  by (auto simp: keeps_def tool_Query_def reset_entry_def split: list.splits)

lemmas silent_rules = keeps_andthen keeps_ret keeps_reads keeps_go_panic keeps_updates silent_base silent_query

lemma silent_effect: "silent (updates (\<lambda>w. case v_effects w of [] \<Rightarrow> w | f # fs \<Rightarrow> w\<lparr>v_files := f (v_files w), v_effects := fs\<rparr>))"
  by (rule keeps_updates) (simp split: list.splits)

lemma silent_files: "silent (rc_Stat f)" "silent (rc_Remove f)" "silent (rc_Create f)" "silent (rc_Open f)" "silent (rc_OpenFile f)"
    "silent (rc_WriteString f c)" "silent (linuxSystemCommand c)"
  unfolding rc_Stat_def rc_Remove_def rc_Create_def rc_Open_def rc_OpenFile_def rc_WriteString_def linuxSystemCommand_def
  by (auto intro!: silent_rules silent_effect)

lemma silent_copy: "silent (copyFile a b)"
  unfolding copyFile_def by (auto intro!: silent_rules silent_files split: option.split)

lemma silent_write_lines: "silent (write_lines f p as)"
  by (induction as) (auto intro!: silent_rules silent_files split: option.split)

lemma silent_conf: "silent (CreateRecoveryDockerConf a b c)"
  unfolding CreateRecoveryDockerConf_def by (auto intro!: silent_rules silent_files silent_write_lines split: option.split)

lemma silent_await: "silent (await_status n db)"
proof (induction n)
  case 0
  show ?case by (subst await_status.simps) (auto simp: rec_GetMasterStatus_def intro!: silent_rules split: sum.split)
next
  case (Suc n)
  show ?case by (subst await_status.simps) (auto simp: rec_GetMasterStatus_def intro!: silent_rules Suc split: sum.split)
qed

lemma silent_lists: "silent (getBinlogList cfg f)" "silent (getServerDataDir db)" "silent (GetEtcdSwitchInfo cfg)" "silent (backup D d is)"
  unfolding getBinlogList_def getServerDataDir_def GetEtcdSwitchInfo_def get_or_exit_def info_of_def binlog_names_def Let_def
  subgoal by (auto intro!: silent_rules silent_await split: list.split prod.split sum.split)
  subgoal by (auto intro!: silent_rules)
  subgoal by (auto intro!: silent_rules split: list.split sum.split)
  subgoal by (induction "is") (auto intro!: silent_rules silent_copy)
  done

text \<open>A statement that a sequence of operations sends is sent by the first one that can send it.\<close>

lemma reset_step:
  assumes "reset_sent (final_world (andthen m f w))" and "silent m" and "\<not> reset_sent w"
  shows "\<exists>a w1. m w = Ret a w1 \<and> \<not> reset_sent w1 \<and> reset_sent (final_world (f a w1))"
proof (cases "m w")
  case (Ret a w1)
  with assms(1) keeps_RetD [OF assms(2,3) Ret] show ?thesis by (intro exI [of _ a] exI [of _ w1]) (simp add: andthen_def)
qed (use assms(1) keepsD [OF assms(2,3)] in \<open>simp_all add: andthen_def\<close>)

text \<open>The term of the cluster and the term of the node, as the tool reads them: the node was the last master before the current one.\<close>

definition former_master :: "rec_config \<Rightarrow> bool" where
  "former_master cfg \<longleftrightarrow> (\<exists>w1 w2 w3 w4 c cs r rs.
     get_or_exit (rec_root cfg @ ''/election/master/term'') False w1 = Ret (c # cs) w2 \<and>
     get_or_exit (rec_root cfg @ ''/election/terms/'' @ r_EtcdHostPort cfg) False w3 = Ret (r # rs) w4 \<and>
     fst (parseInt64 (kv_value r)) = wrap64 (fst (parseInt64 (kv_value c)) - 1))"

lemma switch_info_former: "GetEtcdSwitchInfo cfg w = Ret (Inr mp) w' \<Longrightarrow> former_master cfg"
  unfolding GetEtcdSwitchInfo_def former_master_def
  by (elim andthen_RetE) (auto simp: tool_exit_def elim!: andthen_RetE split: if_splits list.splits, blast)

lemma undo_backed_up:
  assumes "reset_sent (final_world (undo_and_reset encode cfg port dir mp dataDir bs w))" and "\<not> reset_sent w"
  shows "\<exists>w1 ds w2. backup dataDir dir bs w1 = Ret ds w2 \<and> (\<forall>db name. answered db name w \<longrightarrow> answered db name w1) \<and> \<not> reset_sent w2"
proof -
  from reset_step [OF assms(1) [unfolded undo_and_reset_def] silent_files(7) assms(2)] obtain x w1
    where m: "linuxSystemCommand (''mkdir -p '' @ dir) w = Ret x w1" and w1: "\<not> reset_sent w1"
      and r: "reset_sent (final_world (andthen (backup dataDir dir bs) (\<lambda>copies.
        andthen (flashback dataDir dir (MohaSwitchPost mp) bs) (\<lambda>fs.
        andthen (apply_flashbacks cfg port fs) (\<lambda>_.
        andthen (dbSet (rec_CreateDB (r_Db cfg)) ''reset master'') (\<lambda>_.
        andthen (dbSet (rec_CreateDB (r_Db cfg)) (''SET @@GLOBAL.GTID_PURGED='' @ [CHR 0x22] @ MohaSwitchGtid mp @ [CHR 0x22])) (\<lambda>_.
        write_padder encode (padder_of cfg mp copies)))))) w1))" by auto
  from reset_step [OF r silent_lists(4) w1] obtain ds w2 where b: "backup dataDir dir bs w1 = Ret ds w2" "\<not> reset_sent w2" by blast
  have "set (t_trace w) \<subseteq> set (t_trace w1)"
    using m by (auto simp: linuxSystemCommand_def tool_run_def elim!: andthen_RetE split: list.splits)
  then have "\<forall>db name. answered db name w \<longrightarrow> answered db name w1" unfolding answered_def by blast
  with b show ?thesis by blast
qed


text \<open>A run: the node was master in term 2, and its log of the switch is its last one.\<close>

definition rv_cfg :: rec_config where
  "rv_cfg = \<lparr>r_EtcdURLs = ''http://10.0.0.9:2379'', r_EtcdRootPath = ''/db/'', r_EtcdUsername = [], r_EtcdPassword = [], r_EtcdCluster = ''c1'',
     r_EtcdHostPort = ''a:3306'', r_Db = \<lparr>r_MysqlHost = ''a'', r_MysqlUser = ''u'', r_MysqlPwd = ''p'', r_MysqlPort = 3306\<rparr>\<rparr>"

definition rv_stat :: string where
  "rv_stat = print_json (JObj [(''File'', JStr ''bin.000012''), (''Pos'', JStr ''345''), (''GTID'', JStr ''x:1-7'')])"

definition rv_etcd :: etcd where
  "rv_etcd = snd (etcd_put ''/db/c1/switch/2/b:3306'' rv_stat 0 (snd (etcd_put ''/db/c1/election/terms/a:3306'' ''2'' 0
     (snd (etcd_put ''/db/c1/election/master/term'' ''3'' 0 empty_etcd)))))"

definition rv_w :: file_tool where
  "rv_w = \<lparr>n_etcd = rv_etcd, n_script = [Rpc id RpcOK 1 1, Rpc id RpcOK 1 1, Rpc id RpcOK 1 1], n_clock = 0, t_dial = [None],
     t_sql = [SqlReply None [''@@datadir''] [[Some ''/data/'']] None 1,
       SqlReply None [''File'', ''Position'', ''Binlog_Do_DB'', ''Binlog_Ignore_DB''] [[Some ''bin.000012'', Some ''900'', None, None]] None 1,
       SqlReply None [] [] None 1, SqlReply None [] [] None 1],
     t_http = [], t_cmds = [Inr ''0'', Inr [], Inr [], Inr [], Inr []], t_trace = [],
     v_files = [''/data/bin.000012'' \<mapsto> ''events''], v_faults = [], v_effects = []\<rparr>"

definition rv_info :: switch_info where
  "rv_info = \<lparr>MohaSwitchFile = ''bin.000012'', MohaSwitchPost = ''345'', MohaSwitchGtid = ''x:1-7'', MohaNewMasterIp = ''b'', MohaNewMasterPort = ''3306''\<rparr>"

lemma rv_etcd_facts:
  "map kv_value (etcd_range rv_etcd (rec_root rv_cfg @ ''/election/master/term'')) = [''3'']"
  "map kv_value (etcd_range rv_etcd (rec_root rv_cfg @ ''/election/terms/'' @ r_EtcdHostPort rv_cfg)) = [''2'']"
  "map (\<lambda>x. (kv_key x, kv_value x)) (etcd_range_prefix rv_etcd (rec_root rv_cfg @ ''/switch/'' @ ''2'')) = [(''/db/c1/switch/2/b:3306'', rv_stat)]"
  "fst (unmarshal upd_MysqlCurrentStat zero_MysqlCurrentStat rv_stat) =
     \<lparr>BinlogFile = ''bin.000012'', BinlogPos = ''345'', BinlogGtid = ''x:1-7'', stat_UUID = []\<rparr>"
  "last (split_go (CHR ''/'') ''/db/c1/switch/2/b:3306'') = ''b:3306''"
  "split_go (CHR '':'') ''b:3306'' = [''b'', ''3306'']"
  "fst (parseInt64 ''2'') = 2" "fst (parseInt64 ''3'') = 3" "parseInt64 ''3306'' = (3306, True)" "wrap64 2 = 2"
  by code_simp+

lemma rv_names:
  "split_go (CHR ''.'') ''bin.000012'' = [''bin'', ''000012'']" "split_go (CHR 0x22) ''000012'' = [''000012'']" "parseInt64 ''000012'' = (12, True)"
  "binlog_name ''bin'' 12 = [''bin.000012'']"
  by code_simp+

lemma rv_status: "master_position (reply_rows
    (SqlReply None [''File'', ''Position'', ''Binlog_Do_DB'', ''Binlog_Ignore_DB''] [[Some ''bin.000012'', Some ''900'', None, None]] None 1)) = Inr ''bin.000012''"
  by code_simp

lemma get_Ret: "n_script w = Rpc id RpcOK d1 d2 # s \<Longrightarrow> k \<noteq> [] \<Longrightarrow> get_or_exit k b w =
    Ret (if b then etcd_range_prefix (n_etcd w) k else etcd_range (n_etcd w) k) (w\<lparr>n_script := s, n_clock := n_clock w + int d1 + int d2\<rparr>)"
  by (simp add: get_or_exit_def tool_Get_def rpc_call_def range_req_def Let_def andthen_def)

lemma rv_etcd_run:
  assumes "n_etcd w = rv_etcd" and "n_script w = [Rpc id RpcOK 1 1, Rpc id RpcOK 1 1, Rpc id RpcOK 1 1]" and "t_dial w = [None]"
  shows "GetEtcdSwitchInfo rv_cfg w = Ret (Inr rv_info) (w\<lparr>t_dial := [], n_script := [], n_clock := n_clock w + 6\<rparr>)"
proof -
  let ?k1 = "rec_root rv_cfg @ ''/election/master/term''" and ?k2 = "rec_root rv_cfg @ ''/election/terms/'' @ r_EtcdHostPort rv_cfg"
  let ?k3 = "rec_root rv_cfg @ ''/switch/'' @ ''2''"
  obtain c where c: "etcd_range rv_etcd ?k1 = [c]" "kv_value c = ''3''" using rv_etcd_facts(1) by (auto simp only: map_eq_Cons_conv map_is_Nil_conv)
  obtain r where r: "etcd_range rv_etcd ?k2 = [r]" "kv_value r = ''2''" using rv_etcd_facts(2) by (auto simp only: map_eq_Cons_conv map_is_Nil_conv)
  obtain x where x: "etcd_range_prefix rv_etcd ?k3 = [x]" "(kv_key x, kv_value x) = (''/db/c1/switch/2/b:3306'', rv_stat)"
    using rv_etcd_facts(3) by (auto simp only: map_eq_Cons_conv map_is_Nil_conv)
  have k: "?k1 \<noteq> []" "?k2 \<noteq> []" "?k3 \<noteq> []" by simp_all
  have i: "info_of x w' = Ret (Inr rv_info) w'" for w'
    using x(2) rv_etcd_facts(4,5,6) by (simp add: info_of_def Let_def rv_info_def del: split_go.simps)
  show ?thesis
    unfolding GetEtcdSwitchInfo_def andthen_def initEtcdClient_def
    using assms by (simp add: get_Ret [OF _ k(1)] get_Ret [OF _ k(2)] get_Ret [OF _ k(3)] c r x(1) i rv_etcd_facts(7,8,10) del: append_Cons append_assoc)
qed

lemma rv_list: "t_sql w = SqlReply None [''File'', ''Position'', ''Binlog_Do_DB'', ''Binlog_Ignore_DB''] [[Some ''bin.000012'', Some ''900'', None, None]] None 1 # rest \<Longrightarrow>
    \<exists>w'. getBinlogList rv_cfg ''bin.000012'' w = Ret (Inr [''bin.000012'']) w' \<and> t_sql w' = rest \<and> t_cmds w' = t_cmds w \<and> v_files w' = v_files w \<and>
      v_faults w' = v_faults w \<and> v_effects w' = v_effects w"
  unfolding getBinlogList_def rv_names list.case prod.case
  by (simp add: await_status.simps [of 10] rec_GetMasterStatus_def tool_Query_def rv_status [simplified] rv_names binlog_names_def andthen_def
    del: split_go.simps)

lemma rv_undo:
  assumes "t_cmds w = [Inr [], Inr [], Inr []]" and "v_files w ''/data/bin.000012'' = Some c" and "v_faults w = []" and "v_effects w = []" and "t_sql w \<noteq> []"
  shows "reset_sent (final_world (undo_and_reset encode cfg port ''/bk/'' mp ''/data/'' [''bin.000012''] w))"
  using assms
  by (auto simp: undo_and_reset_def linuxSystemCommand_def tool_run_def copyFile_def rc_Open_def rc_OpenFile_def fault_def put_file_def dbSet_def
    tool_Query_def reset_entry_def andthen_def write_padder_def neq_Nil_conv split: list.splits)

lemma rv_run: "reset_sent (final_world (recovery_main (\<lambda>_. Inr rv_cfg) encode False ''3306'' ''/bk/'' rv_w))"
proof -
  let ?w = "rv_w\<lparr>t_cmds := [Inr [], Inr [], Inr [], Inr []], t_trace := [Ran [''/bin/bash'', ''-c'', ''docker ps | grep c1|wc -l''] (Inr ''0'')]\<rparr>"
  let ?db = "createNewMasterDB ''u'' ''p'' ''b'' 3306" and ?x = "SqlReply None [''@@datadir''] [[Some ''/data/'']] None 1"
  let ?w1 = "?w\<lparr>t_dial := [], n_script := [], n_clock := n_clock ?w + 6\<rparr>"
  have c: "linuxSystemCommand (''docker ps | grep '' @ r_EtcdCluster rv_cfg @ ''|wc -l'') rv_w = Ret (''0'', None) ?w"
    by (simp add: linuxSystemCommand_def tool_run_def rv_w_def rv_cfg_def andthen_def)
  have i: "GetEtcdSwitchInfo rv_cfg ?w = Ret (Inr rv_info) ?w1" by (rule rv_etcd_run) (simp_all add: rv_w_def)
  define w2 where "w2 = ?w1\<lparr>t_sql := tl (t_sql rv_w), t_trace := t_trace ?w1 @ [Queried ?db ''SELECT @@datadir;'' ?x], n_clock := n_clock ?w1 + 1\<rparr>"
  have d: "getServerDataDir ?db ?w1 = Ret (Inr ''/data/'') w2"
    by (simp add: getServerDataDir_def tool_Query_def w2_def rv_w_def reply_rows_def scanned_string_def andthen_def)
  define w3 where "w3 = w2\<lparr>v_files := (v_files w2)(recoveryComposeFile := Some [])\<rparr>"
  have f: "CreateRecoveryDockerConf (''/etc/'' @ ''3306'' @ ''_docker-compose.yml'') recoveryComposeFile ''3306'' w2 =
      Ret (Some (EMsg ''sourceComposeFile  not Existed'')) w3"
    by (simp add: CreateRecoveryDockerConf_def rc_Stat_def rc_Create_def fault_def put_file_def w3_def w2_def rv_w_def recoveryComposeFile_def andthen_def)
  define w4 where "w4 = w3\<lparr>t_cmds := [Inr [], Inr [], Inr []],
    t_trace := t_trace w3 @ [Ran [''/bin/bash'', ''-c'', ''docker-compose -f '' @ recoveryComposeFile @ '' up -d''] (Inr [])]\<rparr>"
  have u: "linuxSystemCommand (''docker-compose -f '' @ recoveryComposeFile @ '' up -d'') w3 = Ret ([], None) w4"
    by (simp add: linuxSystemCommand_def tool_run_def w4_def w3_def w2_def rv_w_def andthen_def)
  obtain w5 where w5: "getBinlogList rv_cfg ''bin.000012'' w4 = Ret (Inr [''bin.000012'']) w5" "t_sql w5 \<noteq> []" "t_cmds w5 = t_cmds w4"
    "v_files w5 = v_files w4" "v_faults w5 = v_faults w4" "v_effects w5 = v_effects w4"
    using rv_list [of w4 "drop 2 (t_sql rv_w)"] by (auto simp: w4_def w3_def w2_def rv_w_def)
  have "reset_sent (final_world (undo_and_reset encode rv_cfg ''3306'' ''/bk/'' rv_info ''/data/'' [''bin.000012''] w5))"
    by (rule rv_undo) (use w5 in \<open>simp_all add: w4_def w3_def w2_def rv_w_def recoveryComposeFile_def\<close>)
  moreover have "r_MysqlUser (r_Db rv_cfg) = ''u''" "r_MysqlPwd (r_Db rv_cfg) = ''p''" "MohaNewMasterIp rv_info = ''b''" "MohaSwitchFile rv_info = ''bin.000012''"
    by (simp_all add: rv_cfg_def rv_info_def)
  ultimately show ?thesis
    by (simp add: recovery_main_def recover_def andthen_def rv_etcd_facts(9) [simplified] c [simplified] i d [simplified] f [simplified] u [simplified] w5(1) newline_def)
qed


section \<open>Where the tool falls short\<close>

text \<open>A binary log whose number has more than six digits is left out, with a message.\<close>

lemma long_number_left_out: "1000000 \<le> i \<Longrightarrow> binlog_name pre i = []"
  by (simp add: binlog_name_eq)

text \<open>
  The names of the undo files but the first are misspelt, so that the files written for them are not applied; and they are applied
  in the order in which the logs were written.
\<close>

lemma flashback_rest_names: "flashback_rest D d is w = Ret fs w' \<Longrightarrow> fs = map (\<lambda>i. d @ i @ ''.falshback'') is"
  by (induction "is" arbitrary: w fs) (auto elim!: andthen_RetE)

lemma flashback_names: "flashback D d pos (i # is) w = Ret fs w' \<Longrightarrow> fs = (d @ i @ ''.flashback'') # map (\<lambda>i. d @ i @ ''.falshback'') is"
  by (auto elim!: andthen_RetE dest: flashback_rest_names)

text \<open>A backup over a longer file keeps the end of that file.\<close>

lemma copy_keeps_tail: "copyFile s d w = Ret True w' \<Longrightarrow> v_files w s = Some c \<Longrightarrow> v_files w d = Some old \<Longrightarrow>
    v_files w' d = Some (c @ drop (length c) old)"
  using copyFile_Ret [of s d w w'] by (simp add: contents_def)

text \<open>Without the term in etcd the tool panics before it comes to its check for it.\<close>

lemma missing_term_panics:
  assumes "initEtcdClient w = Ret None w1" and "get_or_exit (rec_root cfg @ ''/election/master/term'') False w1 = Ret [] w2"
  shows "GetEtcdSwitchInfo cfg w = Panic w2"
  by (simp add: GetEtcdSwitchInfo_def andthen_def assms)

end
