(* ===== verification/Moctl_Conf.thy ===== *)
theory Moctl_Conf
  imports Tool_Files Agent_Config
begin

text \<open>
  The tool that writes the three configuration files of a node, \<open>src/moctl/conf.go\<close>: that of MySQL, that of the agent and the compose file of
  the container. The encoders of the libraries are parameters: they turn the data the tool puts together into text.
\<close>

section \<open>Data\<close>

record MysqlConf =
  mc_HostAddress :: string
  mc_Port :: string
  mc_InstanceName :: string
  mc_BufferPool :: string
  mc_SQLMode :: string
  mc_DataDir :: string

record AgentConf =
  ac_HostAddress :: string
  ac_Port :: string
  ac_InstanceName :: string
  ac_ProxyName :: string
  ac_EtcdURL :: string
  ac_EtcdUser :: string
  ac_EtcdPasswd :: string
  ac_AgentUser :: string
  ac_AgentPasswd :: string
  ac_MysqlReplUser :: string
  ac_MysqlReplPasswd :: string
  ac_DataDir :: string

record DockerConf =
  dk_Port :: string
  dk_InstanceName :: string
  dk_Version :: string
  dk_DataDir :: string
  dk_AgentUser :: string
  dk_AgentPasswd :: string
  dk_MysqlReplUser :: string
  dk_MysqlReplPasswd :: string
  dk_MysqlRootPasswd :: string

record conf_input =
  ci_MysqlConf :: MysqlConf
  ci_DockerConf :: DockerConf
  ci_AgentConf :: AgentConf
  ci_configFile :: string

record Environment =
  MySQLDatabase :: string
  MysqlPasswd :: string
  MysqlReplPasswd :: string
  MysqlReplUser :: string
  MysqlRootPasswd :: string
  MysqlUser :: string
  MysqlSocket :: string

record ServicesName =
  Image :: string
  NetworkMode :: string
  EntryPoint :: string
  Volumes :: "string list"
  sv_ContainerName :: string
  sv_Environment :: Environment

record CreateDockerCfg =
  ComposeVersion :: string
  Services :: "(string \<times> ServicesName) list"

text \<open>The fields of the configuration of an agent that the tool writes.\<close>

record agent_file =
  af_ClusterName :: string
  af_LeaderLeaseTTL :: int
  af_ShutdownThreshold :: int
  af_DataDir :: string
  af_ListenAddr :: string
  af_EtcdURLs :: string
  af_RegisterTTL :: int
  af_EtcdRootPath :: string
  af_EtcdUsername :: string
  af_EtcdPassword :: string
  af_LogLevel :: string
  af_LogFile :: string
  af_LogMaxSize :: int
  af_LogMaxDays :: int
  af_LogCompress :: bool
  af_DBConfig :: db_config
  af_InternalServiceHost :: string
  af_ExternalServiceHost :: string
  af_ForkProcessFile :: string
  af_ForkProcessArgs :: "string list"
  af_ForkProcessWaitSecond :: int

text \<open>The parameters of MySQL, by their names in the file and in its order.\<close>

datatype toml_value = TInt int | TStr string

type_synonym MySQLPara = "(string \<times> toml_value) list"

definition MySQLPara_keys :: "string list" where
  "MySQLPara_keys =
     [
      ''user'', ''sql_mode'', ''autocommit'', ''init_connect'', ''character_set_server'', ''collation-server'', ''event_scheduler'',
      ''max_allowed_packet'', ''lower_case_table_names'', ''bind-address'', ''report_host'', ''server-id'', ''port'', ''socket'', ''pid-file'',
      ''datadir'', ''skip-symbolic-links'', ''show_compatibility_56'', ''explicit_defaults_for_timestamp'', ''default-storage-engine'',
      ''transaction_isolation'', ''read_only'', ''skip-name-resolve'', ''wait_timeout'', ''interactive_timeout'', ''lock_wait_timeout'',
      ''max_connect_errors'', ''max_connections'', ''binlog_format'', ''binlog_gtid_simple_recovery'', ''binlog_rows_query_log_events'',
      ''expire_logs_days'', ''binlog_row_image'', ''max_binlog_size'', ''back_log'', ''general_log_file'', ''log-bin'', ''log-error'',
      ''log_queries_not_using_indexes'', ''log_slave_updates'', ''log_slow_admin_statements'', ''log_slow_slave_statements'',
      ''log_throttle_queries_not_using_indexes'', ''log_timestamps'', ''long_query_time'', ''master_info_repository'', ''relay_log_info_repository'',
      ''relay_log_recovery'', ''relay-log'', ''slow_query_log'', ''slow_query_log_file'', ''sync_binlog'', ''secure_file_priv'',
      ''enforce-gtid-consistency'', ''join_buffer_size'', ''key_buffer_size'', ''min_examined_row_limit'', ''read_buffer_size'',
      ''read_rnd_buffer_size'', ''sort_buffer_size'', ''table_definition_cache'', ''table_open_cache'', ''table_open_cache_instances'',
      ''thread_cache_size'', ''tmp_table_size'', ''gtid_mode'', ''skip-slave-start'', ''slave-parallel-type'', ''slave-parallel-workers'',
      ''slave_preserve_commit_order'', ''slave-rows-search-algorithms'', ''slave_transaction_retries'', ''innodb_autoinc_lock_mode'',
      ''innodb_data_file_path'', ''innodb_data_home_dir'', ''innodb_log_group_home_dir'', ''innodb_buffer_pool_size'',
      ''innodb_buffer_pool_dump_at_shutdown'', ''innodb_buffer_pool_dump_pct'', ''innodb_buffer_pool_instances'',
      ''innodb_buffer_pool_load_at_startup'', ''innodb_file_per_table'', ''innodb_flush_log_at_trx_commit'', ''innodb_flush_method'',
      ''innodb_flush_neighbors'', ''innodb_io_capacity'', ''innodb_io_capacity_max'', ''innodb_large_prefix'', ''innodb_lock_wait_timeout'',
      ''innodb_log_buffer_size'', ''innodb_log_files_in_group'', ''innodb_log_file_size'', ''innodb_lru_scan_depth'', ''innodb_max_undo_log_size'',
      ''innodb_online_alter_log_max_size'', ''innodb_open_files'', ''innodb_page_cleaners'', ''innodb_page_size'', ''innodb_print_all_deadlocks'',
      ''innodb_purge_rseg_truncate_frequency'', ''innodb_purge_threads'', ''innodb_read_io_threads'', ''innodb_sort_buffer_size'',
      ''innodb_stats_persistent_sample_pages'', ''innodb_strict_mode'', ''innodb_thread_concurrency'', ''innodb_undo_logs'',
      ''innodb_undo_log_truncate'', ''innodb_undo_tablespaces'', ''innodb_write_io_threads''
     ]"

section \<open>The command line\<close>

definition conf_names :: "(string \<times> unit) list" where
  "conf_names = [(''config'', ())]"

definition conf_kind :: "unit \<Rightarrow> flag_kind" where
  "conf_kind u = StringFlag"

definition put_conf_flag :: "unit \<Rightarrow> flag_value \<Rightarrow> conf_input \<Rightarrow> conf_input" where
  "put_conf_flag u x c = (case x of StringValue s \<Rightarrow> c\<lparr>ci_configFile := s\<rparr> | _ \<Rightarrow> c)"

definition get_conf_flag :: "unit \<Rightarrow> conf_input \<Rightarrow> flag_value" where
  "get_conf_flag u c = StringValue (ci_configFile c)"

interpretation conf_fields: flag_fields conf_names conf_kind put_conf_flag get_conf_flag "()" ci_configFile
  by unfold_locales (auto simp: conf_kind_def put_conf_flag_def get_conf_flag_def split: flag_value.splits)

definition conf_NewConfig :: conf_input where
  "conf_NewConfig =
     \<lparr>ci_MysqlConf = \<lparr>mc_HostAddress = [], mc_Port = [], mc_InstanceName = [], mc_BufferPool = [], mc_SQLMode = [], mc_DataDir = []\<rparr>,
      ci_DockerConf = \<lparr>dk_Port = [], dk_InstanceName = [], dk_Version = [], dk_DataDir = [], dk_AgentUser = [], dk_AgentPasswd = [],
        dk_MysqlReplUser = [], dk_MysqlReplPasswd = [], dk_MysqlRootPasswd = []\<rparr>,
      ci_AgentConf = \<lparr>ac_HostAddress = [], ac_Port = [], ac_InstanceName = [], ac_ProxyName = [], ac_EtcdURL = [], ac_EtcdUser = [],
        ac_EtcdPasswd = [], ac_AgentUser = [], ac_AgentPasswd = [], ac_MysqlReplUser = [], ac_MysqlReplPasswd = [], ac_DataDir = []\<rparr>,
      ci_configFile = []\<rparr>"

definition configFromFile :: "(string \<Rightarrow> conf_input \<Rightarrow> error option \<times> conf_input) \<Rightarrow> string \<Rightarrow> conf_input \<Rightarrow> conf_input rc_io" where
  "configFromFile decode path cfg = (case decode path cfg of (Some e, _) \<Rightarrow> os_Exit 2 | (None, c) \<Rightarrow> ret c)"

definition conf_Parse :: "(string \<Rightarrow> conf_input \<Rightarrow> error option \<times> conf_input) \<Rightarrow> string list \<Rightarrow> conf_input \<Rightarrow> conf_input rc_io" where
  "conf_Parse decode arguments cfg =
     (case parse_flags conf_names conf_kind put_conf_flag arguments cfg of
        (FlagsHelp, _, _) \<Rightarrow> os_Exit 0
      | (FlagsBad, _, _) \<Rightarrow> os_Exit 2
      | (FlagsOk, _, c) \<Rightarrow> if ci_configFile c \<noteq> [] then configFromFile decode (ci_configFile c) c else ret c)"

section \<open>The compose file\<close>

definition compose_file :: "string \<Rightarrow> string" where
  "compose_file port = ''/etc/'' @ port @ ''_docker-compose.yml''"

definition mysql_file :: "string \<Rightarrow> string" where
  "mysql_file port = ''/etc/my_'' @ port @ ''.cnf''"

definition agent_file_name :: "string \<Rightarrow> string" where
  "agent_file_name port = ''/etc/'' @ port @ ''_config.toml''"

definition compose_cfg :: "DockerConf \<Rightarrow> CreateDockerCfg" where
  "compose_cfg d =
     (let port = dk_Port d; dir = dk_DataDir d; name = port @ ''_'' @ dk_InstanceName d in
      \<lparr>ComposeVersion = ''3.3'',
       Services = [(name,
         \<lparr>Image = ''moiot/moha:'' @ dk_Version d, NetworkMode = ''host'', EntryPoint = ''/agent/supervise'',
          Volumes =
            [dir @ name @ '':/var/lib/mysql:rw'',
             ''/etc/'' @ port @ ''_config.toml:/agent/config.toml'',
             dir @ port @ ''_agentlog:/agent/log:rw'',
             ''/etc/my_'' @ port @ ''.cnf:/etc/my_'' @ port @ ''.cnf'',
             ''/tmp:/tmp'',
             dir @ '':'' @ dir,
             ''/etc/localtime:/etc/localtime:ro''],
          sv_ContainerName = name,
          sv_Environment = \<lparr>MySQLDatabase = dk_InstanceName d, MysqlPasswd = dk_AgentPasswd d, MysqlReplPasswd = dk_MysqlReplPasswd d,
            MysqlReplUser = dk_MysqlReplUser d, MysqlRootPasswd = dk_MysqlRootPasswd d, MysqlUser = dk_AgentUser d,
            MysqlSocket = ''/tmp/mysql_'' @ port @ ''.sock''\<rparr>\<rparr>)]\<rparr>)"

text \<open>Opening with \<open>O_TRUNC\<close>, whose error is a panic.\<close>

definition open_truncated :: "string \<Rightarrow> unit rc_io" where
  "open_truncated f = andthen fault (\<lambda>e. if e \<noteq> None then go_panic else put_file f [])"

definition CreateComposeConf :: "(CreateDockerCfg \<Rightarrow> error + string) \<Rightarrow> conf_input \<Rightarrow> error option rc_io" where
  "CreateComposeConf marshal cfg =
     (let d = ci_DockerConf cfg; filename = compose_file (dk_Port d) in
      andthen (open_truncated filename) (\<lambda>_.
      case marshal (compose_cfg d) of
        Inl e \<Rightarrow> ret (Some e)
      | Inr composeinfo \<Rightarrow>
          andthen fault (\<lambda>e. if e \<noteq> None then ret e else andthen (put_file filename composeinfo) (\<lambda>_. ret None))))"

section \<open>The configuration of the agent\<close>

definition agent_cfg :: "AgentConf \<Rightarrow> agent_file" where
  "agent_cfg a =
     (let port = ac_Port a; host = ac_HostAddress a @ '':'' @ port in
      \<lparr>af_ClusterName = port @ ''_'' @ ac_InstanceName a, af_LeaderLeaseTTL = 30, af_ShutdownThreshold = 5,
       af_DataDir = ''/tmp/'' @ port @ ''_'' @ ac_InstanceName a, af_ListenAddr = ''http://127.0.0.1:1'' @ port, af_EtcdURLs = ac_EtcdURL a,
       af_RegisterTTL = 10, af_EtcdRootPath = ''/dbproxy/'' @ ac_ProxyName a @ ''/ks_cfg/nodes/'', af_EtcdUsername = ac_EtcdUser a,
       af_EtcdPassword = ac_EtcdPasswd a, af_LogLevel = ''info'', af_LogFile = ''/agent/log/mysql-agent.log'', af_LogMaxSize = 30,
       af_LogMaxDays = 5, af_LogCompress = True,
       af_DBConfig = \<lparr>db_Host = ac_HostAddress a, db_User = ac_AgentUser a, db_Password = ac_AgentPasswd a, db_Port = fst (parseInt64 port),
         db_Timeout = ''1s'', db_ReplicationUser = ac_MysqlReplUser a, db_ReplicationPassword = ac_MysqlReplPasswd a, db_ReplicationNet = ''%''\<rparr>,
       af_InternalServiceHost = host, af_ExternalServiceHost = host, af_ForkProcessFile = ''/usr/local/bin/docker-entrypoint.sh'',
       af_ForkProcessArgs = [''docker-entrypoint.sh'', ''mysqld'', ''--defaults-file=/etc/my_'' @ port @ ''.cnf''],
       af_ForkProcessWaitSecond = 60\<rparr>)"

definition CreateAgentConf :: "(agent_file \<Rightarrow> string) \<Rightarrow> conf_input \<Rightarrow> error option rc_io" where
  "CreateAgentConf encode cfg =
     (let a = ci_AgentConf cfg; agentfile = agent_file_name (ac_Port a) in
      andthen (open_truncated agentfile) (\<lambda>_.
      andthen (put_file agentfile (encode (agent_cfg a))) (\<lambda>_. ret None)))"

section \<open>The configuration of MySQL\<close>

definition server_id :: "string \<Rightarrow> string \<Rightarrow> string \<Rightarrow> string" where
  "server_id c d port = (if c = ''0'' then ''1'' @ d @ port else c @ d @ port)"

definition MySQLPara_of :: "string \<Rightarrow> string \<Rightarrow> int \<Rightarrow> int \<Rightarrow> string \<Rightarrow> string \<Rightarrow> string \<Rightarrow> string \<Rightarrow> MySQLPara" where
  "MySQLPara_of sqlMode bindAddress serverID port socket pidFile datadir bufferSize =
     [
      (''user'', TStr ''mysql''), (''sql_mode'', TStr sqlMode), (''autocommit'', TInt 1), (''init_connect'', TStr ''SET NAMES utf8mb4''),
      (''character_set_server'', TStr ''utf8mb4''), (''collation-server'', TStr ''utf8mb4_unicode_ci''), (''event_scheduler'', TInt 1),
      (''max_allowed_packet'', TStr ''128M''), (''lower_case_table_names'', TInt 1), (''bind-address'', TStr bindAddress),
      (''report_host'', TStr bindAddress), (''server-id'', TInt serverID), (''port'', TInt port), (''socket'', TStr socket),
      (''pid-file'', TStr pidFile), (''datadir'', TStr datadir), (''skip-symbolic-links'', TInt 1), (''show_compatibility_56'', TInt 1),
      (''explicit_defaults_for_timestamp'', TInt 0), (''default-storage-engine'', TStr ''InnoDB''),
      (''transaction_isolation'', TStr ''READ-COMMITTED''), (''read_only'', TInt 1), (''skip-name-resolve'', TInt 1), (''wait_timeout'', TInt 7200),
      (''interactive_timeout'', TInt 7200), (''lock_wait_timeout'', TInt 1800), (''max_connect_errors'', TInt 1000000),
      (''max_connections'', TInt 10000), (''binlog_format'', TStr ''row''), (''binlog_gtid_simple_recovery'', TInt 1),
      (''binlog_rows_query_log_events'', TInt 1), (''expire_logs_days'', TInt 7), (''binlog_row_image'', TStr ''full''),
      (''max_binlog_size'', TStr ''256M''), (''back_log'', TInt 900), (''general_log_file'', TStr ''mysql.log''), (''log-bin'', TStr ''mysql-bin''),
      (''log-error'', TStr ''error.log''), (''log_queries_not_using_indexes'', TInt 0), (''log_slave_updates'', TInt 1),
      (''log_slow_admin_statements'', TInt 1), (''log_slow_slave_statements'', TInt 1), (''log_throttle_queries_not_using_indexes'', TInt 10),
      (''log_timestamps'', TStr ''system''), (''long_query_time'', TInt 1), (''master_info_repository'', TStr ''TABLE''),
      (''relay_log_info_repository'', TStr ''TABLE''), (''relay_log_recovery'', TInt 1), (''relay-log'', TStr ''relay-log''),
      (''slow_query_log'', TInt 1), (''slow_query_log_file'', TStr ''slow.log''), (''sync_binlog'', TInt 1),
      (''secure_file_priv'', TStr ''/data1/mysql''), (''enforce-gtid-consistency'', TInt 1), (''join_buffer_size'', TStr ''128M''),
      (''key_buffer_size'', TStr ''256M''), (''min_examined_row_limit'', TInt 100), (''read_buffer_size'', TStr ''16M''),
      (''read_rnd_buffer_size'', TStr ''32M''), (''sort_buffer_size'', TStr ''32M''), (''table_definition_cache'', TInt 4096),
      (''table_open_cache'', TInt 4096), (''table_open_cache_instances'', TInt 64), (''thread_cache_size'', TInt 64),
      (''tmp_table_size'', TStr ''64M''), (''gtid_mode'', TStr ''on''), (''skip-slave-start'', TInt 1),
      (''slave-parallel-type'', TStr ''LOGICAL_CLOCK''), (''slave-parallel-workers'', TInt 16), (''slave_preserve_commit_order'', TInt 1),
      (''slave-rows-search-algorithms'', TStr ''INDEX_SCAN,HASH_SCAN''), (''slave_transaction_retries'', TInt 128),
      (''innodb_autoinc_lock_mode'', TInt 2), (''innodb_data_file_path'', TStr ''ibdata1:256M:autoextend''),
      (''innodb_data_home_dir'', TStr datadir), (''innodb_log_group_home_dir'', TStr datadir), (''innodb_buffer_pool_size'', TStr bufferSize),
      (''innodb_buffer_pool_dump_at_shutdown'', TInt 1), (''innodb_buffer_pool_dump_pct'', TInt 40), (''innodb_buffer_pool_instances'', TInt 8),
      (''innodb_buffer_pool_load_at_startup'', TInt 1), (''innodb_file_per_table'', TInt 1), (''innodb_flush_log_at_trx_commit'', TInt 1),
      (''innodb_flush_method'', TStr ''O_DIRECT''), (''innodb_flush_neighbors'', TInt 0), (''innodb_io_capacity'', TInt 10000),
      (''innodb_io_capacity_max'', TInt 20000), (''innodb_large_prefix'', TInt 1), (''innodb_lock_wait_timeout'', TInt 10),
      (''innodb_log_buffer_size'', TStr ''16M''), (''innodb_log_files_in_group'', TInt 2), (''innodb_log_file_size'', TStr ''256M''),
      (''innodb_lru_scan_depth'', TInt 4096), (''innodb_max_undo_log_size'', TStr ''256M''), (''innodb_online_alter_log_max_size'', TStr ''4G''),
      (''innodb_open_files'', TInt 10000), (''innodb_page_cleaners'', TInt 16), (''innodb_page_size'', TInt 16384),
      (''innodb_print_all_deadlocks'', TInt 1), (''innodb_purge_rseg_truncate_frequency'', TInt 128), (''innodb_purge_threads'', TInt 4),
      (''innodb_read_io_threads'', TInt 16), (''innodb_sort_buffer_size'', TStr ''64M''), (''innodb_stats_persistent_sample_pages'', TInt 64),
      (''innodb_strict_mode'', TInt 1), (''innodb_thread_concurrency'', TInt 64), (''innodb_undo_logs'', TInt 128),
      (''innodb_undo_log_truncate'', TInt 1), (''innodb_undo_tablespaces'', TInt 3), (''innodb_write_io_threads'', TInt 16)
     ]"

lemma MySQLPara_of_keys: "map fst (MySQLPara_of sqlMode bindAddress serverID port socket pidFile datadir bufferSize) = MySQLPara_keys"
  by (simp add: MySQLPara_of_def MySQLPara_keys_def)

text \<open>The database of a new node starts closed, with GTIDs, and does not follow anyone by itself.\<close>

lemma MySQLPara_closed:
  "map_of (MySQLPara_of sqlMode bindAddress serverID port socket pidFile datadir bufferSize) ''read_only'' = Some (TInt 1)"
  "map_of (MySQLPara_of sqlMode bindAddress serverID port socket pidFile datadir bufferSize) ''gtid_mode'' = Some (TStr ''on'')"
  "map_of (MySQLPara_of sqlMode bindAddress serverID port socket pidFile datadir bufferSize) ''skip-slave-start'' = Some (TInt 1)"
  by (simp_all add: MySQLPara_of_def)

definition CreateMySQLConf :: "(MySQLPara \<Rightarrow> string) \<Rightarrow> conf_input \<Rightarrow> error option rc_io" where
  "CreateMySQLConf encode cfg =
     (let m = ci_MysqlConf cfg; port = mc_Port m in
      case split_go (CHR ''.'') (mc_HostAddress m) of
        [_, _, c, d] \<Rightarrow>
          (case parseInt64 (server_id c d port) of (serverID, ok) \<Rightarrow>
             if \<not> ok then os_Exit 2
             else
               andthen (open_truncated (mysql_file port)) (\<lambda>_.
               andthen (put_file (mysql_file port) (encode (MySQLPara_of (mc_SQLMode m) (mc_HostAddress m) serverID (fst (parseInt64 port))
                 (''/tmp/mysql_'' @ port @ ''.sock'') (''mysql_'' @ port @ ''.pid'') (mc_DataDir m @ port @ ''_'' @ mc_InstanceName m @ ''/'')
                 (mc_BufferPool m)))) (\<lambda>_. ret None)))
      | _ \<Rightarrow> os_Exit 2)"

section \<open>The tool\<close>

text \<open>An error other than that the file is missing counts as a missing file; the caller drops it.\<close>

definition PathExists :: "string \<Rightarrow> bool rc_io" where
  "PathExists path = rc_Stat path"

definition or_exit :: "error option rc_io \<Rightarrow> unit rc_io" where
  "or_exit m = andthen m (\<lambda>err. if err \<noteq> None then os_Exit 2 else ret ())"

definition conf_main ::
  "(string \<Rightarrow> conf_input \<Rightarrow> error option \<times> conf_input) \<Rightarrow> (MySQLPara \<Rightarrow> string) \<Rightarrow> (agent_file \<Rightarrow> string) \<Rightarrow> (CreateDockerCfg \<Rightarrow> error + string) \<Rightarrow>
    string list \<Rightarrow> unit rc_io" where
  "conf_main decode encode_mysql encode_agent marshal args =
     andthen (conf_Parse decode args conf_NewConfig) (\<lambda>cfg.
     andthen (PathExists (mysql_file (mc_Port (ci_MysqlConf cfg)))) (\<lambda>fileMySQL.
     andthen (PathExists (agent_file_name (ac_Port (ci_AgentConf cfg)))) (\<lambda>fileAgent.
     andthen (PathExists (compose_file (dk_Port (ci_DockerConf cfg)))) (\<lambda>fileCompose.
     if fileMySQL \<or> fileAgent \<or> fileCompose then os_Exit 2
     else
       andthen (or_exit (CreateMySQLConf encode_mysql cfg)) (\<lambda>_.
       andthen (or_exit (CreateAgentConf encode_agent cfg)) (\<lambda>_.
       or_exit (CreateComposeConf marshal cfg)))))))"

section \<open>Existing files\<close>

abbreviation spares :: "string \<Rightarrow> string \<Rightarrow> 'a rc_io \<Rightarrow> bool" where
  "spares f c m \<equiv> keeps (\<lambda>w. v_files w f = Some c) m"

lemma spares_base: "spares f c fault" "g \<noteq> f \<Longrightarrow> spares f c (put_file g x)"
  by (auto simp: keeps_def fault_def put_file_def split: list.splits)

lemmas spares_rules = keeps_andthen keeps_ret keeps_os_Exit keeps_go_panic spares_base

lemma spares_create:
  "mysql_file (mc_Port (ci_MysqlConf cfg)) \<noteq> f \<Longrightarrow> spares f c (CreateMySQLConf em cfg)"
  "agent_file_name (ac_Port (ci_AgentConf cfg)) \<noteq> f \<Longrightarrow> spares f c (CreateAgentConf ea cfg)"
  "compose_file (dk_Port (ci_DockerConf cfg)) \<noteq> f \<Longrightarrow> spares f c (CreateComposeConf ms cfg)"
  unfolding CreateMySQLConf_def CreateAgentConf_def CreateComposeConf_def open_truncated_def Let_def
  by (auto intro!: spares_rules split: list.split prod.split sum.split)

lemma stat_Ret: "\<forall>e \<in> set (take (Suc n) (v_faults w)). e = None \<Longrightarrow> PathExists f w = Ret b w' \<Longrightarrow>
    b = (v_files w f \<noteq> None) \<and> v_files w' = v_files w \<and> (\<forall>e \<in> set (take n (v_faults w')). e = None)"
  by (cases "v_faults w") (auto simp: PathExists_def rc_Stat_def fault_def elim!: andthen_RetE)

lemma stat_total: "\<exists>b w'. PathExists f w = Ret b w'"
  by (cases "v_faults w") (auto simp: PathExists_def rc_Stat_def fault_def andthen_def)

lemma Parse_world: "(\<exists>cfg. conf_Parse decode args c w = Ret cfg w) \<or> (\<exists>n. conf_Parse decode args c w = Exit n w)"
  by (auto simp: conf_Parse_def configFromFile_def split: prod.splits flags_end.splits if_splits option.splits)


text \<open>A run on a fresh host.\<close>

definition cf_input :: conf_input where
  "cf_input = conf_NewConfig\<lparr>ci_MysqlConf := (ci_MysqlConf conf_NewConfig)\<lparr>mc_HostAddress := ''10.0.1.23'', mc_Port := ''3306''\<rparr>,
     ci_AgentConf := (ci_AgentConf conf_NewConfig)\<lparr>ac_HostAddress := ''10.0.1.23'', ac_Port := ''3306'', ac_InstanceName := ''db''\<rparr>,
     ci_DockerConf := (ci_DockerConf conf_NewConfig)\<lparr>dk_Port := ''3306'', dk_InstanceName := ''db''\<rparr>\<rparr>"

definition cf_w :: file_tool where
  "cf_w = \<lparr>n_etcd = empty_etcd, n_script = [], n_clock = 0, t_dial = [], t_sql = [], t_http = [], t_cmds = [], t_trace = [],
     v_files = [''/etc/hosts'' \<mapsto> ''localhost''], v_faults = [], v_effects = []\<rparr>"

lemma cf_parse: "conf_Parse (\<lambda>_ _. (None, cf_input)) [''-config=c.toml''] conf_NewConfig w = Ret cf_input w"
proof -
  have "parse_flags conf_names conf_kind put_conf_flag [''-config=c.toml''] conf_NewConfig = (FlagsOk, [], conf_NewConfig\<lparr>ci_configFile := ''c.toml''\<rparr>)"
    by code_simp
  then show ?thesis by (simp add: conf_Parse_def configFromFile_def)
qed

lemma conf_runs:
  assumes "conf_Parse decode args conf_NewConfig w = Ret cfg w" and "v_faults w = []"
    and "v_files w (mysql_file (mc_Port (ci_MysqlConf cfg))) = None" and "v_files w (agent_file_name (ac_Port (ci_AgentConf cfg))) = None"
    and "v_files w (compose_file (dk_Port (ci_DockerConf cfg))) = None"
    and "split_go (CHR ''.'') (mc_HostAddress (ci_MysqlConf cfg)) = [x, y, c, d]" and "parseInt64 (server_id c d (mc_Port (ci_MysqlConf cfg))) = (n, True)"
  shows "\<exists>w'. conf_main decode em ea (\<lambda>_. Inr s) args w = Ret () w'"
  using assms by (simp add: conf_main_def andthen_def PathExists_def rc_Stat_def fault_def or_exit_def CreateMySQLConf_def CreateAgentConf_def
    CreateComposeConf_def open_truncated_def put_file_def Let_def del: split_go.simps)

lemmas number_simps = server_id_def parseInt64_def digits_val_def digit_val_def all_digits_def is_digit_def Let_def

lemma cf_server_id: "parseInt64 (server_id ''1'' ''23'' ''3306'') = (1233306, True)"
  by (simp add: number_simps)

lemma cf_facts:
  "split_go (CHR ''.'') (mc_HostAddress (ci_MysqlConf cf_input)) = [''10'', ''0'', ''1'', ''23'']"
  "mc_Port (ci_MysqlConf cf_input) = ''3306''"
  "mysql_file (mc_Port (ci_MysqlConf cf_input)) = ''/etc/my_3306.cnf''" "agent_file_name (ac_Port (ci_AgentConf cf_input)) = ''/etc/3306_config.toml''"
  "compose_file (dk_Port (ci_DockerConf cf_input)) = ''/etc/3306_docker-compose.yml''"
  by code_simp+

lemma cf_run: "\<exists>w'. conf_main (\<lambda>_ _. (None, cf_input)) (\<lambda>_. []) (\<lambda>_. []) (\<lambda>_. Inr []) [''-config=c.toml''] cf_w = Ret () w'"
  by (rule conf_runs [OF cf_parse _ _ _ _ cf_facts(1)]) (simp_all add: cf_facts(2) cf_facts(3-) [unfolded cf_facts(2)] cf_w_def cf_server_id)


section \<open>Server ids\<close>

text \<open>
  The server id is the decimal text of two parts of the address and of the port, one after the other: two hosts may get the same one, and it may be more
  than the 32 bits of a server id hold.
\<close>

lemma same_server_id: "parseInt64 (server_id ''1'' ''23'' ''3306'') = parseInt64 (server_id ''12'' ''3'' ''3306'')"
  by (simp add: number_simps)

lemma server_id_too_large: "parseInt64 (server_id ''100'' ''100'' ''33060'') = (10010033060, True)" "2 ^ 32 \<le> (10010033060 :: int)"
  by (simp_all add: number_simps)

end
