(* ===== verification/Recovery_Switch.thy ===== *)
theory Recovery_Switch
  imports Agent_Master Moctl_Recovery Moctl_Conf
begin

text \<open>
  What a new master uploads when it is promoted (\<open>uploadPromotionBinlog\<close> in \<open>src/agent/server.go\<close>) is what the recovery tool
  (\<open>GetEtcdSwitchInfo\<close> in \<open>src/moctl/recovery.go\<close>) finds for the former master; and the configuration that \<open>src/moctl/conf.go\<close>
  writes is one with which the agent and the recovery tool look in the same place.
\<close>

lemma stat_names:
  "to_lower ''File'' = ''file''" "to_lower ''Pos'' = ''pos''" "to_lower ''GTID'' = ''gtid''" "to_lower ''UUID'' = ''uuid''"
  "to_lower ''EndTxnID'' = ''endtxnid''" "to_lower ''SlaveIORunning'' = ''slaveiorunning''" "to_lower ''SlaveSQLRunning'' = ''slavesqlrunning''"
  "to_lower ''SecondsBehindMaster'' = ''secondsbehindmaster''"
  by code_simp+

lemma stat_of_position: "fst (unmarshal upd_MysqlCurrentStat zero_MysqlCurrentStat (marshal_Position p)) =
    \<lparr>BinlogFile = pos_File p, BinlogPos = pos_Pos p, BinlogGtid = pos_GTID p, stat_UUID = pos_UUID p\<rparr>"
proof -
  have wf: "list_all (\<lambda>m. wf_json (snd m)) (members_Position p)" by (simp add: members_Position_def del: wf_json.simps(1))
  show ?thesis
    unfolding marshal_Position_def unmarshal_print [OF wf]
    by (simp add: members_Position_def unmarshal_members_def upd_MysqlCurrentStat_def stat_names dec_string_def zero_MysqlCurrentStat_def)
qed

lemma good_comp_digits: "good_comp (show_u64 t)"
proof -
  have "is_digit c" if "c \<in> set (show_u64 t)" for c
    using show_nat_digits [of "unat t"] that by (auto simp: show_u64_def all_digits_def list_all_iff)
  moreover have "\<not> is_digit (CHR ''/'')" "\<not> is_digit (CHR ''.'')" by code_simp+
  ultimately show ?thesis by (auto simp: good_comp_def show_u64_def)
qed

lemma switch_key:
  assumes "wf_env E"
  shows "fullPathOf E (switch_path E t) = (rootPath E @ ''/switch/'' @ show_u64 (t - 1)) @ CHR ''/'' # e_id E"
proof -
  have s: "good_rel ''switch''" by code_simp
  have g: "good_rel (show_u64 (t - 1))" "good_rel (e_id E)" using assms good_comp_digits good_rel_comp by (auto simp: wf_env_def)
  have "switch_path E t = ''switch'' @ CHR ''/'' # show_u64 (t - 1) @ CHR ''/'' # e_id E"
    unfolding switch_path_def join_def by (rule path_join_rel3 [OF s g])
  moreover have "good_rel (''switch'' @ CHR ''/'' # show_u64 (t - 1) @ CHR ''/'' # e_id E)" by (intro good_rel_append s g)
  ultimately show ?thesis
    using assms by (simp add: fullPathOf_def KeyWithRootPath_def keyWithPrefix_def wf_env_def path_join_root del: path_join.simps)
qed

lemma promotion_uploaded:
  assumes "uploadPromotionBinlog E w = Ret None w'"
  shows "\<exists>p w1. sm_LoadSlaveStatusFromDB (e_sm E) (a_latestPos w) w = Ret (Inr p) w1 \<and>
    etcd_value (n_etcd w') (fullPathOf E (switch_path E (a_term w'))) = Some (marshal_Position p)"
proof -
  from assms obtain p w1 where p: "sm_LoadSlaveStatusFromDB (e_sm E) (a_latestPos w) w = Ret (Inr p) w1"
    and u: "Client_Put (rootPath E) (a_ctxDone w1) (switch_path E (a_term w1)) (marshal_Position p) 0 w1 = Ret (Inr ()) w'"
    by (auto simp: uploadPromotionBinlog_def to_err_def elim!: andthen_RetE split: sum.splits)
  have "a_term w' = a_term w1" using u unfolding Client_Put_def by (auto dest!: net_only_rpc simp: net_only_fields)
  moreover have "etcd_value (n_etcd w') (fullPathOf E (switch_path E (a_term w1))) = Some (marshal_Position p)"
    using u unfolding Client_Put_def by (auto simp: etcd_put_def fullPathOf_def split: if_splits elim!: rpc_nil)
  ultimately show ?thesis using p by metis
qed

lemma show_term: "unat t < 2 ^ 63 \<Longrightarrow> fst (parseInt64 (show_u64 t)) = int (unat t)"
proof -
  assume "unat t < 2 ^ 63"
  then have "int (unat t) < int (2 ^ 63)" by (simp only: of_nat_less_iff)
  then have "parseInt64 (show_int (int (unat t))) = (int (unat t), True)"
    by (intro parseInt64_show) (simp_all only: of_nat_0_le_iff of_nat_power of_nat_numeral)
  moreover have "show_int (int (unat t)) = show_u64 t" by (simp only: show_int_def show_u64_def nat_int of_nat_less_0_iff if_False)
  ultimately show ?thesis by (simp only: fst_conv)
qed

lemma term_before: "t \<noteq> 0 \<Longrightarrow> unat t < 2 ^ 63 \<Longrightarrow> fst (parseInt64 (show_u64 (t - 1))) = wrap64 (fst (parseInt64 (show_u64 t)) - 1)" for t :: u64
proof -
  assume t: "t \<noteq> 0" "unat t < 2 ^ 63"
  then have pos: "0 < unat t" by (simp add: unat_gt_0)
  then have eq: "unat (t - 1) = unat t - 1" by (simp add: unat_sub_if' Suc_le_eq)
  have "unat (t - 1) < 2 ^ 63" using eq t(2) by linarith
  from show_term [OF this] have "fst (parseInt64 (show_u64 (t - 1))) = int (unat t - 1)" by (simp only: eq)
  moreover have "int (unat t - 1) = int (unat t) - 1" using pos by linarith
  moreover have "wrap64 (int (unat t) - 1) = int (unat t) - 1" 
  proof -
    from t(2) have "unat t < 9223372036854775808" by simp
    then have "int (unat t) < 9223372036854775808" by linarith
    then show ?thesis using pos by (intro wrap64_id [simplified]) linarith+
  qed
  ultimately show ?thesis using show_term [OF t(2)] by (simp only:)
qed

lemma last_component: "CHR ''/'' \<notin> set i \<Longrightarrow> last (split_go (CHR ''/'') (k @ CHR ''/'' # i)) = i"
  by (simp add: split_go_append split_no_sep)

lemma range_value: "etcd_value e k = Some v \<Longrightarrow> \<exists>x. etcd_range e k = [x] \<and> kv_value x = v"
  by (auto simp: etcd_value_def etcd_range_def)

lemma last_of_prefix:
  assumes "wf_etcd e" and "etcd_value e k = Some v" and "prefix p k" and "\<And>x. x \<in> set (e_kvs e) \<Longrightarrow> prefix p (kv_key x) \<Longrightarrow> kv_key x = k"
  shows "etcd_range_prefix e p \<noteq> [] \<and> kv_key (last (etcd_range_prefix e p)) = k \<and> kv_value (last (etcd_range_prefix e p)) = v"
proof -
  from assms(2) obtain x where x: "etcd_get e k = Some x" "kv_value x = v" by (auto simp: etcd_value_def)
  then have "x \<in> set (etcd_range_prefix e p)" using etcd_get_SomeD [OF x(1)] assms(3) by (auto simp: etcd_range_prefix_def)
  then have ne: "etcd_range_prefix e p \<noteq> []" by auto
  then have y: "last (etcd_range_prefix e p) \<in> set (e_kvs e)" "prefix p (kv_key (last (etcd_range_prefix e p)))"
    using last_in_set [OF ne] by (auto simp: etcd_range_prefix_def)
  then have "kv_key (last (etcd_range_prefix e p)) = k" using assms(4) by blast
  with kv_get_sorted [OF wf_etcdD(1) [OF assms(1)] y(1)] x ne show ?thesis by (simp add: etcd_get_def)
qed

text \<open>
  C35: the recovery tool on a former master finds what the new master uploaded at its promotion: when the new master has uploaded its position in a
  term, the term is in etcd and the node to recover was master in the term before, the tool reads the file, the position and the GTIDs up to
  which the new master had executed the log of the old one, and the address of the new master.
\<close>

theorem recovery_reads_switch:
  assumes "uploadPromotionBinlog E w = Ret None w'" and "wf_env E" and "e_id E = ip @ CHR '':'' # port" and "CHR '':'' \<notin> set ip \<union> set port"
    and "a_term w' \<noteq> 0" and "unat (a_term w') < 2 ^ 63" and "rec_root cfg = rootPath E" and "t_dial v = None # ds"
    and "n_script v = [Rpc id RpcOK a1 b1, Rpc id RpcOK a2 b2, Rpc id RpcOK a3 b3]" and "wf_etcd (n_etcd v)"
    and "etcd_value (n_etcd v) (fullPathOf E (switch_path E (a_term w'))) = etcd_value (n_etcd w') (fullPathOf E (switch_path E (a_term w')))"
    and "etcd_value (n_etcd v) (rec_root cfg @ ''/election/master/term'') = Some (show_u64 (a_term w'))"
    and "etcd_value (n_etcd v) (rec_root cfg @ ''/election/terms/'' @ r_EtcdHostPort cfg) = Some (show_u64 (a_term w' - 1))"
    and "\<And>x. x \<in> set (e_kvs (n_etcd v)) \<Longrightarrow> prefix (rec_root cfg @ ''/switch/'' @ show_u64 (a_term w' - 1)) (kv_key x) \<Longrightarrow>
      kv_key x = fullPathOf E (switch_path E (a_term w'))"
  shows "\<exists>p w1 v'. sm_LoadSlaveStatusFromDB (e_sm E) (a_latestPos w) w = Ret (Inr p) w1 \<and>
    GetEtcdSwitchInfo cfg v = Ret (Inr \<lparr>MohaSwitchFile = pos_File p, MohaSwitchPost = pos_Pos p, MohaSwitchGtid = pos_GTID p,
      MohaNewMasterIp = ip, MohaNewMasterPort = port\<rparr>) v'"
proof -
  let ?k1 = "rec_root cfg @ ''/election/master/term''" and ?k2 = "rec_root cfg @ ''/election/terms/'' @ r_EtcdHostPort cfg"
  let ?k3 = "rec_root cfg @ ''/switch/'' @ show_u64 (a_term w' - 1)" and ?e = "n_etcd v"
  from promotion_uploaded [OF assms(1)] obtain p w1 where p: "sm_LoadSlaveStatusFromDB (e_sm E) (a_latestPos w) w = Ret (Inr p) w1"
    and up: "etcd_value ?e (fullPathOf E (switch_path E (a_term w'))) = Some (marshal_Position p)" using assms(11) by auto
  obtain c where c: "etcd_range ?e ?k1 = [c]" "kv_value c = show_u64 (a_term w')" using range_value [OF assms(12)] by blast
  obtain r where r: "etcd_range ?e ?k2 = [r]" "kv_value r = show_u64 (a_term w' - 1)" using range_value [OF assms(13)] by blast
  have key: "fullPathOf E (switch_path E (a_term w')) = ?k3 @ CHR ''/'' # e_id E" by (simp add: switch_key [OF assms(2)] assms(7))
  define x where "x = last (etcd_range_prefix ?e ?k3)"
  have x: "etcd_range_prefix ?e ?k3 \<noteq> []" "kv_key x = ?k3 @ CHR ''/'' # e_id E" "kv_value x = marshal_Position p"
    using last_of_prefix [OF assms(10) up _ assms(14)] unfolding x_def key by auto
  have i: "last (split_go (CHR ''/'') (kv_key x)) = e_id E" "e_id E \<noteq> []"
    using assms(2) last_component [of "e_id E" ?k3] unfolding x(2) by (auto simp: wf_env_def good_comp_def)
  have sp: "split_go (CHR '':'') (e_id E) = [ip, port]" using assms(3,4) by (simp add: split_append_sep split_no_sep)
  have info: "info_of x u = Ret (Inr \<lparr>MohaSwitchFile = pos_File p, MohaSwitchPost = pos_Pos p, MohaSwitchGtid = pos_GTID p,
      MohaNewMasterIp = ip, MohaNewMasterPort = port\<rparr>) u" for u
    using i sp by (simp add: info_of_def Let_def x(3) stat_of_position)
  have k: "?k1 \<noteq> []" "?k2 \<noteq> []" "?k3 \<noteq> []" by simp_all
  have "\<exists>v'. GetEtcdSwitchInfo cfg v = Ret (Inr \<lparr>MohaSwitchFile = pos_File p, MohaSwitchPost = pos_Pos p, MohaSwitchGtid = pos_GTID p,
      MohaNewMasterIp = ip, MohaNewMasterPort = port\<rparr>) v'"
    unfolding GetEtcdSwitchInfo_def andthen_def initEtcdClient_def using assms(8,9) term_before [OF assms(5,6)] x(1)
    by (simp add: get_Ret [OF _ k(1)] get_Ret [OF _ k(2)] get_Ret [OF _ k(3)] c r x_def [symmetric] info del: append_Cons append_assoc)
  with p show ?thesis by blast
qed

text \<open>The new master \<open>b:3306\<close> in term 3; the node to recover is \<open>a:3306\<close>.\<close>

definition rs_etcd :: etcd where
  "rs_etcd = snd (etcd_put ''/moha/c1/election/terms/a:3306'' ''2'' 0 (snd (etcd_put ''/moha/c1/election/master/term'' ''3'' 0 empty_etcd)))"

definition rs_w :: agent where
  "rs_w = (ex_agent ''b:3306'' rs_etcd [rpc_ok] [SqlReply None [''Relay_Master_Log_File'', ''Exec_Master_Log_Pos'', ''Executed_Gtid_Set'']
     [[Some ''bin.000012'', Some ''345'', Some ''x:1-7'']] None 1])\<lparr>a_term := 3\<rparr>"

definition rs_p :: Position where
  "rs_p = zero_Position\<lparr>pos_File := ''bin.000012'', pos_Pos := ''345'', pos_GTID := ''x:1-7''\<rparr>"

definition rs_cfg :: rec_config where
  "rs_cfg = rv_cfg\<lparr>r_EtcdRootPath := ''/moha/''\<rparr>"

lemma rs_load: "\<exists>w1. sm_LoadSlaveStatusFromDB (e_sm (ex_env ''b:3306'')) (a_latestPos rs_w) rs_w = Ret (Inr rs_p) w1 \<and>
    n_etcd w1 = rs_etcd \<and> n_script w1 = [rpc_ok] \<and> \<not> a_ctxDone w1 \<and> a_term w1 = 3"
proof -
  have s: "slave_position (a_latestPos rs_w) (status_map [''Relay_Master_Log_File'', ''Exec_Master_Log_Pos'', ''Executed_Gtid_Set'']
      (scan_bytes 3 [[Some ''bin.000012'', Some ''345'', Some ''x:1-7'']])) = Inr rs_p"
    unfolding rs_w_def rs_p_def by code_simp
  show ?thesis
    using s by (simp add: mysqlSM_LoadSlaveStatusFromDB_def GetSlaveStatus_def db_Query_def sql_call_def rs_w_def ex_agent_def andthen_def numeral_eq_Suc)
qed

lemma rs_key: "fullPathOf (ex_env i) (switch_path (ex_env ''b:3306'') 3) = ''/moha/c1/switch/2/b:3306''"
  by (simp add: fullPathOf_def ex_root switch_path_def) code_simp

definition rs_after :: etcd where
  "rs_after = snd (etcd_put ''/moha/c1/switch/2/b:3306'' (marshal_Position rs_p) 0 rs_etcd)"

lemma rs_after_facts:
  "etcd_value rs_after ''/moha/c1/election/master/term'' = Some ''3''" "etcd_value rs_after ''/moha/c1/election/terms/a:3306'' = Some ''2''"
  "map kv_key (e_kvs rs_after) = [''/moha/c1/election/master/term'', ''/moha/c1/election/terms/a:3306'', ''/moha/c1/switch/2/b:3306'']"
  by code_simp+

lemma rs_upload: "\<exists>w'. uploadPromotionBinlog (ex_env ''b:3306'') rs_w = Ret None w' \<and> n_etcd w' = rs_after \<and> a_term w' = 3"
proof -
  obtain w1 where w1: "sm_LoadSlaveStatusFromDB (e_sm (ex_env ''b:3306'')) (a_latestPos rs_w) rs_w = Ret (Inr rs_p) w1"
    "n_etcd w1 = rs_etcd" "n_script w1 = [rpc_ok]" "\<not> a_ctxDone w1" "a_term w1 = 3" using rs_load by blast
  have k: "KeyWithRootPath (rootPath (ex_env ''b:3306'')) (switch_path (ex_env ''b:3306'') 3) = ''/moha/c1/switch/2/b:3306''"
    using rs_key by (simp add: fullPathOf_def)
  show ?thesis
    unfolding uploadPromotionBinlog_def
    using w1 by (simp add: andthen_def Client_Put_def rpc_call_def rpc_ok_def Let_def k etcd_put_def rs_after_def to_err_def del: sm_LoadSlaveStatusFromDB.simps)
qed

theorem recovery_reads_switch_witness:
  "\<exists>w' p w1 v'. uploadPromotionBinlog (ex_env ''b:3306'') rs_w = Ret None w' \<and>
    sm_LoadSlaveStatusFromDB (e_sm (ex_env ''b:3306'')) (a_latestPos rs_w) rs_w = Ret (Inr p) w1 \<and>
    GetEtcdSwitchInfo rs_cfg (rv_w\<lparr>n_etcd := rs_after\<rparr>) = Ret (Inr \<lparr>MohaSwitchFile = pos_File p, MohaSwitchPost = pos_Pos p,
      MohaSwitchGtid = pos_GTID p, MohaNewMasterIp = ''b'', MohaNewMasterPort = ''3306''\<rparr>) v'"
proof -
  let ?E = "ex_env ''b:3306''" and ?v = "rv_w\<lparr>n_etcd := rs_after\<rparr>"
  obtain w' where w': "uploadPromotionBinlog ?E rs_w = Ret None w'" "n_etcd w' = rs_after" "a_term w' = 3" using rs_upload by blast
  have e: "e_id ?E = ''b'' @ CHR '':'' # ''3306''" "CHR '':'' \<notin> set ''b'' \<union> set ''3306''" by simp_all
  have t: "a_term w' \<noteq> 0" "unat (a_term w') < 2 ^ 63" by (simp_all add: w'(3))
  have root: "rec_root rs_cfg = ''/moha/c1''" "r_EtcdHostPort rs_cfg = ''a:3306''" by (simp_all add: rec_root_def rs_cfg_def rv_cfg_def)
  have u: "show_u64 3 = ''3''" "show_u64 (3 - 1) = ''2''" by code_simp+
  have g: "wf_env ?E" using ex_root_good by (simp add: wf_env_def ex_root good_comp_def)
  have v: "t_dial ?v = None # []" "n_script ?v = [Rpc id RpcOK 1 1, Rpc id RpcOK 1 1, Rpc id RpcOK 1 1]" "n_etcd ?v = rs_after" by (simp_all add: rv_w_def)
  have wf: "wf_etcd (n_etcd ?v)" by (simp add: rs_after_def rs_etcd_def wf_etcd_put wf_empty_etcd)
  have sole: "kv_key x = fullPathOf ?E (switch_path ?E (a_term w'))"
    if "x \<in> set (e_kvs (n_etcd ?v))" "prefix (rec_root rs_cfg @ ''/switch/'' @ show_u64 (a_term w' - 1)) (kv_key x)" for x
  proof -
    have "kv_key x \<in> set (map kv_key (e_kvs rs_after))" using that(1) by simp
    then show ?thesis using that(2) by (auto simp only: w'(3) rs_key rs_after_facts(3) root u set_simps insert_iff empty_iff) (simp_all add: w'(3) u [simplified])
  qed
  have "\<exists>p w1 v'. sm_LoadSlaveStatusFromDB (e_sm ?E) (a_latestPos rs_w) rs_w = Ret (Inr p) w1 \<and>
    GetEtcdSwitchInfo rs_cfg ?v = Ret (Inr \<lparr>MohaSwitchFile = pos_File p, MohaSwitchPost = pos_Pos p, MohaSwitchGtid = pos_GTID p,
      MohaNewMasterIp = ''b'', MohaNewMasterPort = ''3306''\<rparr>) v'"
    by (rule recovery_reads_switch [OF w'(1) g e t _ v(1,2) wf _ _ _ sole])
      (simp_all add: ex_root w' root rs_after_facts u [simplified] del: sm_LoadSlaveStatusFromDB.simps)
  with w'(1) show ?thesis by blast
qed

section \<open>One configuration file for both\<close>

text \<open>
  The file of the agent, read by the agent and by the recovery tool: each takes the fields with its tags, and leaves the others.
\<close>

definition agent_reads :: "agent_file \<Rightarrow> Config \<Rightarrow> Config" where
  "agent_reads g c =
     c\<lparr>ClusterName := af_ClusterName g, LeaderLeaseTTL := af_LeaderLeaseTTL g, ShutdownThreshold := af_ShutdownThreshold g, DataDir := af_DataDir g,
       ListenAddr := af_ListenAddr g, EtcdURLs := af_EtcdURLs g, RegisterTTL := af_RegisterTTL g, EtcdRootPath := af_EtcdRootPath g,
       EtcdUsername := af_EtcdUsername g, EtcdPassword := af_EtcdPassword g, LogLevel := af_LogLevel g, LogFile := af_LogFile g,
       LogMaxSize := af_LogMaxSize g, LogMaxDays := af_LogMaxDays g, LogCompress := af_LogCompress g, DBConfig := af_DBConfig g,
       InternalServiceHost := af_InternalServiceHost g, ExternalServiceHost := af_ExternalServiceHost g, ForkProcessFile := af_ForkProcessFile g,
       ForkProcessArgs := af_ForkProcessArgs g, ForkProcessWaitSecond := af_ForkProcessWaitSecond g\<rparr>"

definition recovery_reads :: "agent_file \<Rightarrow> rec_config" where
  "recovery_reads g =
     \<lparr>r_EtcdURLs = af_EtcdURLs g, r_EtcdRootPath = af_EtcdRootPath g, r_EtcdUsername = af_EtcdUsername g, r_EtcdPassword = af_EtcdPassword g,
      r_EtcdCluster = af_ClusterName g, r_EtcdHostPort = af_InternalServiceHost g,
      r_Db = \<lparr>r_MysqlHost = db_Host (af_DBConfig g), r_MysqlUser = db_User (af_DBConfig g), r_MysqlPwd = db_Password (af_DBConfig g),
        r_MysqlPort = db_Port (af_DBConfig g)\<rparr>\<rparr>"

lemma good_rel4:
  assumes "good_comp p" and "good_comp c"
  shows "good_rel (''dbproxy/'' @ p @ ''/ks_cfg/nodes/'' @ c)"
proof -
  have "good_comp ''dbproxy''" "good_comp ''ks_cfg''" "good_comp ''nodes''" by (simp_all add: good_comp_def)
  then have "good_rel (''dbproxy'' @ CHR ''/'' # p @ CHR ''/'' # ''ks_cfg'' @ CHR ''/'' # ''nodes'' @ CHR ''/'' # c)"
    using assms by (intro good_rel_append good_rel_comp)
  then show ?thesis by simp
qed

lemma generated_root:
  assumes "good_comp p" and "good_comp c"
  shows "path_join [''/dbproxy/'' @ p @ ''/ks_cfg/nodes/'', c] = ''/dbproxy/'' @ p @ ''/ks_cfg/nodes/'' @ c"
proof -
  have s: "split_go (CHR ''/'') (''/dbproxy/'' @ p @ ''/ks_cfg/nodes//'' @ c) = [[], ''dbproxy'', p, ''ks_cfg'', ''nodes'', [], c]"
  proof -
    have n: "CHR ''/'' \<notin> set []" "CHR ''/'' \<notin> set ''dbproxy''" "CHR ''/'' \<notin> set p" "CHR ''/'' \<notin> set ''ks_cfg''" "CHR ''/'' \<notin> set ''nodes''"
      "CHR ''/'' \<notin> set c" using assms by (simp_all add: good_comp_no_slash)
    have "''/dbproxy/'' @ p @ ''/ks_cfg/nodes//'' @ c =
      [] @ CHR ''/'' # ''dbproxy'' @ CHR ''/'' # p @ CHR ''/'' # ''ks_cfg'' @ CHR ''/'' # ''nodes'' @ CHR ''/'' # [] @ CHR ''/'' # c" by simp
    then show ?thesis
      by (simp only: split_append_sep [OF n(1)] split_append_sep [OF n(2)] split_append_sep [OF n(3)] split_append_sep [OF n(4)]
        split_append_sep [OF n(5)] split_no_sep [OF n(6)])
  qed
  then have "path_clean (''/dbproxy/'' @ p @ ''/ks_cfg/nodes//'' @ c) = ''/dbproxy/'' @ p @ ''/ks_cfg/nodes/'' @ c"
    using assms unfolding path_clean_def Let_def s by (simp add: good_comp_def)
  then show ?thesis by simp
qed


definition ga_conf :: AgentConf where
  "ga_conf = (ci_AgentConf cf_input)\<lparr>ac_ProxyName := ''p1'', ac_EtcdUser := ''root''\<rparr>"


end
